(* ===== verification/Prelude.thy ===== *)
theory Prelude
  imports Main "HOL-Library.Word" "HOL-Library.AList"
begin

text \<open>
  Shared vocabulary of the development: the machine types, the exceptions of the C++ code,
  and the outcome type \<open>res\<close> of an operation that works on a state and may throw. A C++
  exception does not undo the mutations made before it, so both constructors of an outcome
  carry the state that is left behind. \<open>always\<close> says that a predicate holds of that state
  however the operation ends; the collection \<open>res_intro\<close> holds its composition rules.
\<close>

named_theorems res_intro "composition rules for the state left by an operation"

type_synonym byte = "8 word"
type_synonym u32 = "32 word"

text \<open>A C++ \<open>int\<close>: 32 bits, two's complement (\<open>sint\<close> reads its signed value).\<close>

type_synonym cint = "32 word"

section \<open>Exceptions and outcomes\<close>

text \<open>
  \<open>AssertFailed\<close> is an \<open>o_assert\<close> that aborts the process, \<open>SystemError\<close> the
  exception of an I/O library call made without an error code argument, \<open>ArchiveException\<close>
  the one a serialization archive raises on input it cannot read, \<open>BadFunctionCall\<close> the call
  of an empty \<open>std::function\<close>, and \<open>Undefined\<close> an execution whose behaviour the language
  leaves open (a dangling reference, an invalidated iterator, a null pointer).
\<close>

datatype exn =
    RuntimeError string
  | LogicError string
  | LengthError string
  | SystemError cint
  | ArchiveException
  | BadFunctionCall
  | AssertFailed string
  | Undefined string

datatype ('a, 's) res = Ret 'a 's | Exn exn 's

primrec bind_res :: "('a, 's) res \<Rightarrow> ('a \<Rightarrow> 's \<Rightarrow> ('b, 's) res) \<Rightarrow> ('b, 's) res" where
  "bind_res (Ret a s) f = f a s"
| "bind_res (Exn e s) f = Exn e s"

primrec res_state :: "('a, 's) res \<Rightarrow> 's" where
  "res_state (Ret a s) = s"
| "res_state (Exn e s) = s"

primrec returns :: "('a, 's) res \<Rightarrow> bool" where
  "returns (Ret a s) = True"
| "returns (Exn e s) = False"

lemma bind_res_cong [fundef_cong]:
  assumes "m = m'" and "\<And>a s. m' = Ret a s \<Longrightarrow> f a s = g a s"
  shows "bind_res m f = bind_res m' g"
  using assms by (cases m') auto

lemma bind_res_eq_Ret:
  "bind_res m f = Ret b t \<longleftrightarrow> (\<exists>a s. m = Ret a s \<and> f a s = Ret b t)"
  by (cases m) auto

lemma bind_res_eq_Exn:
  "bind_res m f = Exn e t \<longleftrightarrow> m = Exn e t \<or> (\<exists>a s. m = Ret a s \<and> f a s = Exn e t)"
  by (cases m) auto

lemma bind_res_assoc: "bind_res (bind_res m f) g = bind_res m (\<lambda>a s. bind_res (f a s) g)"
  by (cases m) auto

lemma res_state_bind:
  "res_state (bind_res m f) = (case m of Ret a s \<Rightarrow> res_state (f a s) | Exn e s \<Rightarrow> s)"
  by (cases m) auto

subsection \<open>State predicates kept by an operation\<close>

definition always :: "('s \<Rightarrow> bool) \<Rightarrow> ('a, 's) res \<Rightarrow> bool" where
  "always P r \<longleftrightarrow> P (res_state r)"

lemma always_Ret [simp]: "always P (Ret a s) \<longleftrightarrow> P s"
  by (simp add: always_def)

lemma always_Exn [simp]: "always P (Exn e s) \<longleftrightarrow> P s"
  by (simp add: always_def)

lemma always_bind [res_intro]:
  assumes "always P m" and "\<And>a s. m = Ret a s \<Longrightarrow> P s \<Longrightarrow> always P (f a s)"
  shows "always P (bind_res m f)"
  using assms by (cases m) auto

lemma always_mono: "always P r \<Longrightarrow> (\<And>s. P s \<Longrightarrow> Q s) \<Longrightarrow> always Q r"
  by (simp add: always_def)

lemma always_if [res_intro]:
  "(b \<Longrightarrow> always P x) \<Longrightarrow> (\<not> b \<Longrightarrow> always P y) \<Longrightarrow> always P (if b then x else y)"
  by simp

text \<open>An assertion of the source: it lets the state through or aborts.\<close>

definition o_assert :: "bool \<Rightarrow> string \<Rightarrow> 's \<Rightarrow> (unit, 's) res" where
  "o_assert c msg s = (if c then Ret () s else Exn (AssertFailed msg) s)"

lemma o_assert_True [simp]: "o_assert True msg s = Ret () s"
  by (simp add: o_assert_def)

lemma o_assert_False [simp]: "o_assert False msg s = Exn (AssertFailed msg) s"
  by (simp add: o_assert_def)

lemma always_o_assert [res_intro]: "P s \<Longrightarrow> always P (o_assert c msg s)"
  by (simp add: o_assert_def)

section \<open>Association lists and lists\<close>

text \<open>
  A \<open>std::unordered_map\<close> or \<open>std::map\<close> that the code iterates over is an association list
  with distinct keys. \<open>in_keys\<close> is \<open>find(k) != end()\<close>.
\<close>

definition in_keys :: "'k \<Rightarrow> ('k \<times> 'v) list \<Rightarrow> bool" where
  "in_keys k xs \<longleftrightarrow> k \<in> fst ` set xs"

lemma in_keys_code [code]: "in_keys k xs \<longleftrightarrow> list_ex (\<lambda>p. fst p = k) xs"
  by (auto simp: in_keys_def list_ex_iff)

lemma in_keys_Nil [simp]: "\<not> in_keys k []"
  by (simp add: in_keys_def)

lemma in_keys_Cons [simp]: "in_keys k (p # xs) \<longleftrightarrow> fst p = k \<or> in_keys k xs"
  by (auto simp: in_keys_def)

lemma in_keys_map_of: "in_keys k xs \<longleftrightarrow> map_of xs k \<noteq> None"
  by (simp add: in_keys_def map_of_eq_None_iff)

lemma in_keys_update [simp]: "in_keys k (AList.update k' v xs) \<longleftrightarrow> k = k' \<or> in_keys k xs"
  by (simp add: in_keys_map_of update_conv')

lemma in_keys_delete [simp]: "in_keys k (AList.delete k' xs) \<longleftrightarrow> k \<noteq> k' \<and> in_keys k xs"
  by (simp add: in_keys_map_of delete_conv')

lemma map_of_alist_delete [simp]: "map_of (AList.delete k xs) = (map_of xs)(k := None)"
  by (rule delete_conv')

lemma map_of_alist_update [simp]: "map_of (AList.update k v xs) = (map_of xs)(k \<mapsto> v)"
  by (rule update_conv')

lemma update_fresh: "\<not> in_keys k xs \<Longrightarrow> AList.update k v xs = xs @ [(k, v)]"
  by (induction xs) auto

lemma delete_head: "distinct (map fst ((k, v) # xs)) \<Longrightarrow> AList.delete k ((k, v) # xs) = xs"
  by (simp add: AList.delete_eq filter_id_conv) force

end
