(* ===== verification/Errors.thy ===== *)
theory Errors
  imports Prelude
begin

text \<open>
  Error values and call results (\<open>error.h\<close>, \<open>asio/errorcode.h\<close>, the \<open>Result\<close> class of
  \<open>cercall.h\<close>) and the log levels of \<open>log.h\<close>. An \<open>error_code\<close> is the value the I/O library
  reports: its number, the name of its category and the text its category gives for it. The
  category pointer of an \<open>Error\<close> is an option, since it may be null.
\<close>

section \<open>Error codes of the platform\<close>

record error_code =
  ec_value :: cint
  ec_category :: string
  ec_message :: string

definition ec_ok :: "error_code \<Rightarrow> bool" where
  "ec_ok ec \<longleftrightarrow> ec_value ec = 0"

definition EINTR :: cint where "EINTR = 4"
definition EAGAIN :: cint where "EAGAIN = 11"
definition EWOULDBLOCK :: cint where "EWOULDBLOCK = 11"
definition EISCONN :: cint where "EISCONN = 106"
definition ENOTCONN :: cint where "ENOTCONN = 107"
definition EINPROGRESS :: cint where "EINPROGRESS = 115"
definition ECANCELED :: cint where "ECANCELED = 125"

lemmas errno_defs =
  EINTR_def EAGAIN_def EWOULDBLOCK_def EISCONN_def ENOTCONN_def EINPROGRESS_def ECANCELED_def

text \<open>
  \<open>asio::error::operation_aborted\<close> is \<open>ECANCELED\<close> of the system category; two error codes
  are equal when number and category agree.
\<close>

definition operation_aborted :: "error_code \<Rightarrow> bool" where
  "operation_aborted ec \<longleftrightarrow> ec_value ec = ECANCELED \<and> ec_category ec = ''system''"

section \<open>Error\<close>

record cerror =
  myNetLibCode :: cint
  myCategory :: "string option"
  myErrorMessage :: string

definition Error_none :: cerror where
  "Error_none = \<lparr>myNetLibCode = 0, myCategory = None, myErrorMessage = ''''\<rparr>"

definition Error_of_code :: "error_code \<Rightarrow> cerror" where
  "Error_of_code ec =
     \<lparr>myNetLibCode = ec_value ec, myCategory = Some (ec_category ec),
      myErrorMessage = (if ec_value ec \<noteq> 0 then ec_message ec else '''')\<rparr>"

definition Error_of_message :: "cint \<Rightarrow> string \<Rightarrow> cerror" where
  "Error_of_message c msg = \<lparr>myNetLibCode = c, myCategory = None, myErrorMessage = msg\<rparr>"

definition Error_assign :: "cerror \<Rightarrow> cerror \<Rightarrow> cerror" where
  "Error_assign this other =
     this\<lparr>myNetLibCode := myNetLibCode other, myErrorMessage := myErrorMessage other,
          myCategory := myCategory other\<rparr>"

definition Error_bool :: "cerror \<Rightarrow> bool" where
  "Error_bool e \<longleftrightarrow> myNetLibCode e \<noteq> 0"

text \<open>\<open>category()\<close> dereferences the category pointer without a check.\<close>

definition Error_category :: "cerror \<Rightarrow> exn + string" where
  "Error_category e =
     (case myCategory e of None \<Rightarrow> Inl (Undefined ''null category'') | Some c \<Rightarrow> Inr c)"

definition operation_in_progress :: cerror where
  "operation_in_progress =
     Error_of_code \<lparr>ec_value = EINPROGRESS, ec_category = ''system'',
                    ec_message = ''Operation now in progress''\<rparr>"

lemma Error_assign_eq [simp]: "Error_assign this other = other"
  by (simp add: Error_assign_def)

lemma Error_of_code_bool [simp]: "Error_bool (Error_of_code ec) \<longleftrightarrow> \<not> ec_ok ec"
  by (simp add: Error_bool_def Error_of_code_def ec_ok_def)

lemma Error_none_bool [simp]: "\<not> Error_bool Error_none"
  by (simp add: Error_bool_def Error_none_def)

lemma operation_in_progress_bool [simp]: "Error_bool operation_in_progress"
  by (simp add: operation_in_progress_def ec_ok_def errno_defs)

lemma operation_in_progress_code [simp]: "myNetLibCode operation_in_progress = EINPROGRESS"
  by (simp add: operation_in_progress_def Error_of_code_def)

section \<open>Result\<close>

text \<open>
  A \<open>Result<T>\<close> holds a value and an error; \<open>Result<void>\<close> has no value. The value type of
  the model is one type of values for all \<open>T\<close>, so a void result has value \<open>None\<close>. The
  constructor from an error value-initialises the value: \<open>dv\<close> is \<open>T{}\<close>.
\<close>

record 'v result =
  res_value :: "'v option"
  myError :: cerror

definition Result_value :: "'v \<Rightarrow> cerror \<Rightarrow> 'v result" where
  "Result_value v e = \<lparr>res_value = Some v, myError = e\<rparr>"

definition Result_error :: "'v option \<Rightarrow> cerror \<Rightarrow> 'v result" where
  "Result_error dv e = \<lparr>res_value = dv, myError = e\<rparr>"

definition set_value :: "'v \<Rightarrow> 'v result \<Rightarrow> 'v result" where
  "set_value v r = r\<lparr>res_value := Some v\<rparr>"

definition set_error :: "cerror \<Rightarrow> 'v result \<Rightarrow> 'v result" where
  "set_error e r = r\<lparr>myError := Error_assign (myError r) e\<rparr>"

definition Result_bool :: "'v result \<Rightarrow> bool" where
  "Result_bool r \<longleftrightarrow> \<not> Error_bool (myError r)"

lemmas result_defs = Result_value_def Result_error_def set_value_def set_error_def

section \<open>Log levels\<close>

datatype log_level = log_off | log_fatal | log_error | log_debug | log_trace

primrec log_level_value :: "log_level \<Rightarrow> nat" where
  "log_level_value log_off = 0"
| "log_level_value log_fatal = 1"
| "log_level_value log_error = 2"
| "log_level_value log_debug = 3"
| "log_level_value log_trace = 4"

lemma log_level_value_inject [simp]: "log_level_value a = log_level_value b \<longleftrightarrow> a = b"
  by (cases a; cases b) auto

text \<open>The enumeration is ordered by its values, as C++ orders it.\<close>

instantiation log_level :: linorder
begin

definition less_eq_log_level :: "log_level \<Rightarrow> log_level \<Rightarrow> bool" where
  "less_eq_log_level a b \<longleftrightarrow> log_level_value a \<le> log_level_value b"

definition less_log_level :: "log_level \<Rightarrow> log_level \<Rightarrow> bool" where
  "less_log_level a b \<longleftrightarrow> log_level_value a < log_level_value b"

instance
  by standard (auto simp: less_eq_log_level_def less_log_level_def)

end

end
