(* ===== verification/Wire.thy ===== *)
theory Wire
  imports Errors
begin

text \<open>
  What goes over the wire: the message header (the static functions of
  \<open>details/messenger.h\<close>) and the body written by the serialization adapters
  (\<open>cereal/serialization.h\<close>, \<open>cereal/types.h\<close> and their Boost twins). The archives
  themselves are third-party code and a parameter: a record of the operations the adapters
  call. What the adapters rely on is \<open>archive_ok\<close>: the items written by an output archive
  come back, in order, from an input archive of the same kind.
\<close>

unbundle bit_operations_syntax

section \<open>The message header\<close>

text \<open>
  The header is the body length as a 32-bit integer, copied byte by byte with \<open>memcpy\<close> and
  \<open>std::copy_n\<close>: in the byte order of the host.
\<close>

datatype endian = LittleEndian | BigEndian

definition HEADER_SIZE :: nat where "HEADER_SIZE = 4"

definition u32_bytes :: "u32 \<Rightarrow> byte list" where
  "u32_bytes w = [ucast w, ucast (drop_bit 8 w), ucast (drop_bit 16 w), ucast (drop_bit 24 w)]"

fun u32_of_bytes :: "byte list \<Rightarrow> u32" where
  "u32_of_bytes [a, b, c, d] =
     ucast a OR push_bit 8 (ucast b) OR push_bit 16 (ucast c) OR push_bit 24 (ucast d)"
| "u32_of_bytes _ = 0"

definition store_u32 :: "endian \<Rightarrow> u32 \<Rightarrow> byte list" where
  "store_u32 en w = (case en of LittleEndian \<Rightarrow> u32_bytes w | BigEndian \<Rightarrow> rev (u32_bytes w))"

definition load_u32 :: "endian \<Rightarrow> byte list \<Rightarrow> u32" where
  "load_u32 en bs = (case en of LittleEndian \<Rightarrow> u32_of_bytes bs | BigEndian \<Rightarrow> u32_of_bytes (rev bs))"

lemma length_u32_bytes [simp]: "length (u32_bytes w) = 4"
  by (simp add: u32_bytes_def)

lemma length_store_u32 [simp]: "length (store_u32 en w) = 4"
  by (simp add: store_u32_def split: endian.splits)

lemma u32_of_bytes_u32_bytes [simp]: "u32_of_bytes (u32_bytes w) = w"
  unfolding u32_bytes_def u32_of_bytes.simps
proof (rule bit_word_eqI)
  fix n assume "n < LENGTH(32)"
  moreover have "k + (n - k) = n" if "k \<le> n" for k using that by simp
  ultimately show "bit (ucast (ucast w :: byte) OR push_bit 8 (ucast (ucast (drop_bit 8 w) :: byte))
      OR push_bit 16 (ucast (ucast (drop_bit 16 w) :: byte))
      OR push_bit 24 (ucast (ucast (drop_bit 24 w) :: byte)) :: u32) n = bit w n"
    by (cases "n < 8"; cases "n < 16"; cases "n < 24") (auto simp: bit_simps)
qed

lemma u32_bytes_inject: "u32_bytes v = u32_bytes w \<longleftrightarrow> v = w"
  by (metis u32_of_bytes_u32_bytes)

lemma load_store_u32 [simp]: "load_u32 en (store_u32 en w) = w"
  by (simp add: load_u32_def store_u32_def split: endian.splits)

definition reserve_message_header :: "byte list" where
  "reserve_message_header = replicate HEADER_SIZE 0"

definition strip_header :: "byte list \<Rightarrow> byte list" where
  "strip_header msg = drop HEADER_SIZE msg"

text \<open>
  The pure part of \<open>write_message_with_header\<close>: the length check, the size computed in 32
  bits and the overwriting of the reserved header. A message shorter than its header would
  be overrun by the copy.
\<close>

definition message_with_header :: "endian \<Rightarrow> byte list \<Rightarrow> exn + byte list" where
  "message_with_header en msg =
     (if length msg > 2 ^ 32 - 1 - HEADER_SIZE then Inl (LengthError ''message too long'')
      else if length msg < HEADER_SIZE then Inl (Undefined ''header copied past the message'')
      else let msgSize = word_of_nat (length msg) - word_of_nat HEADER_SIZE
           in Inr (store_u32 en msgSize @ drop HEADER_SIZE msg))"

lemma HEADER_SIZE_pos [simp]: "0 < HEADER_SIZE"
  by (simp add: HEADER_SIZE_def)

lemma strip_reserved [simp]: "strip_header (reserve_message_header @ body) = body"
  by (simp add: strip_header_def reserve_message_header_def HEADER_SIZE_def)

lemma length_reserve_message_header [simp]: "length reserve_message_header = HEADER_SIZE"
  by (simp add: reserve_message_header_def)

text \<open>The size written is the length of the body: the 32-bit subtraction never wraps.\<close>

lemma message_with_header_size:
  assumes "HEADER_SIZE \<le> length msg" and "length msg \<le> 2 ^ 32 - 1 - HEADER_SIZE"
  shows "unat (word_of_nat (length msg) - word_of_nat HEADER_SIZE :: u32)
         = length msg - HEADER_SIZE"
proof -
  have "(word_of_nat (length msg) - word_of_nat HEADER_SIZE :: u32)
        = word_of_nat (length msg - HEADER_SIZE)"
    using assms(1) by (simp add: of_nat_diff)
  moreover have "length msg - HEADER_SIZE < 2 ^ LENGTH(32)"
    using assms(2) by (simp add: HEADER_SIZE_def)
  ultimately show ?thesis by (simp add: unat_of_nat)
qed

definition frame :: "endian \<Rightarrow> byte list \<Rightarrow> byte list" where
  "frame en body = store_u32 en (word_of_nat (length body)) @ body"

text \<open>The bodies a header can announce and the length check lets through.\<close>

definition body_ok :: "byte list \<Rightarrow> bool" where
  "body_ok body \<longleftrightarrow> body \<noteq> [] \<and> length body \<le> 2 ^ 32 - 1 - 2 * HEADER_SIZE"

lemma message_with_header_reserved:
  assumes "length body \<le> 2 ^ 32 - 1 - 2 * HEADER_SIZE"
  shows "message_with_header en (reserve_message_header @ body) = Inr (frame en body)"
  using assms by (auto simp: message_with_header_def frame_def reserve_message_header_def
      HEADER_SIZE_def Let_def)

lemma message_with_header_too_long:
  "length msg > 2 ^ 32 - 1 - HEADER_SIZE \<Longrightarrow>
   message_with_header en msg = Inl (LengthError ''message too long'')"
  by (simp add: message_with_header_def)

lemma length_frame [simp]: "length (frame en body) = HEADER_SIZE + length body"
  by (simp add: frame_def HEADER_SIZE_def)

lemma load_frame_header:
  "body_ok body \<Longrightarrow> unat (load_u32 en (take HEADER_SIZE (frame en body))) = length body"
  by (simp add: frame_def HEADER_SIZE_def body_ok_def unat_of_nat)

lemma drop_frame_header [simp]: "drop HEADER_SIZE (frame en body @ rest) = body @ rest"
  by (simp add: frame_def HEADER_SIZE_def)

section \<open>Frames in a byte stream\<close>

text \<open>
  The specification of a receiver: how a byte stream divides into frames. The messages are
  the complete bodies; what follows them is an incomplete frame or a header that announces an
  empty body, which the receiver refuses.
\<close>

datatype stream_end = Incomplete "byte list" | BadHeader "byte list"

function split_stream :: "(byte list \<Rightarrow> u32) \<Rightarrow> byte list \<Rightarrow> byte list list \<times> stream_end" where
  "split_stream dec bs =
     (if length bs < HEADER_SIZE then ([], Incomplete bs)
      else let n = unat (dec (take HEADER_SIZE bs)) in
        if n = 0 then ([], BadHeader (drop HEADER_SIZE bs))
        else if length bs < HEADER_SIZE + n then ([], Incomplete bs)
        else let (ms, e) = split_stream dec (drop (HEADER_SIZE + n) bs)
             in (take n (drop HEADER_SIZE bs) # ms, e))"
  by pat_completeness auto
termination
  by (relation "measure (\<lambda>(dec, bs). length bs)") (auto simp: HEADER_SIZE_def)

declare split_stream.simps [simp del]

text \<open>The interface of a header codec, and what it gives every receiver built on it.\<close>

locale header_codec =
  fixes enc :: "u32 \<Rightarrow> byte list" and dec :: "byte list \<Rightarrow> u32"
  assumes length_enc: "length (enc w) = HEADER_SIZE"
    and dec_enc: "dec (enc w) = w"
begin

lemma enc_inject: "enc v = enc w \<longleftrightarrow> v = w"
  by (metis dec_enc)

lemma split_stream_frame:
  assumes "body_ok body"
  shows "split_stream dec (enc (word_of_nat (length body)) @ body @ rest)
         = (body # fst (split_stream dec rest), snd (split_stream dec rest))"
proof -
  let ?h = "enc (word_of_nat (length body))"
  have n: "unat (dec ?h) = length body"
    using assms by (simp add: dec_enc body_ok_def HEADER_SIZE_def unat_of_nat)
  have "drop (HEADER_SIZE + length body) (?h @ body @ rest) = rest"
    by (simp add: length_enc)
  with n assms show ?thesis
    by (subst split_stream.simps) (simp add: length_enc body_ok_def Let_def case_prod_beta)
qed

lemma split_stream_frames:
  assumes "\<forall>m \<in> set ms. body_ok m"
  shows "split_stream dec (concat (map (\<lambda>m. enc (word_of_nat (length m)) @ m) ms) @ rest)
         = (ms @ fst (split_stream dec rest), snd (split_stream dec rest))"
  using assms by (induction ms) (simp_all add: split_stream_frame)

text \<open>Bytes that arrive later complete the last frame and add frames after it.\<close>

lemma split_stream_append:
  assumes "split_stream dec bs = (ms, Incomplete r)"
  shows "split_stream dec (bs @ cs)
         = (ms @ fst (split_stream dec (r @ cs)), snd (split_stream dec (r @ cs)))"
  using assms
proof (induction dec bs arbitrary: ms rule: split_stream.induct)
  case (1 dec bs)
  let ?n = "unat (dec (take HEADER_SIZE bs))"
  show ?case
  proof (cases "length bs < HEADER_SIZE \<or> length bs < HEADER_SIZE + ?n")
    case True
    with "1.prems" have "ms = [] \<and> r = bs"
      by (subst (asm) split_stream.simps) (auto simp: Let_def split: if_splits)
    then show ?thesis by simp
  next
    case False
    obtain ms' where rec: "split_stream dec (drop (HEADER_SIZE + ?n) bs) = (ms', Incomplete r)"
      and n: "?n \<noteq> 0" and ms: "ms = take ?n (drop HEADER_SIZE bs) # ms'"
      using "1.prems" False
      by (subst (asm) split_stream.simps) (auto simp: Let_def split: if_splits prod.splits)
    have "split_stream dec (drop (HEADER_SIZE + ?n) bs @ cs)
          = (ms' @ fst (split_stream dec (r @ cs)), snd (split_stream dec (r @ cs)))"
      by (rule "1.IH" [OF _ refl _ _ rec]) (use False n in auto)
    with False n ms show ?thesis
      by (subst split_stream.simps) (auto simp: Let_def case_prod_beta)
  qed
qed

end

interpretation host_header: header_codec "store_u32 en" "load_u32 en" for en
  by unfold_locales (simp_all add: HEADER_SIZE_def)

lemma split_frames:
  assumes "\<forall>m \<in> set ms. body_ok m"
  shows "split_stream (load_u32 en) (concat (map (frame en) ms)) = (ms, Incomplete [])"
proof -
  have "split_stream (load_u32 en) [] = ([], Incomplete [])"
    by (subst split_stream.simps) (simp add: HEADER_SIZE_def)
  moreover have "frame en = (\<lambda>m. store_u32 en (word_of_nat (length m)) @ m)"
    by (simp add: fun_eq_iff frame_def)
  ultimately show ?thesis
    using host_header.split_stream_frames [OF assms, of en "[]"] by simp
qed

text \<open>
  A header is read in the byte order of its own host. A short message from a host with the other
  order seems to announce at least 16 megabytes, and its reader waits for them.
\<close>

lemma other_order_header:
  assumes "n < 256"
  shows "unat (load_u32 BigEndian (store_u32 LittleEndian (word_of_nat n))) = n * 2 ^ 24"
proof -
  define w :: u32 where "w = word_of_nat n"
  have n: "unat w = n"
    using assms by (simp add: w_def unat_of_nat)
  have zero: "drop_bit k w = 0" if "8 \<le> k" for k
  proof -
    have "n < 2 ^ k"
      using assms power_increasing [OF that, of "2 :: nat"] by simp
    then have "unat (drop_bit k w) = 0"
      by (simp only: unat_drop_bit_eq n) (simp add: drop_bit_eq_div)
    then show ?thesis by (simp add: unat_eq_0)
  qed
  have "load_u32 BigEndian (store_u32 LittleEndian w) = push_bit 24 (ucast (ucast w :: byte))"
    by (simp add: load_u32_def store_u32_def u32_bytes_def zero)
  moreover have "unat (ucast (ucast w :: byte) :: u32) = n"
    using assms n by (simp add: unsigned_ucast_eq unsigned_take_bit_eq take_bit_nat_eq_self)
  ultimately show ?thesis
    unfolding w_def [symmetric]
    using assms by (simp only: unsigned_push_bit_eq) (simp add: push_bit_eq_mult take_bit_nat_eq_self)
qed

lemma other_order_waits:
  assumes "body \<noteq> []" and "length body < 256"
  shows "split_stream (load_u32 BigEndian) (frame LittleEndian body) = ([], Incomplete (frame LittleEndian body))"
proof -
  have "unat (load_u32 BigEndian (take HEADER_SIZE (frame LittleEndian body))) = length body * 2 ^ 24"
    using other_order_header [OF assms(2)] by (simp add: frame_def HEADER_SIZE_def)
  moreover have "length (frame LittleEndian body) < HEADER_SIZE + length body * 2 ^ 24"
    using assms by (simp add: frame_def HEADER_SIZE_def neq_Nil_conv)
  ultimately show ?thesis
    by (subst split_stream.simps) simp
qed

end
