(* ===== verification/Serialization.thy ===== *)
theory Serialization
  imports Wire
begin

text \<open>
  The serialization adapters (\<open>cereal/serialization.h\<close>, \<open>boost/serialization.h\<close>) and the
  save and load functions of errors and results (\<open>cereal/types.h\<close>, \<open>boost/types.h\<close>). The
  two libraries are used through the same adapter interface, so one model serves both: the
  archive parameter is the only difference.
\<close>

section \<open>The archive library, a parameter\<close>

text \<open>
  A value handed to an output archive. \<open>'v\<close> is the type of all argument, result and event
  values, \<open>'ty\<close> the C++ types they are read back at, \<open>'i\<close> an input archive bound to its
  stream. The flag of \<open>ar_write\<close> and \<open>ar_open\<close> says whether a reused archive object does
  the work or one constructed for the message.
\<close>

datatype 'v item = IString string | IInt cint | IValue 'v

record ('i, 'ty, 'v) archive =
  ar_write :: "bool \<Rightarrow> 'v item list \<Rightarrow> byte list"
  ar_open :: "bool \<Rightarrow> byte list \<Rightarrow> 'i option"
  get_string :: "'i \<Rightarrow> (string \<times> 'i) option"
  get_int :: "'i \<Rightarrow> (cint \<times> 'i) option"
  get_value :: "'ty \<Rightarrow> 'i \<Rightarrow> ('v \<times> 'i) option"
  value_init :: "'ty \<Rightarrow> 'v"

text \<open>An input archive from which the given items can be read, one after the other.\<close>

fun reads :: "('i, 'ty, 'v) archive \<Rightarrow> ('v \<Rightarrow> 'ty) \<Rightarrow> 'i \<Rightarrow> 'v item list \<Rightarrow> bool" where
  "reads A tyof i [] = True"
| "reads A tyof i (IString s # xs) =
     (case get_string A i of None \<Rightarrow> False | Some (s', i') \<Rightarrow> s' = s \<and> reads A tyof i' xs)"
| "reads A tyof i (IInt n # xs) =
     (case get_int A i of None \<Rightarrow> False | Some (n', i') \<Rightarrow> n' = n \<and> reads A tyof i' xs)"
| "reads A tyof i (IValue v # xs) =
     (case get_value A (tyof v) i of None \<Rightarrow> False
      | Some (v', i') \<Rightarrow> v' = v \<and> reads A tyof i' xs)"

text \<open>
  The documented behaviour of an archive pair: what was written is read back by the same
  sequence of reads; \<open>tyof v\<close> is the type \<open>v\<close> is read at. An archive never writes an empty
  message for a non-empty list of items.
\<close>

definition archive_ok :: "('i, 'ty, 'v) archive \<Rightarrow> ('v \<Rightarrow> 'ty) \<Rightarrow> bool" where
  "archive_ok A tyof \<longleftrightarrow>
     (\<forall>reused xs. xs \<noteq> [] \<longrightarrow> ar_write A reused xs \<noteq> [] \<and>
        (\<exists>i. ar_open A reused (ar_write A reused xs) = Some i \<and> reads A tyof i xs))"

section \<open>Errors and results\<close>

text \<open>
  \<open>save\<close> and \<open>load\<close> of \<open>types.h\<close>. An error travels as code and message, its category stays
  behind; the value of a result follows only when the code is 0. \<open>None\<close> as the result type
  is \<open>void\<close>.
\<close>

definition save_error :: "cerror \<Rightarrow> 'v item list" where
  "save_error e = [IInt (myNetLibCode e), IString (myErrorMessage e)]"

definition load_error :: "('i, 'ty, 'v) archive \<Rightarrow> 'i \<Rightarrow> (cerror \<times> 'i) option" where
  "load_error A i =
     (case get_int A i of None \<Rightarrow> None
      | Some (errCode, i1) \<Rightarrow>
        (case get_string A i1 of None \<Rightarrow> None
         | Some (errMsg, i2) \<Rightarrow> Some (Error_of_message errCode errMsg, i2)))"

definition save_result :: "'v result \<Rightarrow> 'v item list" where
  "save_result r =
     save_error (myError r) @
     (if myNetLibCode (myError r) = 0
      then (case res_value r of None \<Rightarrow> [] | Some v \<Rightarrow> [IValue v]) else [])"

fun load_result ::
  "('i, 'ty, 'v) archive \<Rightarrow> 'ty option \<Rightarrow> 'i \<Rightarrow> ('v result \<times> 'i) option" where
  "load_result A None i =
     (case load_error A i of None \<Rightarrow> None
      | Some (e, i1) \<Rightarrow> Some (set_error e (Result_error None Error_none), i1))"
| "load_result A (Some ty) i =
     (case load_error A i of None \<Rightarrow> None
      | Some (e, i1) \<Rightarrow>
        let res = set_error e (Result_error (Some (value_init A ty)) Error_none) in
        if myNetLibCode e = 0 then
          (case get_value A ty i1 of None \<Rightarrow> None
           | Some (v, i2) \<Rightarrow> Some (set_value v res, i2))
        else Some (res, i1))"

section \<open>Messages\<close>

text \<open>
  \<open>serialize_items\<close> is the shared body of the three writers: header space first, then the
  items through the reused archive or one made on the spot.
\<close>

definition serialize_items :: "('i, 'ty, 'v) archive \<Rightarrow> bool \<Rightarrow> 'v item list \<Rightarrow> byte list" where
  "serialize_items A ar xs = reserve_message_header @ ar_write A ar xs"

definition serialize_args :: "'v list \<Rightarrow> 'v item list" where
  "serialize_args args = map IValue args"

definition serialize_call ::
  "('i, 'ty, 'v) archive \<Rightarrow> bool \<Rightarrow> string \<Rightarrow> 'v list \<Rightarrow> byte list" where
  "serialize_call A ar functionName args =
     serialize_items A ar (IString functionName # serialize_args args)"

definition serialize_call_result ::
  "('i, 'ty, 'v) archive \<Rightarrow> bool \<Rightarrow> string \<Rightarrow> 'v result \<Rightarrow> byte list" where
  "serialize_call_result A ar functionName res =
     serialize_items A ar (IString functionName # save_result res)"

definition serialize_event ::
  "('i, 'ty, 'v) archive \<Rightarrow> bool \<Rightarrow> string \<Rightarrow> 'v \<Rightarrow> byte list" where
  "serialize_event A ar funcName ev = serialize_items A ar [IString funcName, IValue ev]"

text \<open>
  \<open>deserialize_call\<close> reads the function name and hands the archive to its handler; the model
  returns both, and the caller goes on.
\<close>

definition deserialize_call ::
  "('i, 'ty, 'v) archive \<Rightarrow> bool \<Rightarrow> byte list \<Rightarrow> (string \<times> 'i) option" where
  "deserialize_call A ar msg =
     (case ar_open A ar msg of None \<Rightarrow> None | Some i \<Rightarrow> get_string A i)"

definition deserialize_arg :: "('i, 'ty, 'v) archive \<Rightarrow> 'ty \<Rightarrow> 'i \<Rightarrow> ('v \<times> 'i) option" where
  "deserialize_arg A ty i = get_value A ty i"

definition deserialize_result ::
  "('i, 'ty, 'v) archive \<Rightarrow> 'ty option \<Rightarrow> 'i \<Rightarrow> ('v result) option" where
  "deserialize_result A ty i = map_option fst (load_result A ty i)"

definition deserialize_event :: "('i, 'ty, 'v) archive \<Rightarrow> 'ty \<Rightarrow> 'i \<Rightarrow> 'v option" where
  "deserialize_event A ty i = map_option fst (get_value A ty i)"

lemmas serialize_defs =
  serialize_items_def serialize_call_def serialize_call_result_def serialize_event_def
  serialize_args_def

section \<open>Round trips\<close>

lemma archive_okE:
  assumes "archive_ok A tyof" and "xs \<noteq> []"
  obtains i where "ar_open A reused (ar_write A reused xs) = Some i" and "reads A tyof i xs"
  using assms by (auto simp: archive_ok_def)

lemma archive_ok_nonempty: "archive_ok A tyof \<Longrightarrow> xs \<noteq> [] \<Longrightarrow> ar_write A reused xs \<noteq> []"
  by (auto simp: archive_ok_def)

lemma reads_IString:
  "reads A tyof i (IString s # xs) \<longleftrightarrow> (\<exists>i'. get_string A i = Some (s, i') \<and> reads A tyof i' xs)"
  by (auto split: option.splits)

lemma reads_IInt:
  "reads A tyof i (IInt n # xs) \<longleftrightarrow> (\<exists>i'. get_int A i = Some (n, i') \<and> reads A tyof i' xs)"
  by (auto split: option.splits)

lemma reads_IValue:
  "reads A tyof i (IValue v # xs) \<longleftrightarrow>
   (\<exists>i'. get_value A (tyof v) i = Some (v, i') \<and> reads A tyof i' xs)"
  by (auto split: option.splits)

lemmas reads_iff [simp] = reads_IString reads_IInt reads_IValue

declare reads.simps(2-4) [simp del]

lemma load_error_reads:
  assumes "reads A tyof i (save_error e @ xs)"
  shows "\<exists>i'. load_error A i = Some (Error_of_message (myNetLibCode e) (myErrorMessage e), i') \<and>
              reads A tyof i' xs"
  using assms
  by (auto simp: save_error_def load_error_def)

text \<open>
  What arrives of a result read at type \<open>ty\<close>: the error without its category, and the value
  if there is no error, else the value-initialised one.
\<close>

definition received_result ::
  "('i, 'ty, 'v) archive \<Rightarrow> 'ty option \<Rightarrow> 'v result \<Rightarrow> 'v result" where
  "received_result A ty r =
     \<lparr>res_value = (if myNetLibCode (myError r) = 0 then res_value r
                   else map_option (value_init A) ty),
      myError = Error_of_message (myNetLibCode (myError r)) (myErrorMessage (myError r))\<rparr>"

text \<open>A value result is read at the type of its value, an error result at any type.\<close>

definition result_has_type :: "('v \<Rightarrow> 'ty) \<Rightarrow> 'ty option \<Rightarrow> 'v result \<Rightarrow> bool" where
  "result_has_type tyof ty r \<longleftrightarrow>
     myNetLibCode (myError r) \<noteq> 0 \<or> map_option tyof (res_value r) = ty"

lemma load_result_reads:
  assumes "reads A tyof i (save_result r)" and "result_has_type tyof ty r"
  shows "deserialize_result A ty i = Some (received_result A ty r)"
proof -
  let ?e = "Error_of_message (myNetLibCode (myError r)) (myErrorMessage (myError r))"
  let ?tail = "if myNetLibCode (myError r) = 0
      then (case res_value r of None \<Rightarrow> [] | Some v \<Rightarrow> [IValue v]) else []"
  obtain i1 where e: "load_error A i = Some (?e, i1)" and i1: "reads A tyof i1 ?tail"
    using assms(1) load_error_reads unfolding save_result_def by fast
  have code: "myNetLibCode ?e = myNetLibCode (myError r)"
    by (simp add: Error_of_message_def)
  show ?thesis
  proof (cases ty)
    case None
    with e assms(2) show ?thesis
      by (auto simp: deserialize_result_def received_result_def result_defs result_has_type_def)
  next
    case (Some t)
    show ?thesis
    proof (cases "myNetLibCode (myError r) = 0")
      case True
      with assms(2) Some obtain v where v: "res_value r = Some v" and t: "tyof v = t"
        by (auto simp: result_has_type_def)
      with True i1 obtain i2 where "get_value A t i1 = Some (v, i2)"
        by auto
      with Some True e code v show ?thesis
        by (simp add: deserialize_result_def received_result_def result_defs)
    next
      case False
      with Some e code show ?thesis
        by (simp add: deserialize_result_def received_result_def result_defs)
    qed
  qed
qed

lemma deserialize_call_items:
  assumes "archive_ok A tyof"
  shows "\<exists>i. deserialize_call A ar (strip_header (serialize_items A ar (IString fn # xs)))
             = Some (fn, i) \<and> reads A tyof i xs"
proof -
  obtain i where "ar_open A ar (ar_write A ar (IString fn # xs)) = Some i"
    and "reads A tyof i (IString fn # xs)"
    using archive_okE [OF assms, of "IString fn # xs" ar] by blast
  then show ?thesis
    by (auto simp: deserialize_call_def serialize_items_def)
qed

end
