(* ===== verification/Stream_Transport.thy ===== *)
theory Stream_Transport
  imports Wire
begin

text \<open>
  The transport interface (\<open>transport.h\<close>) and its stream implementation
  (\<open>asio/basicstreamtransport.h\<close>, \<open>asio/tcptransport.h\<close>). A transport lives inside the
  state \<open>'s\<close> of its owner (a client, or a service with its peers): \<open>tlens\<close> gives access to
  it. The virtual functions of \<open>Transport::Listener\<close> are functions on \<open>'s\<close>, passed where a
  transport operation calls them. The socket is third-party code: an abstract state \<open>'k\<close> and
  the record \<open>asio\<close> of the operations the code calls on it.
\<close>

section \<open>The socket library, a parameter\<close>

text \<open>
  Operations called with an error code argument return one; those called without
  (\<open>close\<close>, \<open>set_option\<close>, \<open>resolve\<close> of the synchronous open) throw when it is set.
\<close>

type_synonym endpoints = "nat list"

record 'k asio =
  io_write :: "byte list \<Rightarrow> 'k \<Rightarrow> error_code \<times> 'k"
  io_async_read :: "nat \<Rightarrow> 'k \<Rightarrow> 'k"
  io_shutdown :: "'k \<Rightarrow> error_code \<times> 'k"
  io_close :: "'k \<Rightarrow> error_code \<times> 'k"
  io_set_no_delay :: "'k \<Rightarrow> error_code \<times> 'k"
  io_resolve :: "string \<Rightarrow> string \<Rightarrow> 'k \<Rightarrow> (error_code + endpoints) \<times> 'k"
  io_connect :: "endpoints \<Rightarrow> 'k \<Rightarrow> error_code \<times> 'k"
  io_async_resolve :: "string \<Rightarrow> string \<Rightarrow> 'k \<Rightarrow> 'k"
  io_async_connect :: "endpoints \<Rightarrow> 'k \<Rightarrow> 'k"

section \<open>State\<close>

datatype tstate = NEW | OPEN | CLOSED

record 'k transport =
  myState :: tstate
  mySocket :: 'k
  myBuffer :: "byte list"
  myListener :: bool

definition new_transport :: "'k \<Rightarrow> 'k transport" where
  "new_transport k = \<lparr>myState = NEW, mySocket = k, myBuffer = [], myListener = False\<rparr>"

record ('k, 's) tlens =
  tr_of :: "'s \<Rightarrow> 'k transport"
  tr_upd :: "('k transport \<Rightarrow> 'k transport) \<Rightarrow> 's \<Rightarrow> 's"

text \<open>The listener of a transport: the four notifications of \<open>Transport::Listener\<close>.\<close>

record 's listener =
  on_connection_error :: "cerror \<Rightarrow> 's \<Rightarrow> (unit, 's) res"
  on_connected :: "'s \<Rightarrow> (unit, 's) res"
  on_disconnected :: "'s \<Rightarrow> (unit, 's) res"
  on_incoming_data :: "nat \<Rightarrow> 's \<Rightarrow> (nat, 's) res"

definition set_listener :: "'k transport \<Rightarrow> 'k transport" where
  "set_listener t = t\<lparr>myListener := True\<rparr>"

definition clear_listener :: "'k transport \<Rightarrow> 'k transport" where
  "clear_listener t = t\<lparr>myListener := False\<rparr>"

section \<open>Operations\<close>

definition tr_is_open :: "'k transport \<Rightarrow> bool" where
  "tr_is_open t \<longleftrightarrow> myState t = OPEN"

text \<open>\<open>std::string::resize\<close> cuts the string or pads it with zeros.\<close>

definition resize :: "nat \<Rightarrow> byte list \<Rightarrow> byte list" where
  "resize n bs = take n bs @ replicate (n - length bs) 0"

definition tr_read :: "'k asio \<Rightarrow> nat \<Rightarrow> 'k transport \<Rightarrow> 'k transport" where
  "tr_read io len t =
     t\<lparr>myBuffer := resize len (myBuffer t), mySocket := io_async_read io len (mySocket t)\<rparr>"

definition get_read_data :: "'k transport \<Rightarrow> byte list" where
  "get_read_data t = myBuffer t"

text \<open>
  \<open>close\<close> acts in state \<open>OPEN\<close> only. It enters \<open>CLOSED\<close>, shuts the socket down (an error
  is logged), closes it (an error throws) and tells the listener, if there is one.
\<close>

definition tr_close ::
  "'k asio \<Rightarrow> ('k, 's) tlens \<Rightarrow> ('s \<Rightarrow> (unit, 's) res) \<Rightarrow> 's \<Rightarrow> (unit, 's) res" where
  "tr_close io L on_disc s =
     (if myState (tr_of L s) = OPEN then
        let (ec, k1) = io_shutdown io (mySocket (tr_of L s));
            (ec', k2) = io_close io k1;
            s1 = tr_upd L (\<lambda>t. t\<lparr>myState := CLOSED, mySocket := k2\<rparr>) s
        in if \<not> ec_ok ec' then Exn (SystemError (ec_value ec')) s1
           else if myListener (tr_of L s1) then on_disc s1
           else Ret () s1
      else Ret () s)"

text \<open>\<open>write\<close> returns its error as a value; an error of the socket closes the transport.\<close>

definition tr_write ::
  "'k asio \<Rightarrow> ('k, 's) tlens \<Rightarrow> ('s \<Rightarrow> (unit, 's) res) \<Rightarrow> byte list \<Rightarrow> 's \<Rightarrow> (cerror, 's) res"
  where
  "tr_write io L on_disc msg s =
     (if tr_is_open (tr_of L s) then
        let (ec, k1) = io_write io msg (mySocket (tr_of L s));
            s1 = tr_upd L (\<lambda>t. t\<lparr>mySocket := k1\<rparr>) s
        in if \<not> ec_ok ec
           then bind_res (tr_close io L on_disc s1) (\<lambda>_ s2. Ret (Error_of_code ec) s2)
           else Ret Error_none s1
      else Ret (Error_of_message ENOTCONN ''socket not connected'') s)"

text \<open>
  \<open>BasicStreamTransport::open\<close> with the socket options of \<open>TcpTransport\<close>: called once the
  socket is connected or accepted. The assertions are those of the source.
\<close>

definition tr_open ::
  "'k asio \<Rightarrow> ('k, 's) tlens \<Rightarrow> ('s \<Rightarrow> (unit, 's) res) \<Rightarrow> 's \<Rightarrow> (bool, 's) res" where
  "tr_open io L on_conn s =
     bind_res (o_assert (myListener (tr_of L s)) ''myListener != nullptr'' s) (\<lambda>_ s1.
     bind_res (o_assert (myState (tr_of L s1) = NEW) ''myState == State::NEW'' s1) (\<lambda>_ s2.
       let (ec, k) = io_set_no_delay io (mySocket (tr_of L s2));
           s3 = tr_upd L (\<lambda>t. t\<lparr>myState := OPEN, mySocket := k\<rparr>) s2
       in if \<not> ec_ok ec then Exn (SystemError (ec_value ec)) s3
          else bind_res (on_conn s3) (\<lambda>_ s4. Ret True s4)))"

definition is_recoverable :: "cint \<Rightarrow> bool" where
  "is_recoverable c \<longleftrightarrow> c = EAGAIN \<or> c = EWOULDBLOCK \<or> c = EINTR"

text \<open>
  The completion of an asynchronous read. An error is reported to the listener, except for
  the cancelled read of a transport that was closed here; unless it is recoverable the
  transport is closed after that.
\<close>

definition handle_recv ::
  "'k asio \<Rightarrow> ('k, 's) tlens \<Rightarrow> 's listener \<Rightarrow> error_code \<Rightarrow> nat \<Rightarrow> 's \<Rightarrow> (unit, 's) res"
  where
  "handle_recv io L lst ec bytesTransferred s =
     (if \<not> ec_ok ec then
        bind_res
          (if \<not> (operation_aborted ec \<and> myState (tr_of L s) = CLOSED) \<and> myListener (tr_of L s)
           then on_connection_error lst (Error_of_code ec) s else Ret () s)
          (\<lambda>_ s1. if \<not> is_recoverable (ec_value ec)
                  then tr_close io L (on_disconnected lst) s1 else Ret () s1)
      else bind_res (o_assert (myListener (tr_of L s)) ''myListener != nullptr'' s) (\<lambda>_ s1.
           bind_res (on_incoming_data lst bytesTransferred s1) (\<lambda>_ s2. Ret () s2)))"

definition transport_destructor ::
  "'k asio \<Rightarrow> ('k, 's) tlens \<Rightarrow> ('s \<Rightarrow> (unit, 's) res) \<Rightarrow> 's \<Rightarrow> (unit, 's) res" where
  "transport_destructor io L on_disc s =
     (if myState (tr_of L s) \<noteq> CLOSED then tr_close io L on_disc s else Ret () s)"

text \<open>
  The completion as the socket library performs it: the bytes of the outstanding read have
  been stored in the buffer, whose length is the number of bytes that was asked for.
\<close>

definition recv_completed ::
  "'k asio \<Rightarrow> ('k, 's) tlens \<Rightarrow> 's listener \<Rightarrow> byte list \<Rightarrow> 's \<Rightarrow> (unit, 's) res" where
  "recv_completed io L lst data s =
     handle_recv io L lst \<lparr>ec_value = 0, ec_category = ''system'', ec_message = ''''\<rparr>
       (length data) (tr_upd L (\<lambda>t. t\<lparr>myBuffer := data\<rparr>) s)"

text \<open>
  The socket library at work on bytes that have arrived: as long as there are as many as the
  outstanding read asks for, it completes the read with them. What is left is returned. A
  second stretch of bytes may arrive later, so \<open>feed\<close> takes the bytes in pieces.
\<close>

function pump ::
  "'k asio \<Rightarrow> ('k, 's) tlens \<Rightarrow> 's listener \<Rightarrow> byte list \<Rightarrow> 's \<Rightarrow> (byte list, 's) res" where
  "pump io L lst bs s =
     (let n = length (myBuffer (tr_of L s)) in
      if n = 0 \<or> length bs < n then Ret bs s
      else bind_res (recv_completed io L lst (take n bs) s) (\<lambda>_ s1. pump io L lst (drop n bs) s1))"
  by pat_completeness auto
termination
  by (relation "measure (\<lambda>(io, L, lst, bs, s). length bs)") (auto simp: neq_Nil_conv)

declare pump.simps [simp del]

fun feed ::
  "'k asio \<Rightarrow> ('k, 's) tlens \<Rightarrow> 's listener \<Rightarrow> byte list list \<Rightarrow> byte list \<Rightarrow> 's \<Rightarrow>
   (byte list, 's) res" where
  "feed io L lst [] rest s = Ret rest s"
| "feed io L lst (c # cs) rest s =
     bind_res (pump io L lst (rest @ c) s) (\<lambda>rest' s1. feed io L lst cs rest' s1)"

lemma pump_append:
  "pump io L lst (xs @ ys) s = bind_res (pump io L lst xs s) (\<lambda>r s1. pump io L lst (r @ ys) s1)"
proof (induction io L lst xs s rule: pump.induct)
  case (1 io L lst xs s)
  let ?n = "length (myBuffer (tr_of L s))"
  show ?case
  proof (cases "?n = 0 \<or> length xs < ?n")
    case True
    then have "pump io L lst xs s = Ret xs s"
      by (subst pump.simps) (simp add: Let_def)
    then show ?thesis by simp
  next
    case False
    have "pump io L lst xs s =
        bind_res (recv_completed io L lst (take ?n xs) s) (\<lambda>_. pump io L lst (drop ?n xs))"
      using False by (subst pump.simps) (auto simp: Let_def)
    moreover have "pump io L lst (xs @ ys) s =
        bind_res (recv_completed io L lst (take ?n xs) s) (\<lambda>_. pump io L lst (drop ?n xs @ ys))"
      using False by (subst pump.simps) (auto simp: Let_def)
    ultimately show ?thesis
      using "1.IH" [OF refl False] by (auto simp: bind_res_assoc intro: bind_res_cong)
  qed
qed

lemma pump_rest: "pump io L lst xs s = Ret r s1 \<Longrightarrow> pump io L lst r s1 = Ret r s1"
  using pump_append [of io L lst xs "[]" s] by simp

lemma feed_pump:
  "pump io L lst rest s = Ret rest s \<Longrightarrow>
   feed io L lst cs rest s = pump io L lst (rest @ concat cs) s"
proof (induction cs arbitrary: rest s)
  case (Cons c cs)
  have "feed io L lst cs r s1 = pump io L lst (r @ concat cs) s1"
    if "pump io L lst (rest @ c) s = Ret r s1" for r s1
    by (rule Cons.IH [OF pump_rest [OF that]])
  then show ?case
    using pump_append [of io L lst "rest @ c" "concat cs" s]
    by (cases "pump io L lst (rest @ c) s") simp_all
qed simp

section \<open>Access laws and the order of states\<close>

definition tlens_ok :: "('k, 's) tlens \<Rightarrow> bool" where
  "tlens_ok L \<longleftrightarrow> (\<forall>f s. tr_of L (tr_upd L f s) = f (tr_of L s))"

lemma tr_of_upd: "tlens_ok L \<Longrightarrow> tr_of L (tr_upd L f s) = f (tr_of L s)"
  by (simp add: tlens_ok_def)

lemma length_resize [simp]: "length (resize n bs) = n"
  by (simp add: resize_def)

lemma tr_read_state [simp]: "myState (tr_read io len t) = myState t"
  and tr_read_listener [simp]: "myListener (tr_read io len t) = myListener t"
  and length_tr_read [simp]: "length (myBuffer (tr_read io len t)) = len"
  by (simp_all add: tr_read_def)

primrec tstate_rank :: "tstate \<Rightarrow> nat" where
  "tstate_rank NEW = 0"
| "tstate_rank OPEN = 1"
| "tstate_rank CLOSED = 2"

instantiation tstate :: linorder
begin

definition less_eq_tstate :: "tstate \<Rightarrow> tstate \<Rightarrow> bool" where
  "less_eq_tstate a b \<longleftrightarrow> tstate_rank a \<le> tstate_rank b"

definition less_tstate :: "tstate \<Rightarrow> tstate \<Rightarrow> bool" where
  "less_tstate a b \<longleftrightarrow> tstate_rank a < tstate_rank b"

instance
proof
  fix a b :: tstate
  show "a \<le> b \<Longrightarrow> b \<le> a \<Longrightarrow> a = b"
    by (cases a; cases b) (auto simp: less_eq_tstate_def)
qed (auto simp: less_eq_tstate_def less_tstate_def)

end

lemma tstate_le_iff [simp]:
  "x \<le> CLOSED" "NEW \<le> x" "OPEN \<le> x \<longleftrightarrow> x \<noteq> NEW" "CLOSED \<le> x \<longleftrightarrow> x = CLOSED"
  by (cases x; simp add: less_eq_tstate_def)+

section \<open>The owner of a transport\<close>

text \<open>
  The contract between a transport and its owner: a predicate on the owner's state that does
  not depend on the transport and that every notification keeps is kept by every transport
  operation.
\<close>

locale transport_owner =
  fixes L :: "('k, 's) tlens" and lst :: "'s listener" and P :: "'s \<Rightarrow> bool"
  assumes upd_keeps: "P s \<Longrightarrow> P (tr_upd L f s)"
    and error_keeps: "P s \<Longrightarrow> Error_bool e \<Longrightarrow> always P (on_connection_error lst e s)"
    and connected_keeps: "P s \<Longrightarrow> always P (on_connected lst s)"
    and disconnected_keeps: "P s \<Longrightarrow> always P (on_disconnected lst s)"
    and incoming_keeps: "P s \<Longrightarrow> always P (on_incoming_data lst n s)"
begin

lemma close_keeps: "P s \<Longrightarrow> always P (tr_close io L (on_disconnected lst) s)"
  by (auto simp: tr_close_def case_prod_beta Let_def intro: upd_keeps disconnected_keeps)

lemma write_keeps: "P s \<Longrightarrow> always P (tr_write io L (on_disconnected lst) msg s)"
  by (auto simp: tr_write_def case_prod_beta Let_def intro!: always_bind close_keeps upd_keeps)

lemma open_keeps: "P s \<Longrightarrow> always P (tr_open io L (on_connected lst) s)"
  by (auto simp: tr_open_def case_prod_beta Let_def
      intro!: always_bind always_o_assert connected_keeps upd_keeps)

lemma handle_recv_keeps: "P s \<Longrightarrow> always P (handle_recv io L lst ec n s)"
  by (auto simp: handle_recv_def
      intro!: always_bind always_o_assert error_keeps close_keeps incoming_keeps)

lemma recv_completed_keeps: "P s \<Longrightarrow> always P (recv_completed io L lst data s)"
  by (simp add: recv_completed_def handle_recv_keeps upd_keeps)

lemma destructor_keeps: "P s \<Longrightarrow> always P (transport_destructor io L (on_disconnected lst) s)"
  by (simp add: transport_destructor_def close_keeps)

end

end
