(* ===== verification/Client_Transport.thy ===== *)
theory Client_Transport
  imports Stream_Transport
begin

text \<open>
  The client side of a TCP connection (\<open>asio/clienttcptransport.h\<close>): the synchronous open,
  and the asynchronous one as three steps, the call and the two completions the socket
  library makes. \<open>complete\<close> is the closure of the asynchronous open.
\<close>

definition already_connected :: cerror where
  "already_connected =
     Error_of_code \<lparr>ec_value = EISCONN, ec_category = ''generic'',
                    ec_message = ''Transport endpoint is already connected''\<rparr>"

text \<open>
  A failed name resolution throws; a failed connect is reported to the listener, whose
  pointer is not checked. In any state but \<open>NEW\<close> nothing happens and the result is false.
\<close>

definition client_open ::
  "'k asio \<Rightarrow> ('k, 's) tlens \<Rightarrow> 's listener \<Rightarrow> string \<Rightarrow> string \<Rightarrow> 's \<Rightarrow> (bool, 's) res" where
  "client_open io L lst host svc s =
     (if myState (tr_of L s) = NEW then
        let (r, k1) = io_resolve io host svc (mySocket (tr_of L s));
            s1 = tr_upd L (\<lambda>t. t\<lparr>mySocket := k1\<rparr>) s
        in case r of
             Inl ec \<Rightarrow> Exn (SystemError (ec_value ec)) s1
           | Inr eps \<Rightarrow>
               (let (ec, k2) = io_connect io eps k1;
                    s2 = tr_upd L (\<lambda>t. t\<lparr>mySocket := k2\<rparr>) s1
                in if \<not> ec_ok ec then
                     (if myListener (tr_of L s2)
                      then bind_res (on_connection_error lst (Error_of_code ec) s2)
                             (\<lambda>_ s3. Ret False s3)
                      else Exn (Undefined ''null listener'') s2)
                   else tr_open io L (on_connected lst) s2)
      else Ret False s)"

definition client_open_async ::
  "'k asio \<Rightarrow> ('k, 's) tlens \<Rightarrow> (bool result \<Rightarrow> 's \<Rightarrow> (unit, 's) res) \<Rightarrow> string \<Rightarrow> string \<Rightarrow>
   's \<Rightarrow> (unit, 's) res" where
  "client_open_async io L complete host svc s =
     bind_res (o_assert (myListener (tr_of L s)) ''myListener != nullptr'' s) (\<lambda>_ s1.
       if myState (tr_of L s1) = NEW
       then Ret () (tr_upd L (\<lambda>t. t\<lparr>mySocket := io_async_resolve io host svc (mySocket t)\<rparr>) s1)
       else complete (Result_value False already_connected) s1)"

text \<open>What both completions do with an error: listener first, then the closure.\<close>

definition open_failed ::
  "('k, 's) tlens \<Rightarrow> 's listener \<Rightarrow> (bool result \<Rightarrow> 's \<Rightarrow> (unit, 's) res) \<Rightarrow> error_code \<Rightarrow>
   's \<Rightarrow> (unit, 's) res" where
  "open_failed L lst complete ec s =
     (if myListener (tr_of L s)
      then bind_res (on_connection_error lst (Error_of_code ec) s)
             (\<lambda>_ s1. complete (Result_value False (Error_of_code ec)) s1)
      else Exn (Undefined ''null listener'') s)"

definition handle_resolve ::
  "'k asio \<Rightarrow> ('k, 's) tlens \<Rightarrow> 's listener \<Rightarrow> (bool result \<Rightarrow> 's \<Rightarrow> (unit, 's) res) \<Rightarrow>
   error_code \<Rightarrow> endpoints \<Rightarrow> 's \<Rightarrow> (unit, 's) res" where
  "handle_resolve io L lst complete ec eps s =
     (if \<not> ec_ok ec then open_failed L lst complete ec s
      else Ret () (tr_upd L (\<lambda>t. t\<lparr>mySocket := io_async_connect io eps (mySocket t)\<rparr>) s))"

definition handle_connect ::
  "'k asio \<Rightarrow> ('k, 's) tlens \<Rightarrow> 's listener \<Rightarrow> (bool result \<Rightarrow> 's \<Rightarrow> (unit, 's) res) \<Rightarrow>
   error_code \<Rightarrow> 's \<Rightarrow> (unit, 's) res" where
  "handle_connect io L lst complete ec s =
     (if \<not> ec_ok ec then open_failed L lst complete ec s
      else bind_res (tr_open io L (on_connected lst) s)
             (\<lambda>b s1. complete (Result_value b Error_none) s1))"

context transport_owner
begin

lemma client_open_keeps: "P s \<Longrightarrow> always P (client_open io L lst host svc s)"
  by (auto simp: client_open_def case_prod_beta Let_def split: sum.split
      intro!: always_bind error_keeps open_keeps upd_keeps)

lemma open_failed_keeps:
  assumes "\<And>r s. P s \<Longrightarrow> always P (complete r s)" and "P s" and "\<not> ec_ok ec"
  shows "always P (open_failed L lst complete ec s)"
  using assms by (auto simp: open_failed_def intro!: always_bind error_keeps)

lemma open_async_keeps:
  assumes "\<And>r s. P s \<Longrightarrow> always P (complete r s)" and "P s"
  shows "always P (client_open_async io L complete host svc s)"
  using assms by (auto simp: client_open_async_def intro!: always_bind always_o_assert upd_keeps)

lemma handle_resolve_keeps:
  assumes "\<And>r s. P s \<Longrightarrow> always P (complete r s)" and "P s"
  shows "always P (handle_resolve io L lst complete ec eps s)"
  using assms by (auto simp: handle_resolve_def intro!: open_failed_keeps upd_keeps)

lemma handle_connect_keeps:
  assumes "\<And>r s. P s \<Longrightarrow> always P (complete r s)" and "P s"
  shows "always P (handle_connect io L lst complete ec s)"
  using assms by (auto simp: handle_connect_def intro!: always_bind open_failed_keeps open_keeps)

end

end
