(* ===== verification/Messenger.thy ===== *)
theory Messenger
  imports Stream_Transport
begin

text \<open>
  The message reader (\<open>Messenger\<close> of \<open>details/messenger.h\<close>). A messenger belongs to a client
  or to one client entry of a service; only its own loop changes it, so the loop carries it
  beside the owner's state. The transport operations it calls and the message handler are
  functions on the owner's state; \<open>alive\<close> says that the messenger object still exists, which
  a handler can end by closing the connection of a service's peer.
\<close>

datatype recv_state = HEADER | MESSAGE

record messenger =
  myReceiveState :: recv_state
  myIncomingMsgSize :: u32

definition new_messenger :: messenger where
  "new_messenger = \<lparr>myReceiveState = HEADER, myIncomingMsgSize = 0\<rparr>"

text \<open>Copying a messenger takes the handler over and starts at a header.\<close>

definition copy_messenger :: "messenger \<Rightarrow> messenger" where
  "copy_messenger other = new_messenger"

definition assign_messenger :: "messenger \<Rightarrow> messenger \<Rightarrow> messenger" where
  "assign_messenger this other = this\<lparr>myReceiveState := HEADER\<rparr>"

text \<open>The owner's functions the reader calls.\<close>

record 's reader =
  rd_read :: "nat \<Rightarrow> 's \<Rightarrow> 's"
  rd_data :: "'s \<Rightarrow> byte list"
  rd_handler :: "byte list \<Rightarrow> 's \<Rightarrow> (unit, 's) res"
  rd_alive :: "'s \<Rightarrow> bool"

definition init_transport :: "'s reader \<Rightarrow> messenger \<Rightarrow> 's \<Rightarrow> (unit, 's) res" where
  "init_transport R m s =
     bind_res (o_assert (myReceiveState m = HEADER) ''myReceiveState == HEADER'' s)
       (\<lambda>_ s1. Ret () (rd_read R HEADER_SIZE s1))"

text \<open>
  The loop of \<open>read\<close>. Its state is the owner's state paired with the messenger; the
  arguments are the bytes still in the buffer and the bytes read so far. Both branches leave
  the loop when the buffer holds too little.
\<close>

function messenger_read ::
  "endian \<Rightarrow> 's reader \<Rightarrow> nat \<Rightarrow> nat \<Rightarrow> 's \<times> messenger \<Rightarrow> (nat, 's \<times> messenger) res" where
  "messenger_read en R dataLen bytesRead (s, m) =
     (case myReceiveState m of
        HEADER \<Rightarrow>
          if HEADER_SIZE \<le> dataLen then
            let readData = rd_data R s in
            if length readData < HEADER_SIZE
            then Exn (AssertFailed ''readData.length() >= HEADER_SIZE'') (s, m)
            else let m1 = m\<lparr>myIncomingMsgSize := load_u32 en (take HEADER_SIZE readData)\<rparr>
              in if myIncomingMsgSize m1 = 0
                 then Exn (RuntimeError ''invalid message length received'') (s, m1)
                 else messenger_read en R (dataLen - HEADER_SIZE) (bytesRead + HEADER_SIZE)
                        (rd_read R (unat (myIncomingMsgSize m1)) s, m1\<lparr>myReceiveState := MESSAGE\<rparr>)
          else Ret bytesRead (s, m)
      | MESSAGE \<Rightarrow>
          if unat (myIncomingMsgSize m) \<le> dataLen then
            let msgData = rd_data R s in
            if length msgData < unat (myIncomingMsgSize m)
            then Exn (AssertFailed ''msgData.length() >= myIncomingMsgSize'') (s, m)
            else (case rd_handler R msgData s of
                Exn e s1 \<Rightarrow> Exn e (s1, m)
              | Ret _ s1 \<Rightarrow>
                  if \<not> rd_alive R s1 then Exn (Undefined ''messenger used after its destruction'') (s1, m)
                  else messenger_read en R (dataLen - unat (myIncomingMsgSize m))
                         (bytesRead + unat (myIncomingMsgSize m))
                         (rd_read R HEADER_SIZE s1, m\<lparr>myReceiveState := HEADER\<rparr>))
          else Ret bytesRead (s, m))"
  by pat_completeness auto
termination
  by (relation "measure (\<lambda>(en, R, n, b, s, m). 2 * n + (if myReceiveState m = MESSAGE then 1 else 0))")
     (auto simp: HEADER_SIZE_def)

declare messenger_read.simps [simp del]

text \<open>
  A reader whose buffer is filled to the requested length, which is how the stream transport
  works, makes one turn of the loop for every completed read.
\<close>

lemma messenger_read_stop:
  assumes "case myReceiveState m of HEADER \<Rightarrow> n < HEADER_SIZE
           | MESSAGE \<Rightarrow> n < unat (myIncomingMsgSize m)"
  shows "messenger_read en R n b (s, m) = Ret b (s, m)"
  using assms by (subst messenger_read.simps) (auto split: recv_state.splits)

lemma messenger_read_header:
  assumes "myReceiveState m = HEADER" and "length (rd_data R s) = HEADER_SIZE"
    and "load_u32 en (rd_data R s) \<noteq> 0"
  shows "messenger_read en R HEADER_SIZE b (s, m) =
         Ret (b + HEADER_SIZE)
           (rd_read R (unat (load_u32 en (rd_data R s))) s,
            \<lparr>myReceiveState = MESSAGE, myIncomingMsgSize = load_u32 en (rd_data R s)\<rparr>)"
  using assms
  by (subst messenger_read.simps) (simp add: Let_def messenger_read_stop unat_gt_0)

lemma messenger_read_bad_header:
  assumes "myReceiveState m = HEADER" and "length (rd_data R s) = HEADER_SIZE"
    and "load_u32 en (rd_data R s) = 0"
  shows "messenger_read en R HEADER_SIZE b (s, m) =
         Exn (RuntimeError ''invalid message length received'') (s, m\<lparr>myIncomingMsgSize := 0\<rparr>)"
  using assms by (subst messenger_read.simps) (simp add: Let_def)

lemma messenger_read_message:
  assumes "myReceiveState m = MESSAGE" and "length (rd_data R s) = unat (myIncomingMsgSize m)"
  shows "messenger_read en R (unat (myIncomingMsgSize m)) b (s, m) =
         (case rd_handler R (rd_data R s) s of
            Exn e s1 \<Rightarrow> Exn e (s1, m)
          | Ret _ s1 \<Rightarrow>
              if \<not> rd_alive R s1 then Exn (Undefined ''messenger used after its destruction'') (s1, m)
              else Ret (b + unat (myIncomingMsgSize m))
                     (rd_read R HEADER_SIZE s1, m\<lparr>myReceiveState := HEADER\<rparr>))"
  using assms
  by (subst messenger_read.simps) (simp add: messenger_read_stop split: res.split)

text \<open>
  \<open>write_message_with_header\<close>: the header goes into the space reserved for it, then the whole
  message is written to the transport in one call.
\<close>

definition write_message_with_header ::
  "endian \<Rightarrow> 'k asio \<Rightarrow> ('k, 's) tlens \<Rightarrow> ('s \<Rightarrow> (unit, 's) res) \<Rightarrow> byte list \<Rightarrow> 's \<Rightarrow>
   (cerror, 's) res" where
  "write_message_with_header en io L on_disc msg s =
     (case message_with_header en msg of
        Inl e \<Rightarrow> Exn e s
      | Inr m \<Rightarrow> tr_write io L on_disc m s)"

lemma messenger_read_always:
  "(\<And>s n. P s \<Longrightarrow> P (rd_read R n s)) \<Longrightarrow> (\<And>s msg. P s \<Longrightarrow> always P (rd_handler R msg s)) \<Longrightarrow>
   P (fst sm) \<Longrightarrow> always (\<lambda>sm. P (fst sm)) (messenger_read en R n b sm)"
proof (induction en R n b sm rule: messenger_read.induct)
  case (1 en R n b s m)
  then have kept: "P (rd_read R k s)" for k
    by simp
  show ?case
  proof (cases "myReceiveState m")
    case HEADER
    with "1.prems"(3) show ?thesis
      by (subst messenger_read.simps)
         (auto simp: Let_def intro!: "1.IH"(1) [OF HEADER _ refl _ refl, simplified] kept "1.prems"(1,2))
  next
    case MESSAGE
    show ?thesis
    proof (cases "rd_handler R (rd_data R s) s")
      case (Ret u s1)
      with "1.prems"(3) "1.prems"(2) [of s "rd_data R s"] have "P s1" by simp
      with "1.prems"(3) MESSAGE Ret show ?thesis
        by (subst messenger_read.simps)
           (auto simp: Let_def intro!: "1.IH"(2) [OF MESSAGE _ refl] "1.prems"(1,2))
    next
      case (Exn e s1)
      with "1.prems"(3) MESSAGE "1.prems"(2) [of s "rd_data R s"] show ?thesis
        by (subst messenger_read.simps) (simp add: Let_def)
    qed
  qed
qed

text \<open>
  The contract between the reader and its owner: what reading and the message handler keep,
  the loop keeps.
\<close>

locale reader_owner =
  fixes R :: "'s reader" and P :: "'s \<Rightarrow> bool"
  assumes read_keeps: "P s \<Longrightarrow> P (rd_read R n s)"
    and handler_keeps: "P s \<Longrightarrow> always P (rd_handler R msg s)"
begin

lemma messenger_read_keeps:
  "P (fst sm) \<Longrightarrow> always (\<lambda>sm. P (fst sm)) (messenger_read en R n b sm)"
  using read_keeps handler_keeps by (rule messenger_read_always)

lemma init_transport_keeps: "P s \<Longrightarrow> always P (init_transport R m s)"
  by (auto simp: init_transport_def intro!: always_bind always_o_assert read_keeps)

end

end
