(* ===== verification/Call_Queue.thy ===== *)
theory Call_Queue
  imports Prelude
begin

text \<open>
  The queue of calls that wait for an earlier call of the same function
  (\<open>details/callqueue.h\<close>): a map from function names to lists of actions. \<open>'a\<close> is an action,
  the limit is the template parameter \<open>CallQueueLimit\<close>.
\<close>

type_synonym 'a call_queue = "string \<rightharpoonup> 'a list"

definition empty_queue :: "'a call_queue" where
  "empty_queue = Map.empty"

definition can_enqueue :: "nat \<Rightarrow> string \<Rightarrow> 'a call_queue \<Rightarrow> bool" where
  "can_enqueue limit fn q =
     (if limit = 0 then False
      else case q fn of None \<Rightarrow> True | Some xs \<Rightarrow> length xs < limit)"

definition enqueue_call :: "string \<Rightarrow> 'a \<Rightarrow> 'a call_queue \<Rightarrow> 'a call_queue" where
  "enqueue_call fn a q =
     (let q1 = (case q fn of None \<Rightarrow> q(fn \<mapsto> []) | Some _ \<Rightarrow> q)
      in q1(fn \<mapsto> the (q1 fn) @ [a]))"

definition is_enqueued :: "nat \<Rightarrow> string \<Rightarrow> 'a call_queue \<Rightarrow> bool" where
  "is_enqueued limit fn q =
     (if limit = 0 then False
      else case q fn of None \<Rightarrow> False | Some xs \<Rightarrow> length xs > 0)"

definition pop_front :: "string \<Rightarrow> 'a call_queue \<Rightarrow> 'a call_queue" where
  "pop_front fn q = (case q fn of None \<Rightarrow> q | Some xs \<Rightarrow> q(fn \<mapsto> tl xs))"

text \<open>
  \<open>dequeue_call\<close> runs the first action, then removes the front of the list in the state the
  action left: an action that throws stays in the queue. \<open>get\<close> and \<open>upd\<close> reach the queue in
  the owner's state. The front of an empty list, and the removal from a list the action has
  emptied, are undefined.
\<close>

definition dequeue_call ::
  "('s \<Rightarrow> 'a call_queue) \<Rightarrow> (('a call_queue \<Rightarrow> 'a call_queue) \<Rightarrow> 's \<Rightarrow> 's) \<Rightarrow>
   (string \<Rightarrow> 'a \<Rightarrow> 's \<Rightarrow> (unit, 's) res) \<Rightarrow> string \<Rightarrow> 's \<Rightarrow> (unit, 's) res" where
  "dequeue_call get upd act fn s =
     bind_res (o_assert (get s fn \<noteq> None) ''myQueueMap.find(funcName) != end()'' s) (\<lambda>_ s1.
       case get s1 fn of
         Some (a # _) \<Rightarrow>
           bind_res (act fn a s1) (\<lambda>_ s2.
             if get s2 fn = None \<or> get s2 fn = Some [] then Exn (Undefined ''pop of an empty list'') s2
             else Ret () (upd (pop_front fn) s2))
       | _ \<Rightarrow> Exn (Undefined ''front of an empty list'') s1)"

text \<open>The abstract view: for each function name the list of waiting actions.\<close>

definition waiting :: "'a call_queue \<Rightarrow> string \<Rightarrow> 'a list" where
  "waiting q fn = (case q fn of None \<Rightarrow> [] | Some xs \<Rightarrow> xs)"

definition queue_ok :: "nat \<Rightarrow> 'a call_queue \<Rightarrow> bool" where
  "queue_ok limit q \<longleftrightarrow> (\<forall>fn. length (waiting q fn) \<le> limit)"

section \<open>The interface of a bounded family of queues\<close>

locale keyed_fifo =
  fixes items :: "'q \<Rightarrow> string \<Rightarrow> 'a list"
    and empty_q :: 'q
    and enq :: "string \<Rightarrow> 'a \<Rightarrow> 'q \<Rightarrow> 'q"
    and pop :: "string \<Rightarrow> 'q \<Rightarrow> 'q"
    and can_enq :: "string \<Rightarrow> 'q \<Rightarrow> bool"
    and has_item :: "string \<Rightarrow> 'q \<Rightarrow> bool"
    and limit :: nat
  assumes items_empty: "items empty_q fn = []"
    and items_enq: "items (enq fn a q) = (items q)(fn := items q fn @ [a])"
    and items_pop: "items (pop fn q) = (items q)(fn := tl (items q fn))"
    and can_enq_iff: "can_enq fn q \<longleftrightarrow> length (items q fn) < limit"
    and has_item_iff: "length (items q fn) \<le> limit \<Longrightarrow> has_item fn q \<longleftrightarrow> items q fn \<noteq> []"
begin

definition bounded :: "'q \<Rightarrow> bool" where
  "bounded q \<longleftrightarrow> (\<forall>fn. length (items q fn) \<le> limit)"

lemma bounded_empty: "bounded empty_q"
  by (simp add: bounded_def items_empty)

lemma bounded_enq: "bounded q \<Longrightarrow> can_enq fn q \<Longrightarrow> bounded (enq fn a q)"
  by (auto simp: bounded_def items_enq can_enq_iff)

lemma bounded_pop: "bounded q \<Longrightarrow> bounded (pop fn q)"
  by (auto simp: bounded_def items_pop intro: order_trans [OF diff_le_self])

lemma items_other: "g \<noteq> fn \<Longrightarrow> items (enq fn a q) g = items q g"
  "g \<noteq> fn \<Longrightarrow> items (pop fn q) g = items q g"
  by (simp_all add: items_enq items_pop)

lemma pop_enq:
  "items q fn \<noteq> [] \<Longrightarrow> items (pop fn (enq fn a q)) = items (enq fn a (pop fn q))"
  by (simp add: items_enq items_pop)

lemma zero_limit_no_item: "limit = 0 \<Longrightarrow> \<not> can_enq fn q"
  by (simp add: can_enq_iff)

text \<open>Whatever is enqueued comes out in that order, behind what was there before.\<close>

lemma items_enq_all:
  "items (fold (enq fn) xs q) = (items q)(fn := items q fn @ xs)"
  by (induction xs arbitrary: q) (simp_all add: items_enq)

lemma items_pop_all:
  "items ((pop fn ^^ n) q) fn = drop n (items q fn)"
  by (induction n arbitrary: q) (simp_all add: items_pop drop_Suc tl_drop)

end

lemma waiting_empty [simp]: "waiting Map.empty fn = []"
  by (simp add: waiting_def)

lemma waiting_enqueue: "waiting (enqueue_call fn a q) = (waiting q)(fn := waiting q fn @ [a])"
  by (auto simp: waiting_def enqueue_call_def Let_def fun_eq_iff split: option.splits)

lemma waiting_pop: "waiting (pop_front fn q) = (waiting q)(fn := tl (waiting q fn))"
  by (auto simp: waiting_def pop_front_def fun_eq_iff split: option.splits)

lemma can_enqueue_iff: "can_enqueue limit fn q \<longleftrightarrow> length (waiting q fn) < limit"
  by (auto simp: can_enqueue_def waiting_def split: option.splits)

lemma is_enqueued_iff:
  "length (waiting q fn) \<le> limit \<Longrightarrow> is_enqueued limit fn q \<longleftrightarrow> waiting q fn \<noteq> []"
  by (auto simp: is_enqueued_def waiting_def split: option.splits)

interpretation cq: keyed_fifo waiting empty_queue enqueue_call pop_front
    "can_enqueue limit" "is_enqueued limit" limit
  for limit
  by unfold_locales
     (simp_all add: waiting_enqueue waiting_pop can_enqueue_iff is_enqueued_iff
        empty_queue_def)

lemma queue_ok_bounded: "queue_ok limit q \<longleftrightarrow> cq.bounded limit q"
  by (simp add: queue_ok_def cq.bounded_def)

lemmas queue_simps = waiting_enqueue waiting_pop can_enqueue_iff

lemma waiting_Some: "waiting q fn = a # xs \<longleftrightarrow> q fn = Some (a # xs)"
  by (auto simp: waiting_def split: option.splits)

lemma dequeue_call_waiting:
  assumes "waiting (get s) fn = a # xs"
  shows "dequeue_call get upd act fn s =
         bind_res (act fn a s) (\<lambda>_ s2.
             if get s2 fn = None \<or> get s2 fn = Some [] then Exn (Undefined ''pop of an empty list'') s2
             else Ret () (upd (pop_front fn) s2))"
  using assms by (simp add: dequeue_call_def waiting_Some)

end
