(* ===== verification/Client.thy ===== *)
theory Client
  imports Serialization Client_Transport Messenger Call_Queue
begin

text \<open>
  The client of a service (\<open>client.h\<close>): the state of \<open>Client\<close> and one definition per member
  function. User code (result closures, open closures, event listeners) is the parameter
  \<open>U\<close>: it gets the callback and may change the client, which is how a closure that calls
  the client again is expressed. Every callback is recorded in \<open>callbacks\<close> before user code
  runs; this record and the running thread are the only fields the class does not have.
\<close>

section \<open>State\<close>

text \<open>
  A closure is an empty function or one of the user's, numbered; it carries the type its
  result is read at (\<open>None\<close> is \<open>void\<close>). An event argument \<open>None\<close> is a null \<open>unique_ptr\<close>.
\<close>

record 'ty closure =
  clo_fun :: "nat option"
  clo_type :: "'ty option"

datatype 'v callback =
    OnResult nat "'v result"
  | OnOpen nat "bool result"
  | OnEvent nat "'v option"

record ('k, 'ty, 'v) client =
  myTransport :: "'k transport"
  myArchives :: bool
  myMessenger :: messenger
  myCallQueue :: "(byte list \<times> 'ty closure) call_queue"
  myClosures :: "(string \<times> 'ty closure) list"
  myEventListeners :: "nat list"
  myThreadId :: nat
  runningThread :: nat
  callbacks :: "'v callback list"

text \<open>
  The template parameters and the libraries. The event type comes with whether it is
  polymorphic; \<open>None\<close> is an interface without events.
\<close>

record ('k, 'i, 'ty, 'v) client_cfg =
  cf_io :: "'k asio"
  cf_archive :: "('i, 'ty, 'v) archive"
  cf_reusable :: bool
  cf_endian :: endian
  cf_interface :: string
  cf_event :: "('ty \<times> bool) option"
  cf_max_calls :: nat
  cf_host :: string
  cf_service :: string

type_synonym ('k, 'ty, 'v) user =
  "'v callback \<Rightarrow> ('k, 'ty, 'v) client \<Rightarrow> (unit, ('k, 'ty, 'v) client) res"

definition client_lens :: "('k, ('k, 'ty, 'v) client) tlens" where
  "client_lens = \<lparr>tr_of = myTransport, tr_upd = (\<lambda>f s. s\<lparr>myTransport := f (myTransport s)\<rparr>)\<rparr>"

definition notify :: "('k, 'ty, 'v) user \<Rightarrow> 'v callback \<Rightarrow> ('k, 'ty, 'v) client \<Rightarrow>
    (unit, ('k, 'ty, 'v) client) res" where
  "notify U cb s = U cb (s\<lparr>callbacks := callbacks s @ [cb]\<rparr>)"

definition call_closure :: "('k, 'ty, 'v) user \<Rightarrow> 'ty closure \<Rightarrow> 'v result \<Rightarrow>
    ('k, 'ty, 'v) client \<Rightarrow> (unit, ('k, 'ty, 'v) client) res" where
  "call_closure U c r s =
     (case clo_fun c of None \<Rightarrow> Exn BadFunctionCall s | Some n \<Rightarrow> notify U (OnResult n r) s)"

definition myFuncPrefix :: "('k, 'i, 'ty, 'v) client_cfg \<Rightarrow> string" where
  "myFuncPrefix cfg = cf_interface cfg @ ''::''"

definition myBroadcastFuncName :: "('k, 'i, 'ty, 'v) client_cfg \<Rightarrow> string" where
  "myBroadcastFuncName cfg = cf_interface cfg @ ''::broadcast_event''"

definition check_thread_id :: "string \<Rightarrow> ('k, 'ty, 'v) client \<Rightarrow>
    (unit, ('k, 'ty, 'v) client) res" where
  "check_thread_id errorMsg s =
     (if runningThread s \<noteq> myThreadId s
      then Exn (LogicError (errorMsg @ '': call from a foreign thread not supported'')) s
      else Ret () s)"

definition add_listener :: "nat \<Rightarrow> ('k, 'ty, 'v) client \<Rightarrow> ('k, 'ty, 'v) client" where
  "add_listener l s = s\<lparr>myEventListeners := myEventListeners s @ [l]\<rparr>"

definition remove_listener :: "nat \<Rightarrow> ('k, 'ty, 'v) client \<Rightarrow> ('k, 'ty, 'v) client" where
  "remove_listener l s = s\<lparr>myEventListeners := removeAll l (myEventListeners s)\<rparr>"

text \<open>The template argument of the client's call queue.\<close>

definition call_limit :: "('k, 'i, 'ty, 'v) client_cfg \<Rightarrow> nat" where
  "call_limit cfg = cf_max_calls cfg - 1"

section \<open>Sending calls\<close>

definition client_on_disconnected :: "('k, 'ty, 'v) client \<Rightarrow> (unit, ('k, 'ty, 'v) client) res" where
  "client_on_disconnected s = check_thread_id ''cercall::Client::on_disconnected'' s"

definition client_write :: "('k, 'i, 'ty, 'v) client_cfg \<Rightarrow> byte list \<Rightarrow> ('k, 'ty, 'v) client \<Rightarrow>
    (cerror, ('k, 'ty, 'v) client) res" where
  "client_write cfg msg s =
     write_message_with_header (cf_endian cfg) (cf_io cfg) client_lens client_on_disconnected msg s"

definition prepare_call_message :: "('k, 'i, 'ty, 'v) client_cfg \<Rightarrow> string \<Rightarrow> 'v list \<Rightarrow>
    ('k, 'ty, 'v) client \<Rightarrow> (string \<times> byte list, ('k, 'ty, 'v) client) res" where
  "prepare_call_message cfg funcName args s =
     (if tr_is_open (myTransport s) then
        bind_res (check_thread_id ''cercall::Client::prepare_call_message()'' s) (\<lambda>_ s1.
          let fullFuncName = myFuncPrefix cfg @ funcName
          in Ret (fullFuncName,
                  serialize_call (cf_archive cfg) (myArchives s1) fullFuncName args) s1)
      else Exn (RuntimeError
        ''cercall::Client::prepare_call_message: transport to service not opened'') s)"

definition enqueue_closure :: "string \<Rightarrow> 'ty closure \<Rightarrow> ('k, 'ty, 'v) client \<Rightarrow>
    ('k, 'ty, 'v) client" where
  "enqueue_closure fn c s = s\<lparr>myClosures := AList.update fn c (myClosures s)\<rparr>"

text \<open>The action of a queued call: its write error is dropped.\<close>

definition run_queued_call :: "('k, 'i, 'ty, 'v) client_cfg \<Rightarrow> string \<Rightarrow> byte list \<times> 'ty closure \<Rightarrow>
    ('k, 'ty, 'v) client \<Rightarrow> (unit, ('k, 'ty, 'v) client) res" where
  "run_queued_call cfg fn a s =
     bind_res (client_write cfg (fst a) s) (\<lambda>_ s1. Ret () (enqueue_closure fn (snd a) s1))"

definition send_call :: "('k, 'ty, 'v) user \<Rightarrow> ('k, 'i, 'ty, 'v) client_cfg \<Rightarrow> string \<Rightarrow> 'ty closure \<Rightarrow>
    'v list \<Rightarrow> ('k, 'ty, 'v) client \<Rightarrow> (unit, ('k, 'ty, 'v) client) res" where
  "send_call U cfg funcName c args s =
     bind_res (prepare_call_message cfg funcName args s) (\<lambda>(fullFuncName, msg) s1.
       if \<not> in_keys fullFuncName (myClosures s1) then
         bind_res (client_write cfg msg s1) (\<lambda>err s2.
           if Error_bool err
           then call_closure U c (Result_error (map_option (value_init (cf_archive cfg)) (clo_type c)) err) s2
           else Ret () (enqueue_closure fullFuncName c s2))
       else if can_enqueue (call_limit cfg) fullFuncName (myCallQueue s1) then
         Ret () (s1\<lparr>myCallQueue := enqueue_call fullFuncName (msg, c) (myCallQueue s1)\<rparr>)
       else Exn (RuntimeError
         ''cercall::Client::send_call: the limit of queueing function calls is exceeded'') s1)"

definition send_call_one_way :: "('k, 'i, 'ty, 'v) client_cfg \<Rightarrow> string \<Rightarrow> 'v list \<Rightarrow>
    ('k, 'ty, 'v) client \<Rightarrow> (unit, ('k, 'ty, 'v) client) res" where
  "send_call_one_way cfg funcName args s =
     bind_res (prepare_call_message cfg funcName args s) (\<lambda>(_, msg) s1.
     bind_res (client_write cfg msg s1) (\<lambda>_ s2. Ret () s2))"

definition is_call_in_progress :: "('k, 'i, 'ty, 'v) client_cfg \<Rightarrow> string \<Rightarrow> ('k, 'ty, 'v) client \<Rightarrow>
    (bool, ('k, 'ty, 'v) client) res" where
  "is_call_in_progress cfg functionName s =
     bind_res (check_thread_id ''cercall::Client::is_call_in_progress()'' s) (\<lambda>_ s1.
       Ret (in_keys (myFuncPrefix cfg @ functionName) (myClosures s1)) s1)"

section \<open>Receiving results and events\<close>

text \<open>The stored closure function reads the result, then calls the user's closure.\<close>

definition run_closure :: "('k, 'ty, 'v) user \<Rightarrow> ('k, 'i, 'ty, 'v) client_cfg \<Rightarrow> 'ty closure \<Rightarrow> 'i \<Rightarrow>
    ('k, 'ty, 'v) client \<Rightarrow> (unit, ('k, 'ty, 'v) client) res" where
  "run_closure U cfg c i s =
     (case deserialize_result (cf_archive cfg) (clo_type c) i of
        None \<Rightarrow> Exn ArchiveException s
      | Some r \<Rightarrow> call_closure U c r s)"

definition dispatch_result :: "('k, 'ty, 'v) user \<Rightarrow> ('k, 'i, 'ty, 'v) client_cfg \<Rightarrow> string \<Rightarrow> 'i \<Rightarrow>
    ('k, 'ty, 'v) client \<Rightarrow> (unit, ('k, 'ty, 'v) client) res" where
  "dispatch_result U cfg funcName i s =
     (case map_of (myClosures s) funcName of
        None \<Rightarrow> Exn (RuntimeError ''cercall::Client: closure not found for function result'') s
      | Some c \<Rightarrow>
          let s1 = s\<lparr>myClosures := AList.delete funcName (myClosures s)\<rparr>
          in bind_res
               (if is_enqueued (call_limit cfg) funcName (myCallQueue s1)
                then dequeue_call myCallQueue (\<lambda>f s. s\<lparr>myCallQueue := f (myCallQueue s)\<rparr>)
                       (run_queued_call cfg) funcName s1
                else Ret () s1)
               (\<lambda>_ s2. run_closure U cfg c i s2))"

text \<open>
  The event goes to each listener in turn. Each call moves from the same variable, so a
  \<open>unique_ptr\<close> event is null from the second listener on; a listener that takes a reference
  moves nothing. Changing the listener list from a listener invalidates the loop.
\<close>

fun notify_listeners :: "('k, 'ty, 'v) user \<Rightarrow> bool \<Rightarrow> nat list \<Rightarrow> 'v option \<Rightarrow>
    ('k, 'ty, 'v) client \<Rightarrow> (unit, ('k, 'ty, 'v) client) res" where
  "notify_listeners U poly [] ev s = Ret () s"
| "notify_listeners U poly (l # ls) ev s =
     bind_res (notify U (OnEvent l ev) s) (\<lambda>_ s1.
       if myEventListeners s1 \<noteq> myEventListeners s
       then Exn (Undefined ''listener list changed while it is iterated'') s1
       else notify_listeners U poly ls (if poly then None else ev) s1)"

definition dispatch_event :: "('k, 'ty, 'v) user \<Rightarrow> ('k, 'i, 'ty, 'v) client_cfg \<Rightarrow> 'i \<Rightarrow>
    ('k, 'ty, 'v) client \<Rightarrow> (unit, ('k, 'ty, 'v) client) res" where
  "dispatch_event U cfg i s =
     (case cf_event cfg of
        None \<Rightarrow> Ret () s
      | Some (ty, poly) \<Rightarrow>
          (case deserialize_event (cf_archive cfg) ty i of
             None \<Rightarrow> Exn ArchiveException s
           | Some ev \<Rightarrow> notify_listeners U poly (myEventListeners s) (Some ev) s))"

definition message_handler :: "('k, 'ty, 'v) user \<Rightarrow> ('k, 'i, 'ty, 'v) client_cfg \<Rightarrow> byte list \<Rightarrow>
    ('k, 'ty, 'v) client \<Rightarrow> (unit, ('k, 'ty, 'v) client) res" where
  "message_handler U cfg msg s =
     (case deserialize_call (cf_archive cfg) (myArchives s) msg of
        None \<Rightarrow> Exn ArchiveException s
      | Some (funcName, i) \<Rightarrow>
          if funcName = myBroadcastFuncName cfg then dispatch_event U cfg i s
          else dispatch_result U cfg funcName i s)"

definition client_reader :: "('k, 'ty, 'v) user \<Rightarrow> ('k, 'i, 'ty, 'v) client_cfg \<Rightarrow>
    ('k, 'ty, 'v) client reader" where
  "client_reader U cfg =
     \<lparr>rd_read = (\<lambda>n s. s\<lparr>myTransport := tr_read (cf_io cfg) n (myTransport s)\<rparr>),
      rd_data = (\<lambda>s. get_read_data (myTransport s)),
      rd_handler = message_handler U cfg,
      rd_alive = (\<lambda>s. True)\<rparr>"

text \<open>The messenger is a member of the client: its state is put back when the loop ends.\<close>

definition client_on_incoming_data :: "('k, 'ty, 'v) user \<Rightarrow> ('k, 'i, 'ty, 'v) client_cfg \<Rightarrow> nat \<Rightarrow>
    ('k, 'ty, 'v) client \<Rightarrow> (nat, ('k, 'ty, 'v) client) res" where
  "client_on_incoming_data U cfg n s =
     bind_res (check_thread_id ''cercall::Client::on_incoming_data'' s) (\<lambda>_ s1.
       case messenger_read (cf_endian cfg) (client_reader U cfg) n 0 (s1, myMessenger s1) of
         Ret b (s2, m) \<Rightarrow> Ret b (s2\<lparr>myMessenger := m\<rparr>)
       | Exn e (s2, m) \<Rightarrow> Exn e (s2\<lparr>myMessenger := m\<rparr>))"

section \<open>Connection errors\<close>

definition dispatch_error_to_closure :: "('k, 'ty, 'v) user \<Rightarrow> ('k, 'i, 'ty, 'v) client_cfg \<Rightarrow>
    byte list \<Rightarrow> 'ty closure \<Rightarrow> ('k, 'ty, 'v) client \<Rightarrow> (unit, ('k, 'ty, 'v) client) res" where
  "dispatch_error_to_closure U cfg errorMsg c s =
     (case deserialize_call (cf_archive cfg) (myArchives s) errorMsg of
        None \<Rightarrow> Exn ArchiveException s
      | Some (_, i) \<Rightarrow> run_closure U cfg c i s)"

text \<open>
  The loop over \<open>myClosures\<close>. User code that inserts or removes a closure meanwhile changes
  the map under the iteration: an insertion may rehash it, and whether a new element is
  visited is unspecified.
\<close>

fun dispatch_errors :: "('k, 'ty, 'v) user \<Rightarrow> ('k, 'i, 'ty, 'v) client_cfg \<Rightarrow> byte list \<Rightarrow>
    (string \<times> 'ty closure) list \<Rightarrow> ('k, 'ty, 'v) client \<Rightarrow> (unit, ('k, 'ty, 'v) client) res" where
  "dispatch_errors U cfg msg [] s = Ret () s"
| "dispatch_errors U cfg msg ((fn, c) # cs) s =
     bind_res (if fn \<noteq> '''' then dispatch_error_to_closure U cfg msg c s else Ret () s) (\<lambda>_ s1.
       if myClosures s1 \<noteq> myClosures s
       then Exn (Undefined ''closure map changed while it is iterated'') s1
       else dispatch_errors U cfg msg cs s1)"

definition dispatch_connection_error :: "('k, 'ty, 'v) user \<Rightarrow> ('k, 'i, 'ty, 'v) client_cfg \<Rightarrow>
    cerror \<Rightarrow> ('k, 'ty, 'v) client \<Rightarrow> (unit, ('k, 'ty, 'v) client) res" where
  "dispatch_connection_error U cfg e s =
     (let errCallResMsg = strip_header (serialize_call_result (cf_archive cfg) (myArchives s)
            ''placeholder'' (Result_error None e))
      in bind_res (dispatch_errors U cfg errCallResMsg (myClosures s) s)
           (\<lambda>_ s1. Ret () (s1\<lparr>myClosures := []\<rparr>)))"

definition client_on_connection_error :: "('k, 'ty, 'v) user \<Rightarrow> ('k, 'i, 'ty, 'v) client_cfg \<Rightarrow>
    cerror \<Rightarrow> ('k, 'ty, 'v) client \<Rightarrow> (unit, ('k, 'ty, 'v) client) res" where
  "client_on_connection_error U cfg e s =
     bind_res (check_thread_id ''cercall::Client::on_connection_error'' s)
       (\<lambda>_ s1. dispatch_connection_error U cfg e s1)"

section \<open>Opening and closing\<close>

definition client_on_connected :: "('k, 'ty, 'v) user \<Rightarrow> ('k, 'i, 'ty, 'v) client_cfg \<Rightarrow>
    ('k, 'ty, 'v) client \<Rightarrow> (unit, ('k, 'ty, 'v) client) res" where
  "client_on_connected U cfg s =
     (let s1 = (if cf_reusable cfg then s\<lparr>myArchives := True\<rparr> else s)
      in init_transport (client_reader U cfg) (myMessenger s1) s1)"

definition client_listener :: "('k, 'ty, 'v) user \<Rightarrow> ('k, 'i, 'ty, 'v) client_cfg \<Rightarrow>
    ('k, 'ty, 'v) client listener" where
  "client_listener U cfg =
     \<lparr>on_connection_error = client_on_connection_error U cfg,
      on_connected = client_on_connected U cfg,
      on_disconnected = client_on_disconnected,
      on_incoming_data = client_on_incoming_data U cfg\<rparr>"

text \<open>The constructor takes a transport over and becomes its listener.\<close>

definition new_client :: "'k transport \<Rightarrow> nat \<Rightarrow> ('k, 'ty, 'v) client" where
  "new_client t thread =
     \<lparr>myTransport = set_listener t, myArchives = False, myMessenger = new_messenger,
      myCallQueue = empty_queue, myClosures = [], myEventListeners = [],
      myThreadId = thread, runningThread = thread, callbacks = []\<rparr>"

definition open_client :: "('k, 'ty, 'v) user \<Rightarrow> ('k, 'i, 'ty, 'v) client_cfg \<Rightarrow>
    ('k, 'ty, 'v) client \<Rightarrow> (bool, ('k, 'ty, 'v) client) res" where
  "open_client U cfg s =
     bind_res (check_thread_id ''cercall::Client::open()'' s) (\<lambda>_ s1.
       client_open (cf_io cfg) client_lens (client_listener U cfg) (cf_host cfg) (cf_service cfg) s1)"

definition open_client_async :: "('k, 'ty, 'v) user \<Rightarrow> ('k, 'i, 'ty, 'v) client_cfg \<Rightarrow> nat \<Rightarrow>
    ('k, 'ty, 'v) client \<Rightarrow> (unit, ('k, 'ty, 'v) client) res" where
  "open_client_async U cfg cl s =
     bind_res (check_thread_id ''cercall::Client::open()'' s) (\<lambda>_ s1.
       client_open_async (cf_io cfg) client_lens (\<lambda>r. notify U (OnOpen cl r))
         (cf_host cfg) (cf_service cfg) s1)"

definition close_client :: "('k, 'i, 'ty, 'v) client_cfg \<Rightarrow> ('k, 'ty, 'v) client \<Rightarrow>
    (unit, ('k, 'ty, 'v) client) res" where
  "close_client cfg s =
     bind_res (check_thread_id ''cercall::Client::close()'' s) (\<lambda>_ s1.
       tr_close (cf_io cfg) client_lens client_on_disconnected s1)"

definition client_is_open :: "('k, 'ty, 'v) client \<Rightarrow> bool" where
  "client_is_open s = tr_is_open (myTransport s)"

definition client_destructor :: "('k, 'i, 'ty, 'v) client_cfg \<Rightarrow> ('k, 'ty, 'v) client \<Rightarrow>
    (unit, ('k, 'ty, 'v) client) res" where
  "client_destructor cfg s =
     bind_res (tr_close (cf_io cfg) client_lens client_on_disconnected s) (\<lambda>_ s1.
       Ret () (s1\<lparr>myTransport := clear_listener (myTransport s1)\<rparr>))"

text \<open>The completion of a read as the socket library delivers it to a client.\<close>

definition client_handle_recv :: "('k, 'ty, 'v) user \<Rightarrow> ('k, 'i, 'ty, 'v) client_cfg \<Rightarrow> error_code \<Rightarrow>
    nat \<Rightarrow> ('k, 'ty, 'v) client \<Rightarrow> (unit, ('k, 'ty, 'v) client) res" where
  "client_handle_recv U cfg = handle_recv (cf_io cfg) client_lens (client_listener U cfg)"

definition client_receive :: "('k, 'ty, 'v) user \<Rightarrow> ('k, 'i, 'ty, 'v) client_cfg \<Rightarrow> byte list \<Rightarrow>
    ('k, 'ty, 'v) client \<Rightarrow> (unit, ('k, 'ty, 'v) client) res" where
  "client_receive U cfg = recv_completed (cf_io cfg) client_lens (client_listener U cfg)"

text \<open>User code that does nothing but be called.\<close>

definition passive_user :: "('k, 'ty, 'v) user" where
  "passive_user cb s = Ret () s"

end
