(* ===== verification/Client_Invariant.thy ===== *)
theory Client_Invariant
  imports Client
begin

text \<open>
  What every operation of a client keeps, whatever user code does through the client's own
  interface: one closure at most in progress for each function and a bounded queue. The
  locale states what is asked of user code; the interpretations below discharge it for user
  code that does nothing and for user code that calls the client again from its callbacks, to
  any depth.
\<close>

section \<open>Frame lemmas\<close>

lemma client_lens_simps [simp]:
  "tr_of client_lens s = myTransport s"
  "tr_upd client_lens f s = s\<lparr>myTransport := f (myTransport s)\<rparr>"
  by (simp_all add: client_lens_def)

lemma client_lens_ok: "tlens_ok client_lens"
  by (simp add: tlens_ok_def)

lemma client_on_disconnected_state [simp]: "res_state (client_on_disconnected s) = s"
  by (simp add: client_on_disconnected_def check_thread_id_def)

text \<open>Writing and closing change nothing but the transport.\<close>

definition only_transport :: "('k, 'ty, 'v) client \<Rightarrow> ('k, 'ty, 'v) client \<Rightarrow> bool" where
  "only_transport s s' \<longleftrightarrow> (\<exists>t. s' = s\<lparr>myTransport := t\<rparr>)"

lemma only_transport_refl [simp]: "only_transport s s"
  by (auto simp: only_transport_def intro: exI [of _ "myTransport s"])

lemma only_transport_upd [simp]: "only_transport s s' \<Longrightarrow> only_transport s (s'\<lparr>myTransport := t\<rparr>)"
  by (auto simp: only_transport_def)

lemma close_only_transport:
  "only_transport s0 s \<Longrightarrow>
   always (only_transport s0) (tr_close io client_lens client_on_disconnected s)"
  by (auto simp: tr_close_def case_prod_beta Let_def always_def)

lemma write_only_transport:
  "only_transport s0 s \<Longrightarrow> always (only_transport s0) (client_write cfg msg s)"
  by (auto simp: client_write_def write_message_with_header_def tr_write_def case_prod_beta Let_def
      intro!: always_bind close_only_transport split: sum.split)

lemma tr_close_frame:
  "\<exists>t. res_state (tr_close io client_lens client_on_disconnected s) = s\<lparr>myTransport := t\<rparr>"
  using close_only_transport [of s s io] by (simp add: always_def only_transport_def)

lemma client_write_frame: "\<exists>t. res_state (client_write cfg msg s) = s\<lparr>myTransport := t\<rparr>"
  using write_only_transport [of s s cfg msg] by (simp add: always_def only_transport_def)

section \<open>The invariant\<close>

definition client_inv :: "nat \<Rightarrow> ('k, 'ty, 'v) client \<Rightarrow> bool" where
  "client_inv limit s \<longleftrightarrow> distinct (map fst (myClosures s)) \<and> queue_ok limit (myCallQueue s)"

abbreviation cfg_inv :: "('k, 'i, 'ty, 'v) client_cfg \<Rightarrow> ('k, 'ty, 'v) client \<Rightarrow> bool" where
  "cfg_inv cfg \<equiv> client_inv (call_limit cfg)"

lemma client_inv_upd [simp]:
  "client_inv n (s\<lparr>myTransport := t\<rparr>) = client_inv n s"
  "client_inv n (s\<lparr>myArchives := b\<rparr>) = client_inv n s"
  "client_inv n (s\<lparr>myMessenger := m\<rparr>) = client_inv n s"
  "client_inv n (s\<lparr>myEventListeners := ls\<rparr>) = client_inv n s"
  "client_inv n (s\<lparr>runningThread := th\<rparr>) = client_inv n s"
  "client_inv n (s\<lparr>callbacks := cbs\<rparr>) = client_inv n s"
  by (simp_all add: client_inv_def)

lemma client_inv_no_closures: "client_inv n s \<Longrightarrow> client_inv n (s\<lparr>myClosures := []\<rparr>)"
  by (simp add: client_inv_def)

lemma client_inv_delete:
  "client_inv n s \<Longrightarrow> client_inv n (s\<lparr>myClosures := AList.delete fn (myClosures s)\<rparr>)"
  by (simp add: client_inv_def distinct_delete)

lemma client_inv_enqueue_closure: "client_inv n s \<Longrightarrow> client_inv n (enqueue_closure fn c s)"
  by (simp add: client_inv_def enqueue_closure_def distinct_update)

lemma client_inv_enqueue_call:
  "client_inv n s \<Longrightarrow> can_enqueue n fn (myCallQueue s) \<Longrightarrow>
   client_inv n (s\<lparr>myCallQueue := enqueue_call fn a (myCallQueue s)\<rparr>)"
  by (simp add: client_inv_def queue_ok_bounded cq.bounded_enq)

lemma client_inv_pop:
  "client_inv n s \<Longrightarrow> client_inv n (s\<lparr>myCallQueue := pop_front fn (myCallQueue s)\<rparr>)"
  by (simp add: client_inv_def queue_ok_bounded cq.bounded_pop)

lemmas client_inv_intros =
  client_inv_no_closures client_inv_delete client_inv_enqueue_closure client_inv_enqueue_call
  client_inv_pop

section \<open>Every operation keeps it\<close>

lemma keeps_check_thread: "P s \<Longrightarrow> always P (check_thread_id msg s)"
  by (simp add: check_thread_id_def)

lemma keeps_on_disconnected: "P s \<Longrightarrow> always P (client_on_disconnected s)"
  by (simp add: always_def)

lemma keeps_close:
  "client_inv n s \<Longrightarrow> always (client_inv n) (tr_close io client_lens client_on_disconnected s)"
  using tr_close_frame [of io s] by (auto simp: always_def)

lemma keeps_write: "client_inv n s \<Longrightarrow> always (client_inv n) (client_write cfg msg s)"
  using client_write_frame [of cfg msg s] by (auto simp: always_def)

lemma keeps_run_queued: "client_inv n s \<Longrightarrow> always (client_inv n) (run_queued_call cfg fn a s)"
  unfolding run_queued_call_def
  by (intro always_bind keeps_write) (simp_all add: client_inv_enqueue_closure)

lemma keeps_dequeue:
  "client_inv n s \<Longrightarrow> always (client_inv n)
     (dequeue_call myCallQueue (\<lambda>f s. s\<lparr>myCallQueue := f (myCallQueue s)\<rparr>)
        (run_queued_call cfg) fn s)"
  unfolding dequeue_call_def
  by (intro always_bind always_o_assert)
     (auto intro!: always_bind keeps_run_queued client_inv_pop split: option.split list.split)

lemma keeps_prepare: "P s \<Longrightarrow> always P (prepare_call_message cfg fn args s)"
  by (auto simp: prepare_call_message_def Let_def intro!: always_bind keeps_check_thread)

lemma prepare_call_message_state:
  "prepare_call_message cfg fn args s = Ret a s1 \<Longrightarrow> s1 = s"
  by (auto simp: prepare_call_message_def check_thread_id_def Let_def split: if_splits)

lemma keeps_one_way: "client_inv n s \<Longrightarrow> always (client_inv n) (send_call_one_way cfg fn args s)"
  unfolding send_call_one_way_def
  by (auto intro!: always_bind keeps_prepare keeps_write)

locale client_code =
  fixes U :: "('k, 'ty, 'v) user" and cfg :: "('k, 'i, 'ty, 'v) client_cfg"
  assumes user_keeps: "cfg_inv cfg s \<Longrightarrow> always (cfg_inv cfg) (U cb s)"
begin

lemma keeps_notify: "cfg_inv cfg s \<Longrightarrow> always (cfg_inv cfg) (notify U cb s)"
  by (simp add: notify_def user_keeps)

lemma keeps_call_closure: "cfg_inv cfg s \<Longrightarrow> always (cfg_inv cfg) (call_closure U c r s)"
  by (simp add: call_closure_def keeps_notify split: option.split)

lemma keeps_run_closure: "cfg_inv cfg s \<Longrightarrow> always (cfg_inv cfg) (run_closure U cfg c i s)"
  by (simp add: run_closure_def keeps_call_closure split: option.split)

lemma keeps_send_call: "cfg_inv cfg s \<Longrightarrow> always (cfg_inv cfg) (send_call U cfg fn c args s)"
  unfolding send_call_def
  by (auto intro!: always_bind keeps_prepare keeps_write keeps_call_closure
        simp: client_inv_intros)

lemma keeps_dispatch_result:
  "cfg_inv cfg s \<Longrightarrow> always (cfg_inv cfg) (dispatch_result U cfg fn i s)"
  unfolding dispatch_result_def
  by (auto intro!: always_bind keeps_dequeue keeps_run_closure client_inv_delete
        simp: Let_def split: option.split)

lemma keeps_listeners:
  "cfg_inv cfg s \<Longrightarrow> always (cfg_inv cfg) (notify_listeners U poly ls ev s)"
  by (induction ls arbitrary: ev s) (auto intro!: always_bind intro: keeps_notify)

end

text \<open>The message handler, and with it the client as the owner of its reader.\<close>

context client_code
begin

lemma keeps_dispatch_event:
  "cfg_inv cfg s \<Longrightarrow> always (cfg_inv cfg) (dispatch_event U cfg i s)"
  by (auto simp: dispatch_event_def keeps_listeners split: option.split)

lemma keeps_message_handler:
  "cfg_inv cfg s \<Longrightarrow> always (cfg_inv cfg) (message_handler U cfg msg s)"
  by (auto simp: message_handler_def keeps_dispatch_event keeps_dispatch_result split: option.split)

end

sublocale client_code \<subseteq> reader: reader_owner "client_reader U cfg" "cfg_inv cfg"
  by unfold_locales (simp_all add: client_reader_def keeps_message_handler)

context client_code
begin

lemma keeps_incoming:
  assumes "cfg_inv cfg s"
  shows "always (cfg_inv cfg) (client_on_incoming_data U cfg n s)"
proof -
  have "always (cfg_inv cfg)
      (case messenger_read (cf_endian cfg) (client_reader U cfg) n 0 (s, myMessenger s) of
         Ret b (s2, m) \<Rightarrow> Ret b (s2\<lparr>myMessenger := m\<rparr>)
       | Exn e (s2, m) \<Rightarrow> Exn e (s2\<lparr>myMessenger := m\<rparr>))" if "cfg_inv cfg s" for s
    using reader.messenger_read_keeps [of "(s, myMessenger s)" "cf_endian cfg" n 0] that
    by (auto split: res.split prod.split)
  then show ?thesis
    using assms by (auto simp: client_on_incoming_data_def intro!: always_bind keeps_check_thread)
qed

lemma keeps_dispatch_errors:
  "cfg_inv cfg s \<Longrightarrow> always (cfg_inv cfg) (dispatch_errors U cfg msg cs s)"
proof (induction cs arbitrary: s)
  case (Cons p cs)
  then show ?case
    by (cases p) (auto intro!: always_bind keeps_run_closure
        simp: dispatch_error_to_closure_def split: option.split)
qed simp

lemma keeps_connection_error:
  "cfg_inv cfg s \<Longrightarrow> always (cfg_inv cfg) (client_on_connection_error U cfg e s)"
  by (auto simp: client_on_connection_error_def dispatch_connection_error_def Let_def
      intro!: always_bind keeps_check_thread keeps_dispatch_errors client_inv_no_closures)

lemma keeps_connected:
  "cfg_inv cfg s \<Longrightarrow> always (cfg_inv cfg) (client_on_connected U cfg s)"
  by (simp add: client_on_connected_def Let_def reader.init_transport_keeps)

end

text \<open>The client as the owner of its transport.\<close>

sublocale client_code \<subseteq> tr: transport_owner client_lens "client_listener U cfg" "cfg_inv cfg"
  by unfold_locales
     (simp_all add: client_listener_def keeps_connection_error keeps_connected
        keeps_on_disconnected keeps_incoming)

section \<open>User code that calls the client again\<close>

text \<open>
  The calls a program can make on a client and the completions the event loop delivers, as
  one type. \<open>SwitchThread\<close> is the program going on in another thread.
\<close>

datatype ('ty, 'v) client_op =
    SendCall string "'ty closure" "'v list"
  | SendOneWay string "'v list"
  | CallInProgress string
  | AddListener nat
  | RemoveListener nat
  | OpenClient
  | OpenAsync nat
  | CloseClient
  | SwitchThread nat

datatype ('ty, 'v) client_event =
    Program "('ty, 'v) client_op"
  | Received "byte list"
  | ReceiveError error_code
  | Resolved nat error_code endpoints
  | Connected nat error_code

definition ignore :: "('a, 's) res \<Rightarrow> (unit, 's) res" where
  "ignore r = bind_res r (\<lambda>_ s. Ret () s)"

primrec client_do :: "('k, 'ty, 'v) user \<Rightarrow> ('k, 'i, 'ty, 'v) client_cfg \<Rightarrow> ('ty, 'v) client_op \<Rightarrow>
    ('k, 'ty, 'v) client \<Rightarrow> (unit, ('k, 'ty, 'v) client) res" where
  "client_do U cfg (SendCall fn c args) s = send_call U cfg fn c args s"
| "client_do U cfg (SendOneWay fn args) s = send_call_one_way cfg fn args s"
| "client_do U cfg (CallInProgress fn) s = ignore (is_call_in_progress cfg fn s)"
| "client_do U cfg (AddListener l) s = Ret () (add_listener l s)"
| "client_do U cfg (RemoveListener l) s = Ret () (remove_listener l s)"
| "client_do U cfg OpenClient s = ignore (open_client U cfg s)"
| "client_do U cfg (OpenAsync cl) s = open_client_async U cfg cl s"
| "client_do U cfg CloseClient s = close_client cfg s"
| "client_do U cfg (SwitchThread th) s = Ret () (s\<lparr>runningThread := th\<rparr>)"

fun client_do_all :: "('k, 'ty, 'v) user \<Rightarrow> ('k, 'i, 'ty, 'v) client_cfg \<Rightarrow>
    ('ty, 'v) client_op list \<Rightarrow> ('k, 'ty, 'v) client \<Rightarrow> (unit, ('k, 'ty, 'v) client) res" where
  "client_do_all U cfg [] s = Ret () s"
| "client_do_all U cfg (op # ops) s = bind_res (client_do U cfg op s) (\<lambda>_. client_do_all U cfg ops)"

text \<open>
  User code with a reaction to each callback: a list of calls on the client, whose own
  callbacks react in turn, down to the given depth.
\<close>

fun reacting_user :: "('k, 'i, 'ty, 'v) client_cfg \<Rightarrow> ('v callback \<Rightarrow> ('ty, 'v) client_op list) \<Rightarrow>
    nat \<Rightarrow> ('k, 'ty, 'v) user" where
  "reacting_user cfg react 0 cb s = Ret () s"
| "reacting_user cfg react (Suc n) cb s =
     client_do_all (reacting_user cfg react n) cfg (react cb) s"

definition client_step :: "('k, 'ty, 'v) user \<Rightarrow> ('k, 'i, 'ty, 'v) client_cfg \<Rightarrow>
    ('ty, 'v) client_event \<Rightarrow> ('k, 'ty, 'v) client \<Rightarrow> (unit, ('k, 'ty, 'v) client) res" where
  "client_step U cfg ev s =
     (case ev of
        Program op \<Rightarrow> client_do U cfg op s
      | Received data \<Rightarrow> client_receive U cfg data s
      | ReceiveError ec \<Rightarrow> client_handle_recv U cfg ec 0 s
      | Resolved cl ec eps \<Rightarrow> handle_resolve (cf_io cfg) client_lens (client_listener U cfg)
          (\<lambda>r. notify U (OnOpen cl r)) ec eps s
      | Connected cl ec \<Rightarrow> handle_connect (cf_io cfg) client_lens (client_listener U cfg)
          (\<lambda>r. notify U (OnOpen cl r)) ec s)"

lemma always_ignore: "always P (ignore r) \<longleftrightarrow> always P r"
  by (cases r) (simp_all add: ignore_def)

context client_code
begin

lemma keeps_do: "cfg_inv cfg s \<Longrightarrow> always (cfg_inv cfg) (client_do U cfg op s)"
proof (cases op)
  case (OpenAsync cl)
  have "always (cfg_inv cfg) (client_open_async (cf_io cfg) client_lens
      (\<lambda>r. notify U (OnOpen cl r)) (cf_host cfg) (cf_service cfg) s)" if "cfg_inv cfg s" for s
    using that by (intro tr.open_async_keeps keeps_notify)
  then show "cfg_inv cfg s \<Longrightarrow> ?thesis"
    by (auto simp: OpenAsync open_client_async_def intro!: always_bind keeps_check_thread)
next
  case CloseClient
  then show "cfg_inv cfg s \<Longrightarrow> ?thesis"
    by (auto simp: close_client_def intro!: always_bind keeps_check_thread keeps_close)
next
  case OpenClient
  then show "cfg_inv cfg s \<Longrightarrow> ?thesis"
    by (auto simp: open_client_def always_ignore
        intro!: always_bind keeps_check_thread tr.client_open_keeps)
next
  case (CallInProgress fn)
  then show "cfg_inv cfg s \<Longrightarrow> ?thesis"
    by (auto simp: is_call_in_progress_def always_ignore intro!: always_bind keeps_check_thread)
qed (simp_all add: keeps_send_call keeps_one_way add_listener_def remove_listener_def)

lemma keeps_do_all: "cfg_inv cfg s \<Longrightarrow> always (cfg_inv cfg) (client_do_all U cfg ops s)"
  by (induction ops arbitrary: s) (auto intro!: always_bind keeps_do)

lemma keeps_step: "cfg_inv cfg s \<Longrightarrow> always (cfg_inv cfg) (client_step U cfg ev s)"
  by (cases ev)
     (simp_all add: client_step_def keeps_do client_receive_def client_handle_recv_def
        tr.recv_completed_keeps tr.handle_recv_keeps tr.handle_resolve_keeps
        tr.handle_connect_keeps keeps_notify)

end

interpretation idle: client_code passive_user cfg for cfg
  by unfold_locales (simp add: passive_user_def)

lemma client_code_reacting: "client_code (reacting_user cfg react n) cfg"
proof (induction n)
  case (Suc n)
  show ?case
    by unfold_locales (simp add: client_code.keeps_do_all [OF Suc.IH])
qed (unfold_locales, simp)

interpretation reacting: client_code "reacting_user cfg react n" cfg for cfg react n
  by (rule client_code_reacting)

section \<open>Reachable states\<close>

text \<open>
  From a new client, by any program calls and completions; a step that throws leaves the
  state in which it threw.
\<close>

inductive client_reach :: "('k, 'ty, 'v) user \<Rightarrow> ('k, 'i, 'ty, 'v) client_cfg \<Rightarrow>
    ('k, 'ty, 'v) client \<Rightarrow> bool" for U cfg where
  reach_new: "client_reach U cfg (new_client (new_transport k) thread)"
| reach_step: "client_reach U cfg s \<Longrightarrow> client_reach U cfg (res_state (client_step U cfg ev s))"

context client_code
begin

lemma reach_inv: "client_reach U cfg s \<Longrightarrow> cfg_inv cfg s"
proof (induction rule: client_reach.induct)
  case (reach_new k thread)
  show ?case by (simp add: new_client_def client_inv_def queue_ok_bounded cq.bounded_empty)
next
  case (reach_step s ev)
  then show ?case using keeps_step [of s ev] by (simp add: always_def)
qed

end

end
