(* ===== verification/Sample_Environment.thy ===== *)
theory Sample_Environment
  imports Client
begin

text \<open>
  One concrete instance of the parameters, for the theorems that say a property's hypotheses
  can be met: a socket that records what is written to it and fails on demand, and an archive
  that writes strings with an end mark and integers in four bytes.
\<close>

record sample_socket =
  sent :: "byte list"
  broken :: bool
  reads_asked :: nat

definition ec_success :: error_code where
  "ec_success = \<lparr>ec_value = 0, ec_category = ''system'', ec_message = ''''\<rparr>"

definition ec_reset :: error_code where
  "ec_reset = \<lparr>ec_value = 104, ec_category = ''system'', ec_message = ''Connection reset by peer''\<rparr>"

definition ec_again :: error_code where
  "ec_again = \<lparr>ec_value = EAGAIN, ec_category = ''system'', ec_message = ''Try again''\<rparr>"

definition sample_io :: "sample_socket asio" where
  "sample_io =
     \<lparr>io_write = (\<lambda>bs k. if broken k then (ec_reset, k) else (ec_success, k\<lparr>sent := sent k @ bs\<rparr>)),
      io_async_read = (\<lambda>n k. k\<lparr>reads_asked := n\<rparr>),
      io_shutdown = (\<lambda>k. (ec_success, k)),
      io_close = (\<lambda>k. (ec_success, k)),
      io_set_no_delay = (\<lambda>k. (ec_success, k)),
      io_resolve = (\<lambda>h sv k. (Inr [0], k)),
      io_connect = (\<lambda>eps k. (if broken k then ec_reset else ec_success, k)),
      io_async_resolve = (\<lambda>h sv k. k),
      io_async_connect = (\<lambda>eps k. k)\<rparr>"

lemmas ec_samples = ec_success_def ec_reset_def ec_again_def

primrec put_string :: "string \<Rightarrow> byte list" where
  "put_string [] = [0]"
| "put_string (c # cs) = 1 # word_of_nat (of_char c) # put_string cs"

fun take_string :: "byte list \<Rightarrow> (string \<times> byte list) option" where
  "take_string (t # bs) =
     (if t = 0 then Some ([], bs)
      else case bs of [] \<Rightarrow> None
           | b # r \<Rightarrow> map_option (\<lambda>(s, r'). (char_of (unat b) # s, r')) (take_string r))"
| "take_string [] = None"

definition take_u32 :: "byte list \<Rightarrow> (u32 \<times> byte list) option" where
  "take_u32 bs = (if length bs < 4 then None else Some (u32_of_bytes (take 4 bs), drop 4 bs))"

primrec put_item :: "cint item \<Rightarrow> byte list" where
  "put_item (IString s) = put_string s"
| "put_item (IInt n) = u32_bytes n"
| "put_item (IValue v) = u32_bytes v"

definition sample_archive :: "(byte list, unit, cint) archive" where
  "sample_archive =
     \<lparr>ar_write = (\<lambda>_ xs. concat (map put_item xs)), ar_open = (\<lambda>_ bs. Some bs),
      get_string = take_string, get_int = take_u32, get_value = (\<lambda>_. take_u32),
      value_init = (\<lambda>_. 0)\<rparr>"

lemma put_string_nonempty [simp]: "put_string s \<noteq> []"
  by (cases s) simp_all

lemma char_of_byte: "char_of (unat (word_of_nat (of_char c) :: byte)) = c"
proof -
  have "(of_char c :: nat) < 256"
    by (cases c) (simp add: of_char_def horner_sum_simps split: if_splits)
  then show ?thesis by (simp add: unat_of_nat)
qed

lemma take_put_string: "take_string (put_string s @ r) = Some (s, r)"
  by (induction s) (simp_all add: char_of_byte)

lemma take_put_u32: "take_u32 (u32_bytes w @ r) = Some (w, r)"
  by (simp add: take_u32_def)

lemma reads_sample: "reads sample_archive (\<lambda>_. ()) (concat (map put_item xs)) xs"
proof (induction xs)
  case (Cons x xs)
  then show ?case
    by (cases x) (auto simp: sample_archive_def take_put_string take_put_u32)
qed simp

lemma sample_archive_ok: "archive_ok sample_archive (\<lambda>_. ())"
proof -
  have "concat (map put_item xs) \<noteq> []" if "xs \<noteq> []" for xs
  proof -
    have "put_item x \<noteq> []" for x
      by (cases x) (simp_all add: u32_bytes_def)
    then show ?thesis using that by auto
  qed
  moreover have "ar_write sample_archive b xs = concat (map put_item xs)"
    "ar_open sample_archive b bs = Some bs" for b xs bs
    by (simp_all add: sample_archive_def)
  ultimately show ?thesis
    using reads_sample by (simp add: archive_ok_def)
qed

definition sample_cfg :: "(sample_socket, byte list, unit, cint) client_cfg" where
  "sample_cfg =
     \<lparr>cf_io = sample_io, cf_archive = sample_archive, cf_reusable = True,
      cf_endian = LittleEndian, cf_interface = ''CalculatorInterface'',
      cf_event = Some ((), True), cf_max_calls = 3, cf_host = ''127.0.0.1'',
      cf_service = ''56789''\<rparr>"

definition sample_sock :: sample_socket where
  "sample_sock = \<lparr>sent = [], broken = False, reads_asked = 0\<rparr>"

lemma sample_cfg_simps [simp]:
  "cf_io sample_cfg = sample_io" "cf_archive sample_cfg = sample_archive"
  "cf_endian sample_cfg = LittleEndian" "cf_max_calls sample_cfg = 3"
  "cf_reusable sample_cfg" "cf_event sample_cfg = Some ((), True)"
  by (simp_all add: sample_cfg_def)

text \<open>A client whose connection is open.\<close>

definition sample_client :: "(sample_socket, unit, cint) client" where
  "sample_client = res_state (open_client passive_user sample_cfg (new_client (new_transport sample_sock) 1))"

lemma sample_client_eq:
  "sample_client =
     \<lparr>myTransport = \<lparr>myState = OPEN, mySocket = sample_sock\<lparr>reads_asked := 4\<rparr>,
                     myBuffer = [0, 0, 0, 0], myListener = True\<rparr>,
      myArchives = True, myMessenger = new_messenger, myCallQueue = empty_queue, myClosures = [],
      myEventListeners = [], myThreadId = 1, runningThread = 1, callbacks = []\<rparr>"
  by (simp add: sample_client_def open_client_def new_client_def new_transport_def check_thread_id_def
      client_open_def sample_cfg_def sample_io_def client_lens_def tr_open_def client_listener_def
      client_on_connected_def init_transport_def client_reader_def tr_read_def resize_def
      new_messenger_def set_listener_def HEADER_SIZE_def sample_sock_def ec_samples ec_ok_def
      numeral_eq_Suc)

definition sample_closure :: "nat \<Rightarrow> unit closure" where
  "sample_closure n = \<lparr>clo_fun = Some n, clo_type = Some ()\<rparr>"

text \<open>The same client with one call in progress and one waiting behind it.\<close>

definition sample_busy :: "(sample_socket, unit, cint) client" where
  "sample_busy = sample_client
     \<lparr>myClosures := [(''CalculatorInterface::add'', sample_closure 7)],
      myCallQueue := [''CalculatorInterface::add'' \<mapsto> [([0, 0, 0, 0, 5], sample_closure 8)]]\<rparr>"

text \<open>An open client whose socket refuses every write.\<close>

definition sample_broken :: "(sample_socket, unit, cint) client" where
  "sample_broken = sample_client
     \<lparr>myTransport := (myTransport sample_client)\<lparr>mySocket := sample_sock\<lparr>broken := True\<rparr>\<rparr>\<rparr>"

end
