(* ===== verification/Client_Spec.thy ===== *)
theory Client_Spec
  imports Client_Invariant Sample_Environment
begin

text \<open>
  What a client promises its program. Abstractly a client is, for each function of the
  service, a queue of closures: the first belongs to the call in progress, the others wait.
  The lemmas say what each operation does to these queues, to the socket and to the record of
  callbacks; the properties are the operations' contracts in these terms.
\<close>

section \<open>The abstract view\<close>

definition outstanding :: "string \<Rightarrow> ('k, 'ty, 'v) client \<Rightarrow> 'ty closure list" where
  "outstanding fn s =
     (case map_of (myClosures s) fn of None \<Rightarrow> [] | Some c \<Rightarrow> [c]) @
     map snd (waiting (myCallQueue s) fn)"

text \<open>A call waits only behind a call in progress.\<close>

definition fifo_ok :: "('k, 'ty, 'v) client \<Rightarrow> bool" where
  "fifo_ok s \<longleftrightarrow> (\<forall>fn. waiting (myCallQueue s) fn \<noteq> [] \<longrightarrow> in_keys fn (myClosures s))"

definition client_ready :: "('k, 'ty, 'v) client \<Rightarrow> bool" where
  "client_ready s \<longleftrightarrow> tr_is_open (myTransport s) \<and> runningThread s = myThreadId s"

abbreviation full_name :: "('k, 'i, 'ty, 'v) client_cfg \<Rightarrow> string \<Rightarrow> string" where
  "full_name cfg fn \<equiv> myFuncPrefix cfg @ fn"

abbreviation call_message :: "('k, 'i, 'ty, 'v) client_cfg \<Rightarrow> ('k, 'ty, 'v) client \<Rightarrow> string \<Rightarrow>
    'v list \<Rightarrow> byte list" where
  "call_message cfg s fn args \<equiv>
     serialize_call (cf_archive cfg) (myArchives s) (full_name cfg fn) args"

text \<open>Writing a message to an open transport with success, or with a socket error.\<close>

definition write_succeeds :: "('k, 'i, 'ty, 'v) client_cfg \<Rightarrow> byte list \<Rightarrow> ('k, 'ty, 'v) client \<Rightarrow>
    bool" where
  "write_succeeds cfg msg s \<longleftrightarrow>
     (case message_with_header (cf_endian cfg) msg of
        Inl e \<Rightarrow> False
      | Inr m \<Rightarrow> ec_ok (fst (io_write (cf_io cfg) m (mySocket (myTransport s)))))"

definition after_write :: "('k, 'i, 'ty, 'v) client_cfg \<Rightarrow> byte list \<Rightarrow> ('k, 'ty, 'v) client \<Rightarrow>
    ('k, 'ty, 'v) client" where
  "after_write cfg msg s =
     (case message_with_header (cf_endian cfg) msg of
        Inl e \<Rightarrow> s
      | Inr m \<Rightarrow> s\<lparr>myTransport := (myTransport s)
             \<lparr>mySocket := snd (io_write (cf_io cfg) m (mySocket (myTransport s)))\<rparr>\<rparr>)"

lemma client_write_ok:
  assumes "tr_is_open (myTransport s)" and "write_succeeds cfg msg s"
  shows "client_write cfg msg s = Ret Error_none (after_write cfg msg s)"
  using assms
  by (auto simp: client_write_def write_message_with_header_def tr_write_def write_succeeds_def
      after_write_def case_prod_beta Let_def split: sum.splits)

lemma after_write_simps [simp]:
  "myClosures (after_write cfg msg s) = myClosures s"
  "myCallQueue (after_write cfg msg s) = myCallQueue s"
  "callbacks (after_write cfg msg s) = callbacks s"
  "myArchives (after_write cfg msg s) = myArchives s"
  "myMessenger (after_write cfg msg s) = myMessenger s"
  "myEventListeners (after_write cfg msg s) = myEventListeners s"
  "runningThread (after_write cfg msg s) = runningThread s"
  "myThreadId (after_write cfg msg s) = myThreadId s"
  "myState (myTransport (after_write cfg msg s)) = myState (myTransport s)"
  "myBuffer (myTransport (after_write cfg msg s)) = myBuffer (myTransport s)"
  "myListener (myTransport (after_write cfg msg s)) = myListener (myTransport s)"
  by (simp_all add: after_write_def split: sum.split)

lemma client_ready_after_write [simp]: "client_ready (after_write cfg msg s) = client_ready s"
  by (simp add: client_ready_def tr_is_open_def)

lemma prepare_ready:
  "client_ready s \<Longrightarrow>
   prepare_call_message cfg fn args s = Ret (full_name cfg fn, call_message cfg s fn args) s"
  by (simp add: prepare_call_message_def client_ready_def check_thread_id_def Let_def)

lemma outstanding_Nil_iff:
  "fifo_ok s \<Longrightarrow> outstanding fn s = [] \<longleftrightarrow> \<not> in_keys fn (myClosures s)"
  by (auto simp: outstanding_def fifo_ok_def in_keys_map_of split: option.splits)

lemma outstanding_length:
  "in_keys fn (myClosures s) \<Longrightarrow>
   length (outstanding fn s) = Suc (length (waiting (myCallQueue s) fn))"
  by (auto simp: outstanding_def in_keys_map_of)

lemma fifo_ok_empty: "\<not> in_keys fn (myClosures s) \<Longrightarrow> fifo_ok s \<Longrightarrow> waiting (myCallQueue s) fn = []"
  by (auto simp: fifo_ok_def)

section \<open>Sending\<close>

lemma send_call_direct:
  assumes "client_ready s" and "\<not> in_keys (full_name cfg fn) (myClosures s)"
    and "write_succeeds cfg (call_message cfg s fn args) s"
  shows "send_call U cfg fn c args s =
         Ret () (enqueue_closure (full_name cfg fn) c (after_write cfg (call_message cfg s fn args) s))"
  using assms by (simp add: send_call_def prepare_ready client_write_ok client_ready_def)

lemma send_call_queued:
  assumes "client_ready s" and "in_keys (full_name cfg fn) (myClosures s)"
  shows "send_call U cfg fn c args s =
         (if length (waiting (myCallQueue s) (full_name cfg fn)) < call_limit cfg
          then Ret () (s\<lparr>myCallQueue := enqueue_call (full_name cfg fn)
                                         (call_message cfg s fn args, c) (myCallQueue s)\<rparr>)
          else Exn (RuntimeError
            ''cercall::Client::send_call: the limit of queueing function calls is exceeded'') s)"
  using assms by (simp add: send_call_def prepare_ready can_enqueue_iff)

lemma outstanding_enqueue_closure:
  "\<not> in_keys fn (myClosures s) \<Longrightarrow> fifo_ok s \<Longrightarrow>
   outstanding g (enqueue_closure fn c (after_write cfg msg s)) =
   (if g = fn then [c] else outstanding g s)"
  using fifo_ok_empty [of fn s]
  by (auto simp: outstanding_def enqueue_closure_def in_keys_map_of)

lemma outstanding_enqueue_call:
  "in_keys fn (myClosures s) \<Longrightarrow>
   outstanding g (s\<lparr>myCallQueue := enqueue_call fn (msg, c) (myCallQueue s)\<rparr>) =
   (if g = fn then outstanding fn s @ [c] else outstanding g s)"
  by (auto simp: outstanding_def waiting_enqueue in_keys_map_of)

lemma fifo_ok_enqueue_closure:
  "fifo_ok s \<Longrightarrow> fifo_ok (enqueue_closure fn c (after_write cfg msg s))"
  by (auto simp: fifo_ok_def enqueue_closure_def)

lemma fifo_ok_enqueue_call:
  "fifo_ok s \<Longrightarrow> in_keys fn (myClosures s) \<Longrightarrow>
   fifo_ok (s\<lparr>myCallQueue := enqueue_call fn a (myCallQueue s)\<rparr>)"
  by (auto simp: fifo_ok_def waiting_enqueue)

text \<open>
  C5: Sending refines an abstract bounded queue. On an open client, a call of a function with
  fewer than \<open>MaxCallsInProgress\<close> outstanding calls is accepted and appended to the closures of
  that function, leaving the other functions and the callbacks alone; the message goes to
  the socket exactly when no call of the function is in progress. At the limit the call
  throws and the client is unchanged.
\<close>

theorem send_call_refines_queue:
  assumes "client_ready s" and "fifo_ok s" and "0 < cf_max_calls cfg"
    and "outstanding (full_name cfg fn) s = [] \<Longrightarrow>
         write_succeeds cfg (call_message cfg s fn args) s"
  shows "if length (outstanding (full_name cfg fn) s) < cf_max_calls cfg
     then \<exists>s'. send_call U cfg fn c args s = Ret () s' \<and> fifo_ok s' \<and> client_ready s' \<and>
        callbacks s' = callbacks s \<and>
        (\<forall>g. outstanding g s' = (if g = full_name cfg fn then outstanding g s @ [c]
                                 else outstanding g s)) \<and>
        myTransport s' = (if outstanding (full_name cfg fn) s = []
          then myTransport (after_write cfg (call_message cfg s fn args) s) else myTransport s)
     else send_call U cfg fn c args s = Exn (RuntimeError
        ''cercall::Client::send_call: the limit of queueing function calls is exceeded'') s"
proof (cases "in_keys (full_name cfg fn) (myClosures s)")
  case True
  then have "outstanding (full_name cfg fn) s \<noteq> []"
    using assms(2) by (simp add: outstanding_Nil_iff)
  then show ?thesis
    using assms True
    by (auto simp: send_call_queued outstanding_length outstanding_enqueue_call
        fifo_ok_enqueue_call call_limit_def client_ready_def)
next
  case False
  then have "outstanding (full_name cfg fn) s = []"
    using assms(2) by (simp add: outstanding_Nil_iff)
  then show ?thesis
    using assms False fifo_ok_enqueue_closure [OF assms(2)]
    by (auto simp: send_call_direct outstanding_enqueue_closure
        client_ready_def tr_is_open_def) (auto simp: enqueue_closure_def)
qed

theorem send_call_refines_queue_witness:
  "\<exists>s'. send_call passive_user sample_cfg ''add'' (sample_closure 7) [1, 2, 3] sample_client = Ret () s' \<and>
        outstanding ''CalculatorInterface::add'' s' = [sample_closure 7]"
proof -
  have name: "full_name sample_cfg ''add'' = ''CalculatorInterface::add''"
    by (simp add: myFuncPrefix_def sample_cfg_def)
  have empty: "outstanding ''CalculatorInterface::add'' sample_client = []"
    by (simp add: outstanding_def sample_client_eq empty_queue_def)
  have "client_ready sample_client" "fifo_ok sample_client" "0 < cf_max_calls sample_cfg"
    by (simp_all add: client_ready_def tr_is_open_def fifo_ok_def sample_client_eq sample_cfg_def
        empty_queue_def)
  moreover have "write_succeeds sample_cfg (call_message sample_cfg sample_client ''add'' [1, 2, 3]) sample_client"
    unfolding name
    by (simp add: write_succeeds_def message_with_header_def serialize_defs sample_cfg_def sample_io_def
        sample_client_eq sample_sock_def sample_archive_def reserve_message_header_def HEADER_SIZE_def
        Let_def ec_samples ec_ok_def)
  ultimately show ?thesis
    using send_call_refines_queue [of sample_client sample_cfg "''add''" "[1, 2, 3]" passive_user "sample_closure 7"]
    by (auto simp: name empty split: if_splits)
qed

section \<open>Results\<close>

lemma outstanding_Cons:
  assumes "fifo_ok s" and "outstanding fn s = c # cs"
  shows "map_of (myClosures s) fn = Some c \<and> map snd (waiting (myCallQueue s) fn) = cs"
proof -
  have "in_keys fn (myClosures s)"
    using assms by (metis list.distinct(1) outstanding_Nil_iff)
  then show ?thesis using assms(2) by (auto simp: outstanding_def in_keys_map_of)
qed

lemma dispatch_result_idle:
  assumes "map_of (myClosures s) fn = Some c" and "waiting (myCallQueue s) fn = []"
  shows "dispatch_result U cfg fn i s =
         run_closure U cfg c i (s\<lparr>myClosures := AList.delete fn (myClosures s)\<rparr>)"
  using assms by (simp add: dispatch_result_def is_enqueued_iff Let_def)

text \<open>The state in which the closure runs when the next queued call has been sent.\<close>

definition next_call_sent :: "('k, 'i, 'ty, 'v) client_cfg \<Rightarrow> string \<Rightarrow> byte list \<times> 'ty closure \<Rightarrow>
    ('k, 'ty, 'v) client \<Rightarrow> ('k, 'ty, 'v) client" where
  "next_call_sent cfg fn a s =
     (let s1 = enqueue_closure fn (snd a)
            (after_write cfg (fst a) (s\<lparr>myClosures := AList.delete fn (myClosures s)\<rparr>))
      in s1\<lparr>myCallQueue := pop_front fn (myCallQueue s1)\<rparr>)"

lemma after_write_closures [simp]:
  "after_write cfg msg (s\<lparr>myClosures := cs\<rparr>) = (after_write cfg msg s)\<lparr>myClosures := cs\<rparr>"
  by (simp add: after_write_def split: sum.split)

lemma write_succeeds_closures [simp]:
  "write_succeeds cfg msg (s\<lparr>myClosures := cs\<rparr>) = write_succeeds cfg msg s"
  by (simp add: write_succeeds_def split: sum.split)

lemma dispatch_result_next:
  assumes "map_of (myClosures s) fn = Some c" and "waiting (myCallQueue s) fn = a # xs"
    and "cfg_inv cfg s" and "client_ready s" and "write_succeeds cfg (fst a) s"
  shows "dispatch_result U cfg fn i s = run_closure U cfg c i (next_call_sent cfg fn a s)"
proof -
  let ?s1 = "s\<lparr>myClosures := AList.delete fn (myClosures s)\<rparr>"
  have "length (waiting (myCallQueue s) fn) \<le> call_limit cfg"
    using assms(3) by (simp add: client_inv_def queue_ok_def)
  then have "is_enqueued (call_limit cfg) fn (myCallQueue s)"
    using assms(2) by (simp add: is_enqueued_iff)
  moreover have "run_queued_call cfg fn a ?s1 =
      Ret () (enqueue_closure fn (snd a) (after_write cfg (fst a) ?s1))"
    using assms(4,5) client_write_ok [of ?s1 cfg "fst a"]
    by (simp add: run_queued_call_def client_ready_def)
  ultimately show ?thesis
    using assms(1,2)
    by (simp add: dispatch_result_def Let_def dequeue_call_waiting waiting_Some
        next_call_sent_def enqueue_closure_def)
qed

lemma next_call_sent_simps:
  assumes "waiting (myCallQueue s) fn = a # xs"
  shows "outstanding g (next_call_sent cfg fn a s) =
           (if g = fn then snd a # map snd xs else outstanding g s)"
    and "callbacks (next_call_sent cfg fn a s) = callbacks s"
    and "client_ready (next_call_sent cfg fn a s) = client_ready s"
    and "myTransport (next_call_sent cfg fn a s) = myTransport (after_write cfg (fst a) s)"
    and "fifo_ok s \<Longrightarrow> fifo_ok (next_call_sent cfg fn a s)"
  using assms
  by (auto simp: next_call_sent_def Let_def outstanding_def enqueue_closure_def waiting_pop
      client_ready_def fifo_ok_def tr_is_open_def)

lemma fifo_ok_delete:
  "fifo_ok s \<Longrightarrow> waiting (myCallQueue s) fn = [] \<Longrightarrow>
   fifo_ok (s\<lparr>myClosures := AList.delete fn (myClosures s)\<rparr>)"
  by (auto simp: fifo_ok_def)

lemma run_closure_result:
  "deserialize_result (cf_archive cfg) (clo_type c) i = Some r \<Longrightarrow> clo_fun c = Some n \<Longrightarrow>
   run_closure U cfg c i s = U (OnResult n r) (s\<lparr>callbacks := callbacks s @ [OnResult n r]\<rparr>)"
  by (simp add: run_closure_def call_closure_def notify_def)

lemma outstanding_upd [simp]:
  "outstanding g (s\<lparr>callbacks := cbs\<rparr>) = outstanding g s"
  "outstanding g (s\<lparr>myTransport := t\<rparr>) = outstanding g s"
  by (simp_all add: outstanding_def)

lemma fifo_ok_upd [simp]:
  "fifo_ok (s\<lparr>callbacks := cbs\<rparr>) = fifo_ok s"
  "fifo_ok (s\<lparr>myTransport := t\<rparr>) = fifo_ok s"
  by (simp_all add: fifo_ok_def)

lemma client_ready_upd [simp]: "client_ready (s\<lparr>callbacks := cbs\<rparr>) = client_ready s"
  by (simp add: client_ready_def)

text \<open>
  C6: A result refines dequeuing. When a readable result for a function arrives, the closure
  at the head of that function's queue, and no other, is called with it, exactly once; it
  runs in a state where its call is no longer outstanding and where the next waiting call, if
  there is one, has already been written to the socket and become the call in progress.
\<close>

theorem dispatch_result_refines_dequeue:
  assumes "cfg_inv cfg s" and "fifo_ok s" and "client_ready s"
    and out: "outstanding fn s = c # cs" and "clo_fun c = Some n"
    and "deserialize_result (cf_archive cfg) (clo_type c) i = Some r"
    and wr: "\<And>a xs. waiting (myCallQueue s) fn = a # xs \<Longrightarrow> write_succeeds cfg (fst a) s"
  shows "\<exists>s1. dispatch_result U cfg fn i s = U (OnResult n r) s1 \<and>
     callbacks s1 = callbacks s @ [OnResult n r] \<and> fifo_ok s1 \<and> client_ready s1 \<and>
     (\<forall>g. outstanding g s1 = (if g = fn then cs else outstanding g s)) \<and>
     myTransport s1 = (case waiting (myCallQueue s) fn of
        [] \<Rightarrow> myTransport s | a # _ \<Rightarrow> myTransport (after_write cfg (fst a) s))"
proof (cases "waiting (myCallQueue s) fn")
  case Nil
  let ?s1 = "s\<lparr>myClosures := AList.delete fn (myClosures s)\<rparr>"
  have c: "map_of (myClosures s) fn = Some c" "cs = []"
    using outstanding_Cons [OF assms(2) out] Nil by auto
  have "outstanding g ?s1 = (if g = fn then cs else outstanding g s)" for g
    using c Nil by (simp add: outstanding_def)
  then show ?thesis
    using c Nil assms(2,3) dispatch_result_idle [OF c(1) Nil, of U cfg i]
      run_closure_result [OF assms(6,5), of U ?s1] fifo_ok_delete [OF assms(2) Nil]
    by (intro exI [of _ "?s1\<lparr>callbacks := callbacks s @ [OnResult n r]\<rparr>"])
       (simp add: client_ready_def)
next
  case (Cons a xs)
  have c: "map_of (myClosures s) fn = Some c" "cs = snd a # map snd xs"
    using outstanding_Cons [OF assms(2) out] Cons by auto
  let ?s1 = "next_call_sent cfg fn a s"
  show ?thesis
    using c Cons assms(2,3) dispatch_result_next [OF c(1) Cons assms(1,3) wr [OF Cons], of U i]
      run_closure_result [OF assms(6,5), of U ?s1]
    by (intro exI [of _ "?s1\<lparr>callbacks := callbacks s @ [OnResult n r]\<rparr>"])
       (simp add: next_call_sent_simps [OF Cons])
qed

theorem dispatch_result_refines_dequeue_witness:
  "\<exists>s1. dispatch_result passive_user sample_cfg ''CalculatorInterface::add'' [0, 0, 0, 0, 0, 42, 0, 0, 0]
          sample_busy = passive_user (OnResult 7 (Result_value 42 Error_none)) s1 \<and>
        outstanding ''CalculatorInterface::add'' s1 = [sample_closure 8]"
proof -
  let ?fn = "''CalculatorInterface::add''"
  have "cfg_inv sample_cfg sample_busy" "fifo_ok sample_busy" "client_ready sample_busy"
    by (simp_all add: client_inv_def queue_ok_def waiting_def call_limit_def fifo_ok_def client_ready_def
        tr_is_open_def sample_busy_def sample_client_eq)
  moreover have "outstanding ?fn sample_busy = [sample_closure 7, sample_closure 8]"
    by (simp add: outstanding_def waiting_def sample_busy_def)
  moreover have "deserialize_result (cf_archive sample_cfg) (clo_type (sample_closure 7))
      [0, 0, 0, 0, 0, 42, 0, 0, 0] = Some (Result_value 42 Error_none)"
    by (simp add: deserialize_result_def load_error_def sample_archive_def take_u32_def result_defs
        sample_closure_def Error_of_message_def Error_none_def)
  moreover have "write_succeeds sample_cfg (fst a) sample_busy"
    if "waiting (myCallQueue sample_busy) ?fn = a # xs" for a xs
    using that
    by (auto simp: waiting_def write_succeeds_def message_with_header_def sample_io_def sample_busy_def
        sample_client_eq sample_sock_def HEADER_SIZE_def Let_def ec_samples ec_ok_def)
  ultimately show ?thesis
    using dispatch_result_refines_dequeue [of sample_cfg sample_busy ?fn "sample_closure 7" "[sample_closure 8]"
      7 "[0, 0, 0, 0, 0, 42, 0, 0, 0]" "Result_value 42 Error_none" passive_user]
    by (auto simp: sample_closure_def)
qed

end
