(* ===== verification/Client_Errors.thy ===== *)
theory Client_Errors
  imports Client_Spec
begin

text \<open>
  The error paths of a client: calls it rejects, writes that fail, connection errors, and
  what becomes of the calls that are outstanding then. The lemmas give the outcome of each
  operation on these paths; the properties say who is told about the error, once, and who is
  not.
\<close>

section \<open>Bounds of every reachable client\<close>

lemma outstanding_bound:
  assumes "cfg_inv cfg s" and "0 < cf_max_calls cfg"
  shows "length (outstanding fn s) \<le> cf_max_calls cfg"
proof -
  have "length (waiting (myCallQueue s) fn) \<le> cf_max_calls cfg - 1"
    using assms(1) by (simp add: client_inv_def queue_ok_def call_limit_def)
  with assms(2) show ?thesis
    by (auto simp: outstanding_def split: option.split)
qed

text \<open>
  C7: In every reachable state, whatever the program does and however deep its closures and
  listeners call the client again, there is at most one closure in progress for each function
  and at most \<open>MaxCallsInProgress\<close> closures outstanding for it in all.
\<close>

theorem reachable_outstanding_bound:
  assumes "client_reach (reacting_user cfg react n) cfg s" and "0 < cf_max_calls cfg"
  shows "distinct (map fst (myClosures s)) \<and> length (outstanding fn s) \<le> cf_max_calls cfg"
proof -
  have "cfg_inv cfg s"
    using reacting.reach_inv assms(1) by blast
  with assms(2) show ?thesis
    by (simp add: outstanding_bound) (simp add: client_inv_def)
qed

theorem reachable_outstanding_bound_witness:
  "\<forall>fn. length (outstanding fn (res_state (client_step (reacting_user sample_cfg (\<lambda>_. []) 2) sample_cfg
       (Program OpenClient) (new_client (new_transport sample_sock) 1)))) \<le> 3"
  using reachable_outstanding_bound [OF reach_step [OF reach_new], of sample_cfg "\<lambda>_. []" 2 "Program OpenClient"
      sample_sock 1]
  by simp

section \<open>Rejected calls\<close>

lemma send_call_rejected:
  assumes "\<not> client_ready s"
  shows "send_call U cfg fn c args s =
    Exn (if tr_is_open (myTransport s)
         then LogicError ''cercall::Client::prepare_call_message(): call from a foreign thread not supported''
         else RuntimeError ''cercall::Client::prepare_call_message: transport to service not opened'') s"
  using assms
  by (auto simp: send_call_def prepare_call_message_def client_ready_def check_thread_id_def)

section \<open>Failed writes\<close>

text \<open>A write of \<open>msg\<close> that the socket refuses with \<open>ec\<close>, and the transport it leaves.\<close>

definition write_fails :: "('k, 'i, 'ty, 'v) client_cfg \<Rightarrow> byte list \<Rightarrow> error_code \<Rightarrow>
    ('k, 'ty, 'v) client \<Rightarrow> bool" where
  "write_fails cfg msg ec s \<longleftrightarrow>
     (case message_with_header (cf_endian cfg) msg of
        Inl e \<Rightarrow> False
      | Inr m \<Rightarrow> (let (ec', k) = io_write (cf_io cfg) m (mySocket (myTransport s));
                     (_, k1) = io_shutdown (cf_io cfg) k
                 in ec' = ec \<and> \<not> ec_ok ec \<and> ec_ok (fst (io_close (cf_io cfg) k1))))"

definition after_failed_write :: "('k, 'i, 'ty, 'v) client_cfg \<Rightarrow> byte list \<Rightarrow> ('k, 'ty, 'v) client \<Rightarrow>
    ('k, 'ty, 'v) client" where
  "after_failed_write cfg msg s =
     (case message_with_header (cf_endian cfg) msg of
        Inl e \<Rightarrow> s
      | Inr m \<Rightarrow> s\<lparr>myTransport := (myTransport s)\<lparr>myState := CLOSED,
           mySocket := snd (io_close (cf_io cfg) (snd (io_shutdown (cf_io cfg)
                         (snd (io_write (cf_io cfg) m (mySocket (myTransport s)))))))\<rparr>\<rparr>)"

lemma after_failed_write_simps [simp]:
  "myClosures (after_failed_write cfg msg s) = myClosures s"
  "myCallQueue (after_failed_write cfg msg s) = myCallQueue s"
  "callbacks (after_failed_write cfg msg s) = callbacks s"
  "outstanding g (after_failed_write cfg msg s) = outstanding g s"
  by (simp_all add: after_failed_write_def outstanding_def split: sum.split)

lemma client_write_fails:
  assumes "client_ready s" and "write_fails cfg msg ec s"
  shows "client_write cfg msg s = Ret (Error_of_code ec) (after_failed_write cfg msg s)"
    and "myState (myTransport (after_failed_write cfg msg s)) = CLOSED"
  using assms
  by (auto simp: client_write_def write_message_with_header_def tr_write_def write_fails_def
      after_failed_write_def tr_close_def client_ready_def tr_is_open_def client_on_disconnected_def
      check_thread_id_def case_prod_beta Let_def split: sum.splits if_splits)

text \<open>
  C12: When the socket refuses the message of a call, the closure of that call is called at
  once with the error of the socket, exactly once, and is not registered as a call in
  progress; the connection is closed, and nothing is said to the closures of other calls,
  which stay outstanding.
\<close>

theorem send_call_write_error:
  assumes "client_ready s" and "\<not> in_keys (full_name cfg fn) (myClosures s)"
    and "write_fails cfg (call_message cfg s fn args) ec s" and "clo_fun c = Some n"
  shows "\<exists>s1 r. send_call U cfg fn c args s = U (OnResult n r) s1 \<and>
     myError r = Error_of_code ec \<and> \<not> Result_bool r \<and>
     callbacks s1 = callbacks s @ [OnResult n r] \<and>
     myClosures s1 = myClosures s \<and> myCallQueue s1 = myCallQueue s \<and>
     myState (myTransport s1) = CLOSED"
proof -
  let ?m = "call_message cfg s fn args"
  let ?r = "Result_error (map_option (value_init (cf_archive cfg)) (clo_type c)) (Error_of_code ec)"
  have "\<not> ec_ok ec"
    using assms(3) by (auto simp: write_fails_def case_prod_beta Let_def split: sum.splits)
  then show ?thesis
    using assms client_write_fails [OF assms(1,3)]
    by (intro exI [of _ "(after_failed_write cfg ?m s)\<lparr>callbacks := callbacks s @ [OnResult n ?r]\<rparr>"]
          exI [of _ ?r])
       (simp add: send_call_def prepare_ready call_closure_def notify_def Result_bool_def result_defs)
qed

lemma sample_broken_ready: "client_ready sample_broken"
  by (simp add: client_ready_def tr_is_open_def sample_broken_def sample_client_eq)

lemma sample_broken_fails:
  "4 \<le> length msg \<Longrightarrow> length msg \<le> 1000 \<Longrightarrow> write_fails sample_cfg msg ec_reset sample_broken"
  by (simp add: write_fails_def message_with_header_def sample_io_def sample_broken_def HEADER_SIZE_def
      Let_def ec_samples ec_ok_def)

theorem send_call_write_error_witness:
  "\<exists>s1 r. send_call passive_user sample_cfg ''add'' (sample_closure 7) [1, 2] sample_broken =
            passive_user (OnResult 7 r) s1 \<and> myError r = Error_of_code ec_reset \<and>
          myState (myTransport s1) = CLOSED"
proof -
  have len: "4 \<le> length (call_message sample_cfg sample_broken ''add'' [1, 2])"
    "length (call_message sample_cfg sample_broken ''add'' [1, 2]) \<le> 1000"
    by (simp_all add: serialize_defs sample_archive_def myFuncPrefix_def sample_cfg_def HEADER_SIZE_def)
  from send_call_write_error [OF sample_broken_ready _ sample_broken_fails [OF len], of "sample_closure 7" 7 passive_user]
  show ?thesis
    by (auto simp: sample_broken_def sample_client_eq sample_closure_def)
qed

text \<open>
  A call that waited behind another is treated differently: when its message is refused
  as it is taken from the queue, the error is dropped. Its closure becomes the call in
  progress on a connection that is now closed, and it has not been called.
\<close>

lemma queued_call_write_error_dropped:
  assumes "client_ready s" and "write_fails cfg msg ec s"
  shows "\<exists>s1. run_queued_call cfg fn (msg, c) s = Ret () s1 \<and>
     myState (myTransport s1) = CLOSED \<and> map_of (myClosures s1) fn = Some c \<and>
     callbacks s1 = callbacks s"
  using client_write_fails [OF assms]
  by (simp add: run_queued_call_def enqueue_closure_def)

section \<open>Connection errors\<close>

text \<open>
  The bytes of the placeholder message that carries an error to the closures, and the result
  each closure reads from it.
\<close>

definition error_message :: "('k, 'i, 'ty, 'v) client_cfg \<Rightarrow> cerror \<Rightarrow> ('k, 'ty, 'v) client \<Rightarrow>
    byte list" where
  "error_message cfg e s =
     strip_header (serialize_call_result (cf_archive cfg) (myArchives s) ''placeholder''
       (Result_error None e))"

definition error_result :: "('k, 'i, 'ty, 'v) client_cfg \<Rightarrow> cerror \<Rightarrow> 'ty closure \<Rightarrow> 'v result" where
  "error_result cfg e c = received_result (cf_archive cfg) (clo_type c) (Result_error None e)"

lemma dispatch_error_to_closure_reads:
  assumes "archive_ok (cf_archive cfg) tyof" and "Error_bool e"
    and "myArchives s0 = myArchives s"
  shows "dispatch_error_to_closure U cfg (error_message cfg e s0) c s =
         call_closure U c (error_result cfg e c) s"
proof -
  obtain i where "deserialize_call (cf_archive cfg) (myArchives s0) (error_message cfg e s0)
      = Some (''placeholder'', i)" and i: "reads (cf_archive cfg) tyof i (save_result (Result_error None e))"
    using deserialize_call_items [OF assms(1), of "myArchives s0" "''placeholder''"]
    unfolding error_message_def serialize_call_result_def by blast
  moreover have "result_has_type tyof (clo_type c) (Result_error None e)"
    using assms(2) by (simp add: result_has_type_def Error_bool_def result_defs)
  then have "deserialize_result (cf_archive cfg) (clo_type c) i = Some (error_result cfg e c)"
    unfolding error_result_def by (rule load_result_reads [OF i])
  ultimately show ?thesis
    using assms(3) by (simp add: dispatch_error_to_closure_def run_closure_def)
qed

lemma dispatch_errors_passive:
  assumes "archive_ok (cf_archive cfg) tyof" and "Error_bool e"
    and "\<forall>(fn, c) \<in> set cs. fn \<noteq> '''' \<and> clo_fun c \<noteq> None"
    and "myArchives s0 = myArchives s"
  shows "dispatch_errors passive_user cfg (error_message cfg e s0) cs s =
         Ret () (s\<lparr>callbacks := callbacks s @
           map (\<lambda>(fn, c). OnResult (the (clo_fun c)) (error_result cfg e c)) cs\<rparr>)"
  using assms(3,4)
proof (induction cs arbitrary: s)
  case (Cons p cs)
  obtain fn c where p: "p = (fn, c)" by (cases p)
  with Cons.prems(1) obtain n where n: "fn \<noteq> ''''" "clo_fun c = Some n" by auto
  let ?s1 = "s\<lparr>callbacks := callbacks s @ [OnResult n (error_result cfg e c)]\<rparr>"
  have "dispatch_error_to_closure passive_user cfg (error_message cfg e s0) c s = Ret () ?s1"
    using dispatch_error_to_closure_reads [OF assms(1,2) Cons.prems(2)] n(2)
    by (simp add: call_closure_def notify_def passive_user_def)
  moreover have "dispatch_errors passive_user cfg (error_message cfg e s0) cs ?s1 =
      Ret () (?s1\<lparr>callbacks := callbacks ?s1 @
        map (\<lambda>(fn, c). OnResult (the (clo_fun c)) (error_result cfg e c)) cs\<rparr>)"
    by (rule Cons.IH) (use Cons.prems in auto)
  ultimately show ?case
    using p n by simp
qed simp

text \<open>What a connection error does to the closures of a client whose user code is passive.\<close>

definition told_error :: "('k, 'i, 'ty, 'v) client_cfg \<Rightarrow> cerror \<Rightarrow> ('k, 'ty, 'v) client \<Rightarrow>
    ('k, 'ty, 'v) client" where
  "told_error cfg e s = s\<lparr>callbacks := callbacks s @
     map (\<lambda>(fn, c). OnResult (the (clo_fun c)) (error_result cfg e c)) (myClosures s),
     myClosures := []\<rparr>"

lemma connection_error_passive:
  assumes "archive_ok (cf_archive cfg) tyof" and "Error_bool e"
    and "\<forall>(fn, c) \<in> set (myClosures s). fn \<noteq> '''' \<and> clo_fun c \<noteq> None"
    and "runningThread s = myThreadId s"
  shows "client_on_connection_error passive_user cfg e s = Ret () (told_error cfg e s)"
proof -
  have "dispatch_errors passive_user cfg (error_message cfg e s) (myClosures s) s =
      Ret () (s\<lparr>callbacks := callbacks s @
        map (\<lambda>(fn, c). OnResult (the (clo_fun c)) (error_result cfg e c)) (myClosures s)\<rparr>)"
    by (rule dispatch_errors_passive [OF assms(1,2,3) refl])
  with assms(4) show ?thesis
    by (simp add: client_on_connection_error_def check_thread_id_def dispatch_connection_error_def
        Let_def told_error_def error_message_def)
qed

text \<open>A socket that closes without an error, so that \<open>close\<close> does not throw.\<close>

definition closes_cleanly :: "'k asio \<Rightarrow> 'k transport \<Rightarrow> bool" where
  "closes_cleanly io t \<longleftrightarrow> ec_ok (fst (io_close io (snd (io_shutdown io (mySocket t)))))"

definition after_close :: "'k asio \<Rightarrow> 'k transport \<Rightarrow> 'k transport" where
  "after_close io t =
     t\<lparr>myState := CLOSED, mySocket := snd (io_close io (snd (io_shutdown io (mySocket t))))\<rparr>"

lemma client_close_clean:
  assumes "client_ready s" and "closes_cleanly io (myTransport s)"
  shows "tr_close io client_lens client_on_disconnected s =
         Ret () (s\<lparr>myTransport := after_close io (myTransport s)\<rparr>)"
  using assms
  by (auto simp: tr_close_def client_ready_def tr_is_open_def closes_cleanly_def after_close_def
      case_prod_beta Let_def client_on_disconnected_def check_thread_id_def)

lemma client_close_not_open:
  "\<not> tr_is_open (myTransport s) \<Longrightarrow> tr_close io client_lens d s = Ret () s"
  by (simp add: tr_close_def tr_is_open_def)

lemma error_result_of_code:
  "\<not> ec_ok ec \<Longrightarrow> error_result cfg (Error_of_code ec) c =
     \<lparr>res_value = map_option (value_init (cf_archive cfg)) (clo_type c),
      myError = Error_of_message (ec_value ec) (ec_message ec)\<rparr>"
  by (simp add: error_result_def received_result_def result_defs Error_of_code_def ec_ok_def)

lemma told_error_simps [simp]:
  "myTransport (told_error cfg e s) = myTransport s"
  "myCallQueue (told_error cfg e s) = myCallQueue s"
  "myClosures (told_error cfg e s) = []"
  "client_ready (told_error cfg e s) = client_ready s"
  by (simp_all add: told_error_def client_ready_def)

text \<open>The closures of a client are user functions registered under a name.\<close>

definition closures_callable :: "('k, 'ty, 'v) client \<Rightarrow> bool" where
  "closures_callable s \<longleftrightarrow> (\<forall>(fn, c) \<in> set (myClosures s). fn \<noteq> '''' \<and> clo_fun c \<noteq> None)"

lemma handle_recv_error_passive:
  assumes "archive_ok (cf_archive cfg) tyof" and "closures_callable s" and "client_ready s"
    and "myListener (myTransport s)" and "\<not> ec_ok ec"
  shows "client_handle_recv passive_user cfg ec n s =
    (if is_recoverable (ec_value ec) then Ret () (told_error cfg (Error_of_code ec) s)
     else tr_close (cf_io cfg) client_lens client_on_disconnected (told_error cfg (Error_of_code ec) s))"
proof -
  have "client_on_connection_error passive_user cfg (Error_of_code ec) s =
      Ret () (told_error cfg (Error_of_code ec) s)"
    using assms by (intro connection_error_passive [OF assms(1)])
      (auto simp: closures_callable_def client_ready_def)
  moreover have "myState (myTransport s) = OPEN"
    using assms(3) by (simp add: client_ready_def tr_is_open_def)
  ultimately show ?thesis
    using assms(4,5) by (simp add: client_handle_recv_def handle_recv_def client_listener_def)
qed

text \<open>
  C9: When a read fails for good, every closure in progress is called exactly once, in the
  order of the map, with the code and text of the error and the value-initialised result of
  its type; no call is in progress any more and the connection is closed. The closures that
  wait in the queue are neither called nor removed.
\<close>

theorem connection_lost:
  assumes "archive_ok (cf_archive cfg) tyof" and "closures_callable s" and "client_ready s"
    and "myListener (myTransport s)" and "\<not> ec_ok ec" and "\<not> is_recoverable (ec_value ec)"
    and "closes_cleanly (cf_io cfg) (myTransport s)"
  shows "\<exists>s1. client_handle_recv passive_user cfg ec n s = Ret () s1 \<and>
     callbacks s1 = callbacks s @ map (\<lambda>(fn, c). OnResult (the (clo_fun c))
        \<lparr>res_value = map_option (value_init (cf_archive cfg)) (clo_type c),
         myError = Error_of_message (ec_value ec) (ec_message ec)\<rparr>) (myClosures s) \<and>
     myClosures s1 = [] \<and> myCallQueue s1 = myCallQueue s \<and> myState (myTransport s1) = CLOSED"
  using handle_recv_error_passive [OF assms(1-5)] assms(3,5,6,7)
    client_close_clean [of "told_error cfg (Error_of_code ec) s" "cf_io cfg"]
  by (simp add: error_result_of_code)
     (simp add: told_error_def after_close_def error_result_of_code)

lemma sample_busy_ready:
  "closures_callable sample_busy" "client_ready sample_busy" "myListener (myTransport sample_busy)"
  "closes_cleanly sample_io (myTransport sample_busy)"
  by (simp_all add: closures_callable_def client_ready_def tr_is_open_def closes_cleanly_def sample_io_def
      sample_busy_def sample_client_eq sample_closure_def ec_samples ec_ok_def)

theorem connection_lost_witness:
  "\<exists>s1. client_handle_recv passive_user sample_cfg ec_reset 0 sample_busy = Ret () s1 \<and>
     callbacks s1 = [OnResult 7 \<lparr>res_value = Some 0,
        myError = Error_of_message 104 ''Connection reset by peer''\<rparr>] \<and>
     waiting (myCallQueue s1) ''CalculatorInterface::add'' = [([0, 0, 0, 0, 5], sample_closure 8)]"
  using connection_lost [of sample_cfg "\<lambda>_. ()" sample_busy ec_reset 0] sample_archive_ok sample_busy_ready
  by (auto simp: ec_samples ec_ok_def is_recoverable_def errno_defs sample_busy_def sample_client_eq
      sample_closure_def sample_archive_def waiting_def)

text \<open>
  A read error the transport calls recoverable is told to every closure in progress as
  well, and these calls are forgotten, but the transport is left as it was: open, and with no
  new read started, so that nothing is received on the connection any more.
\<close>

lemma recoverable_error_stalls:
  assumes "archive_ok (cf_archive cfg) tyof" and "closures_callable s" and "client_ready s"
    and "myListener (myTransport s)" and "\<not> ec_ok ec" and "is_recoverable (ec_value ec)"
  shows "\<exists>s1. client_handle_recv passive_user cfg ec n s = Ret () s1 \<and>
     length (callbacks s1) = length (callbacks s) + length (myClosures s) \<and>
     myClosures s1 = [] \<and> tr_is_open (myTransport s1) \<and> myTransport s1 = myTransport s"
  using handle_recv_error_passive [OF assms(1-5)] assms(3,6)
  by (simp add: client_ready_def) (simp add: told_error_def)

end
