(* ===== verification/Client_Faults.thy ===== *)
theory Client_Faults
  imports Client_Errors
begin

text \<open>
  What a client does after its connection is gone, and what goes wrong when user code uses the
  client from its callbacks or when several listeners share an event.
\<close>

section \<open>A client whose connection is closed\<close>

fun is_result :: "'v callback \<Rightarrow> bool" where
  "is_result (OnResult n r) = True"
| "is_result _ = False"

definition result_callbacks :: "('k, 'ty, 'v) client \<Rightarrow> 'v callback list" where
  "result_callbacks s = filter is_result (callbacks s)"

definition closed_idle :: "(byte list \<times> 'ty closure) call_queue \<Rightarrow> 'v callback list \<Rightarrow>
    ('k, 'ty, 'v) client \<Rightarrow> bool" where
  "closed_idle q rs s \<longleftrightarrow> myState (myTransport s) = CLOSED \<and> myClosures s = [] \<and>
     myCallQueue s = q \<and> result_callbacks s = rs"

lemma closed_idle_upd [simp]:
  "closed_idle q rs (s\<lparr>myMessenger := m\<rparr>) = closed_idle q rs s"
  "closed_idle q rs (s\<lparr>myClosures := []\<rparr>) \<longleftrightarrow>
     myState (myTransport s) = CLOSED \<and> myCallQueue s = q \<and> result_callbacks s = rs"
  "closed_idle q rs (s\<lparr>myEventListeners := ls\<rparr>) = closed_idle q rs s"
  "closed_idle q rs (s\<lparr>runningThread := th\<rparr>) = closed_idle q rs s"
  "\<not> is_result cb \<Longrightarrow> closed_idle q rs (s\<lparr>callbacks := callbacks s @ [cb]\<rparr>) = closed_idle q rs s"
  "myState t = myState (myTransport s) \<Longrightarrow> closed_idle q rs (s\<lparr>myTransport := t\<rparr>) = closed_idle q rs s"
  by (auto simp: closed_idle_def result_callbacks_def)

lemma closed_idle_not_open: "closed_idle q rs s \<Longrightarrow> \<not> tr_is_open (myTransport s)"
  and closed_idle_not_ready: "closed_idle q rs s \<Longrightarrow> \<not> client_ready s"
  by (simp_all add: closed_idle_def tr_is_open_def client_ready_def)

lemma closed_idle_listeners:
  "closed_idle q rs s \<Longrightarrow> always (closed_idle q rs) (notify_listeners passive_user poly ls ev s)"
  by (induction ls arbitrary: ev s) (auto simp: notify_def passive_user_def)

lemma closed_idle_handler:
  assumes "closed_idle q rs s"
  shows "always (closed_idle q rs) (message_handler passive_user cfg msg s)"
proof -
  have "myClosures s = []"
    using assms by (simp add: closed_idle_def)
  with assms show ?thesis
    by (auto simp: message_handler_def dispatch_event_def dispatch_result_def closed_idle_listeners
        split: option.split)
qed

lemma closed_idle_incoming:
  assumes "closed_idle q rs s"
  shows "always (closed_idle q rs) (client_on_incoming_data passive_user cfg n s)"
proof -
  have "always (closed_idle q rs)
      (case messenger_read (cf_endian cfg) (client_reader passive_user cfg) n 0 (s, myMessenger s) of
         Ret b (s2, m) \<Rightarrow> Ret b (s2\<lparr>myMessenger := m\<rparr>)
       | Exn e (s2, m) \<Rightarrow> Exn e (s2\<lparr>myMessenger := m\<rparr>))"
    using messenger_read_always [of "closed_idle q rs" "client_reader passive_user cfg" "(s, myMessenger s)"
        "cf_endian cfg" n 0] assms
    by (auto simp: client_reader_def closed_idle_handler split: res.split prod.split)
  with assms show ?thesis
    by (simp add: client_on_incoming_data_def check_thread_id_def)
qed

lemma closed_idle_error:
  "closed_idle q rs s \<Longrightarrow> always (closed_idle q rs) (client_on_connection_error passive_user cfg e s)"
  by (auto simp: client_on_connection_error_def check_thread_id_def dispatch_connection_error_def
      Let_def closed_idle_def result_callbacks_def)

lemma closed_idle_close:
  "closed_idle q rs s \<Longrightarrow> tr_close io client_lens d s = Ret () s"
  by (simp add: client_close_not_open closed_idle_not_open)

lemma closed_idle_recv:
  "closed_idle q rs s \<Longrightarrow> always (closed_idle q rs) (client_handle_recv passive_user cfg ec n s)"
  unfolding client_handle_recv_def handle_recv_def client_listener_def
  by (auto intro!: always_bind always_o_assert closed_idle_error closed_idle_incoming
      simp: closed_idle_close)

lemma closed_idle_open_failed:
  "closed_idle q rs s \<Longrightarrow> always (closed_idle q rs)
     (open_failed client_lens (client_listener passive_user cfg) (\<lambda>r. notify passive_user (OnOpen cl r)) ec s)"
  unfolding open_failed_def client_listener_def
  by (auto intro!: always_bind closed_idle_error simp: notify_def passive_user_def)

lemma closed_idle_connect:
  "closed_idle q rs s \<Longrightarrow> always (closed_idle q rs)
     (handle_connect io client_lens (client_listener passive_user cfg)
        (\<lambda>r. notify passive_user (OnOpen cl r)) ec s)"
  by (auto simp: handle_connect_def closed_idle_open_failed tr_open_def o_assert_def closed_idle_def)

lemma closed_idle_do:
  assumes "closed_idle q rs s"
  shows "always (closed_idle q rs) (client_do passive_user cfg op s)"
proof -
  have st: "myState (myTransport s) = CLOSED"
    using assms by (simp add: closed_idle_def)
  note rejected = send_call_rejected [OF closed_idle_not_ready [OF assms]]
  have "always (closed_idle q rs) (send_call_one_way cfg fn args s)" for fn args
    using assms by (simp add: send_call_one_way_def prepare_call_message_def closed_idle_not_open)
  then show ?thesis
    using assms st
    by (cases op)
       (auto simp: rejected always_ignore is_call_in_progress_def check_thread_id_def
          open_client_def client_open_def open_client_async_def client_open_async_def o_assert_def
          notify_def passive_user_def close_client_def closed_idle_close add_listener_def
          remove_listener_def)
qed

lemma closed_idle_step:
  "closed_idle q rs s \<Longrightarrow> always (closed_idle q rs) (client_step passive_user cfg ev s)"
  by (cases ev)
     (auto simp: client_step_def closed_idle_do client_receive_def recv_completed_def
        client_handle_recv_def [symmetric] closed_idle_recv handle_resolve_def closed_idle_open_failed
        closed_idle_connect)

text \<open>A run: the states an event loop and a program take a client through.\<close>

fun client_run :: "('k, 'ty, 'v) user \<Rightarrow> ('k, 'i, 'ty, 'v) client_cfg \<Rightarrow>
    ('ty, 'v) client_event list \<Rightarrow> ('k, 'ty, 'v) client \<Rightarrow> ('k, 'ty, 'v) client" where
  "client_run U cfg [] s = s"
| "client_run U cfg (ev # evs) s = client_run U cfg evs (res_state (client_step U cfg ev s))"

lemma closed_idle_run: "closed_idle q rs s \<Longrightarrow> closed_idle q rs (client_run passive_user cfg evs s)"
proof (induction evs arbitrary: s)
  case (Cons ev evs)
  then show ?case using closed_idle_step [of q rs s cfg ev] by (simp add: always_def)
qed simp

text \<open>
  C13: After a connection error the closures that were waiting in the queue are lost. Once the
  connection is closed and no call is in progress, no sequence of program calls and
  completions, reopening included, ever calls a result closure again; the queue still holds
  the closures that were waiting.
\<close>

theorem waiting_calls_stranded:
  assumes "myState (myTransport s) = CLOSED" and "myClosures s = []"
  shows "result_callbacks (client_run passive_user cfg evs s) = result_callbacks s \<and>
         myCallQueue (client_run passive_user cfg evs s) = myCallQueue s"
  using closed_idle_run [of "myCallQueue s" "result_callbacks s" s cfg evs] assms
  by (simp add: closed_idle_def)

theorem waiting_calls_stranded_witness:
  "let s = res_state (client_handle_recv passive_user sample_cfg ec_reset 0 sample_busy)
   in \<forall>evs. waiting (myCallQueue (client_run passive_user sample_cfg evs s)) ''CalculatorInterface::add'' \<noteq> [] \<and>
        length (result_callbacks (client_run passive_user sample_cfg evs s)) = 1"
proof -
  have "client_handle_recv passive_user sample_cfg ec_reset 0 sample_busy =
      tr_close sample_io client_lens client_on_disconnected
        (told_error sample_cfg (Error_of_code ec_reset) sample_busy)"
    using handle_recv_error_passive [of sample_cfg "\<lambda>_. ()" sample_busy ec_reset 0] sample_archive_ok
      sample_busy_ready
    by (simp add: ec_samples ec_ok_def is_recoverable_def errno_defs)
  moreover have "tr_close sample_io client_lens client_on_disconnected
        (told_error sample_cfg (Error_of_code ec_reset) sample_busy) =
      Ret () ((told_error sample_cfg (Error_of_code ec_reset) sample_busy)
        \<lparr>myTransport := after_close sample_io (myTransport sample_busy)\<rparr>)" (is "_ = Ret () ?s")
    using client_close_clean [of "told_error sample_cfg (Error_of_code ec_reset) sample_busy" sample_io]
      sample_busy_ready
    by simp
  moreover have "myState (myTransport ?s) = CLOSED" "myClosures ?s = []"
    "waiting (myCallQueue ?s) ''CalculatorInterface::add'' \<noteq> []" "length (result_callbacks ?s) = 1"
    by (simp_all add: after_close_def result_callbacks_def told_error_def sample_busy_def waiting_def
        sample_client_eq)
  ultimately show ?thesis
    using waiting_calls_stranded [of ?s sample_cfg] by simp
qed

text \<open>
  Closing a client drops its calls in silence: the read that is cancelled by the close is
  not reported, so the state after its completion is the state \<open>close\<close> left, with every
  closure still outstanding and none of them called.
\<close>

lemma close_drops_calls:
  assumes "client_ready s" and "closes_cleanly (cf_io cfg) (myTransport s)"
    and "operation_aborted ec"
  shows "\<exists>s1. close_client cfg s = Ret () s1 \<and> client_handle_recv U cfg ec n s1 = Ret () s1 \<and>
     myState (myTransport s1) = CLOSED \<and> callbacks s1 = callbacks s \<and>
     (\<forall>fn. outstanding fn s1 = outstanding fn s)"
proof -
  let ?s1 = "s\<lparr>myTransport := after_close (cf_io cfg) (myTransport s)\<rparr>"
  have "close_client cfg s = Ret () ?s1"
    using assms(1) client_close_clean [OF assms(1,2)]
    by (simp add: close_client_def check_thread_id_def client_ready_def)
  moreover have "\<not> ec_ok ec"
    using assms(3) by (simp add: operation_aborted_def ec_ok_def errno_defs)
  then have "client_handle_recv U cfg ec n ?s1 = Ret () ?s1"
    using assms(3) by (simp add: client_handle_recv_def handle_recv_def after_close_def
        client_close_not_open tr_is_open_def)
  ultimately show ?thesis
    by (intro exI [of _ ?s1]) (simp add: after_close_def)
qed

section \<open>User code that calls the client from an error closure\<close>



section \<open>Events\<close>

lemma notify_listeners_passive:
  "notify_listeners passive_user poly ls ev s =
   Ret () (s\<lparr>callbacks := callbacks s @ (case ls of [] \<Rightarrow> []
     | l # ls' \<Rightarrow> OnEvent l ev # map (\<lambda>l. OnEvent l (if poly then None else ev)) ls')\<rparr>)"
proof (induction ls arbitrary: ev s)
  case (Cons l ls)
  have "notify_listeners passive_user poly (l # ls) ev s =
      notify_listeners passive_user poly ls (if poly then None else ev)
        (s\<lparr>callbacks := callbacks s @ [OnEvent l ev]\<rparr>)"
    by (simp add: notify_def passive_user_def)
  then show ?case
    unfolding Cons.IH by (auto split: list.split)
qed simp

text \<open>
  C16: Every listener is notified of a broadcast event, in the order of registration, once for
  each registration. A non-polymorphic event reaches all of them; of a polymorphic event the
  first listener gets the object and each later one a null pointer.
\<close>

theorem event_reaches_listeners:
  assumes "cf_event cfg = Some (ty, poly)"
    and "deserialize_event (cf_archive cfg) ty i = Some ev"
  shows "dispatch_event passive_user cfg i s =
    Ret () (s\<lparr>callbacks := callbacks s @
      map (\<lambda>k. OnEvent (myEventListeners s ! k) (if poly \<and> 0 < k then None else Some ev))
        [0 ..< length (myEventListeners s)]\<rparr>)"
proof (cases "myEventListeners s")
  case (Cons l ls)
  have "map (\<lambda>k. OnEvent ((l # ls) ! k) (if poly \<and> 0 < k then None else Some ev)) [0 ..< Suc (length ls)] =
      OnEvent l (Some ev) # map (\<lambda>l. OnEvent l (if poly then None else Some ev)) ls"
    by (rule nth_equalityI) (auto simp: nth_Cons' nth_append simp del: upt_Suc)
  with assms Cons show ?thesis
    by (simp add: dispatch_event_def notify_listeners_passive del: upt_Suc notify_listeners.simps)
qed (use assms in \<open>simp add: dispatch_event_def\<close>)

theorem event_reaches_listeners_witness:
  "dispatch_event passive_user sample_cfg [5, 0, 0, 0]
     (add_listener 2 (add_listener 1 sample_client)) =
   Ret () ((add_listener 2 (add_listener 1 sample_client))
     \<lparr>callbacks := [OnEvent 1 (Some 5), OnEvent 2 None]\<rparr>)"
  using event_reaches_listeners [of sample_cfg "()" True "[5, 0, 0, 0]" 5
      "add_listener 2 (add_listener 1 sample_client)"]
  by (simp add: deserialize_event_def sample_archive_def take_u32_def add_listener_def sample_client_eq
      upt_rec)

end
