(* ===== verification/Client_Stream.thy ===== *)
theory Client_Stream
  imports Client_Faults
begin

text \<open>
  From bytes to messages: a client whose socket delivers the frames of some messages, cut into
  pieces in any way, handles exactly these messages, one after the other.
\<close>

definition at_header :: "('k, 'ty, 'v) client \<Rightarrow> bool" where
  "at_header s \<longleftrightarrow> myReceiveState (myMessenger s) = HEADER \<and>
     length (myBuffer (myTransport s)) = HEADER_SIZE"

definition client_pump :: "('k, 'ty, 'v) user \<Rightarrow> ('k, 'i, 'ty, 'v) client_cfg \<Rightarrow> byte list \<Rightarrow>
    ('k, 'ty, 'v) client \<Rightarrow> (byte list, ('k, 'ty, 'v) client) res" where
  "client_pump U cfg = pump (cf_io cfg) client_lens (client_listener U cfg)"

definition client_feed :: "('k, 'ty, 'v) user \<Rightarrow> ('k, 'i, 'ty, 'v) client_cfg \<Rightarrow> byte list list \<Rightarrow>
    ('k, 'ty, 'v) client \<Rightarrow> (byte list, ('k, 'ty, 'v) client) res" where
  "client_feed U cfg cs s = feed (cf_io cfg) client_lens (client_listener U cfg) cs [] s"

text \<open>
  The specification of receiving one message: the body is asked for, stored and handled, and
  the next header is asked for. A client that may not receive fails before that.
\<close>

definition msg_state :: "recv_state \<Rightarrow> byte list \<Rightarrow> messenger" where
  "msg_state st body = \<lparr>myReceiveState = st, myIncomingMsgSize = word_of_nat (length body)\<rparr>"

definition body_received :: "('k, 'i, 'ty, 'v) client_cfg \<Rightarrow> byte list \<Rightarrow> ('k, 'ty, 'v) client \<Rightarrow>
    ('k, 'ty, 'v) client" where
  "body_received cfg body s =
     s\<lparr>myTransport := (myTransport s)
         \<lparr>myBuffer := body, mySocket := io_async_read (cf_io cfg) (length body) (mySocket (myTransport s))\<rparr>,
       myMessenger := msg_state MESSAGE body\<rparr>"

definition receive_message :: "('k, 'ty, 'v) user \<Rightarrow> ('k, 'i, 'ty, 'v) client_cfg \<Rightarrow> byte list \<Rightarrow>
    ('k, 'ty, 'v) client \<Rightarrow> (unit, ('k, 'ty, 'v) client) res" where
  "receive_message U cfg body s =
     (case message_handler U cfg body (body_received cfg body s) of
        Ret _ s1 \<Rightarrow> Ret () (s1\<lparr>myTransport := tr_read (cf_io cfg) HEADER_SIZE (myTransport s1),
                              myMessenger := msg_state HEADER body\<rparr>)
      | Exn e s1 \<Rightarrow> Exn e (s1\<lparr>myMessenger := msg_state MESSAGE body\<rparr>))"

text \<open>Receiving needs a listener and the client's thread; user code could take both away.\<close>

definition can_receive :: "('k, 'ty, 'v) client \<Rightarrow> bool" where
  "can_receive s \<longleftrightarrow> myListener (myTransport s) \<and> runningThread s = myThreadId s"

fun receive_messages :: "('k, 'ty, 'v) user \<Rightarrow> ('k, 'i, 'ty, 'v) client_cfg \<Rightarrow> byte list list \<Rightarrow>
    ('k, 'ty, 'v) client \<Rightarrow> (unit, ('k, 'ty, 'v) client) res" where
  "receive_messages U cfg [] s = Ret () s"
| "receive_messages U cfg (m # ms) s =
     bind_res (receive_message U cfg m s) (\<lambda>_. receive_messages U cfg ms)"

section \<open>One frame\<close>

lemma client_receive_eq:
  assumes "can_receive s"
  shows "client_receive U cfg data s =
    (let s0 = s\<lparr>myTransport := (myTransport s)\<lparr>myBuffer := data\<rparr>\<rparr>
     in case messenger_read (cf_endian cfg) (client_reader U cfg) (length data) 0 (s0, myMessenger s0) of
       Ret b (s2, m) \<Rightarrow> Ret () (s2\<lparr>myMessenger := m\<rparr>)
     | Exn e (s2, m) \<Rightarrow> Exn e (s2\<lparr>myMessenger := m\<rparr>))"
  using assms
  by (simp add: client_receive_def recv_completed_def handle_recv_def ec_ok_def can_receive_def
      client_listener_def client_on_incoming_data_def check_thread_id_def Let_def
      split: res.split prod.split)

lemma client_receive_header:
  assumes "can_receive s" and "at_header s" and "body_ok body"
  shows "client_receive U cfg (store_u32 (cf_endian cfg) (word_of_nat (length body))) s =
    Ret () (s\<lparr>myTransport := tr_read (cf_io cfg) (length body)
                 ((myTransport s)\<lparr>myBuffer := store_u32 (cf_endian cfg) (word_of_nat (length body))\<rparr>),
              myMessenger := msg_state MESSAGE body\<rparr>)"
proof -
  let ?h = "store_u32 (cf_endian cfg) (word_of_nat (length body))"
  let ?s0 = "s\<lparr>myTransport := (myTransport s)\<lparr>myBuffer := ?h\<rparr>\<rparr>"
  have size: "unat (word_of_nat (length body) :: u32) = length body"
    using assms(3) by (simp add: body_ok_def HEADER_SIZE_def unat_of_nat)
  then have "(word_of_nat (length body) :: u32) \<noteq> 0"
    using assms(3) by (auto simp: body_ok_def)
  then have "messenger_read (cf_endian cfg) (client_reader U cfg) HEADER_SIZE 0 (?s0, myMessenger ?s0) =
      Ret HEADER_SIZE (rd_read (client_reader U cfg) (length body) ?s0, msg_state MESSAGE body)"
    using assms(2) size
      messenger_read_header [of "myMessenger ?s0" "client_reader U cfg" ?s0 "cf_endian cfg" 0]
    by (simp add: at_header_def client_reader_def get_read_data_def HEADER_SIZE_def msg_state_def)
  moreover have "length ?h = HEADER_SIZE"
    by (simp add: HEADER_SIZE_def)
  ultimately show ?thesis
    by (simp add: client_receive_eq [OF assms(1)] Let_def client_reader_def)
qed

lemma client_receive_body:
  assumes "can_receive s" and "myMessenger s = msg_state MESSAGE body" and "body_ok body"
  shows "client_receive U cfg body s =
    (case message_handler U cfg body (s\<lparr>myTransport := (myTransport s)\<lparr>myBuffer := body\<rparr>\<rparr>) of
        Ret _ s1 \<Rightarrow> Ret () (s1\<lparr>myTransport := tr_read (cf_io cfg) HEADER_SIZE (myTransport s1),
                              myMessenger := msg_state HEADER body\<rparr>)
      | Exn e s1 \<Rightarrow> Exn e (s1\<lparr>myMessenger := msg_state MESSAGE body\<rparr>))"
proof -
  let ?s0 = "s\<lparr>myTransport := (myTransport s)\<lparr>myBuffer := body\<rparr>\<rparr>"
  have size: "unat (word_of_nat (length body) :: u32) = length body"
    using assms(3) by (simp add: body_ok_def HEADER_SIZE_def unat_of_nat)
  have "messenger_read (cf_endian cfg) (client_reader U cfg) (length body) 0 (?s0, msg_state MESSAGE body) =
      (case message_handler U cfg body ?s0 of
          Exn e s1 \<Rightarrow> Exn e (s1, msg_state MESSAGE body)
        | Ret _ s1 \<Rightarrow> Ret (length body) (rd_read (client_reader U cfg) HEADER_SIZE s1, msg_state HEADER body))"
    using size messenger_read_message [of "msg_state MESSAGE body" "client_reader U cfg" ?s0 "cf_endian cfg" 0]
    by (simp add: client_reader_def get_read_data_def msg_state_def cong: res.case_cong)
  then show ?thesis
    using assms(2)
    by (simp add: client_receive_eq [OF assms(1)] Let_def client_reader_def split: res.split)
qed

section \<open>Many frames\<close>

lemma client_pump_step:
  assumes "length (myBuffer (myTransport s)) = length a" and "a \<noteq> []"
  shows "client_pump U cfg (a @ bs) s =
         bind_res (client_receive U cfg a s) (\<lambda>_ s1. client_pump U cfg bs s1)"
  using assms unfolding client_pump_def client_receive_def
  by (subst pump.simps) (simp add: Let_def)

text \<open>The two reads of a frame, the size and then the body.\<close>

abbreviation header_received :: "('k, 'i, 'ty, 'v) client_cfg \<Rightarrow> byte list \<Rightarrow> ('k, 'ty, 'v) client \<Rightarrow>
    ('k, 'ty, 'v) client" where
  "header_received cfg body s \<equiv>
     s\<lparr>myTransport := tr_read (cf_io cfg) (length body)
          ((myTransport s)\<lparr>myBuffer := store_u32 (cf_endian cfg) (word_of_nat (length body))\<rparr>),
       myMessenger := msg_state MESSAGE body\<rparr>"

lemma client_receive_frame:
  assumes "can_receive s" and "body_ok body"
  shows "client_receive U cfg body (header_received cfg body s) = receive_message U cfg body s"
proof -
  have "(header_received cfg body s)\<lparr>myTransport := (myTransport (header_received cfg body s))\<lparr>myBuffer := body\<rparr>\<rparr> =
      body_received cfg body s"
    by (simp add: body_received_def tr_read_def)
  then show ?thesis
    using client_receive_body [of "header_received cfg body s" body U cfg] assms
    by (simp add: can_receive_def receive_message_def)
qed

lemma client_pump_frame:
  assumes "can_receive s" and "at_header s" and "body_ok body"
  shows "client_pump U cfg (frame (cf_endian cfg) body @ bs) s =
         bind_res (receive_message U cfg body s) (\<lambda>_ s1. client_pump U cfg bs s1)"
proof -
  let ?h = "store_u32 (cf_endian cfg) (word_of_nat (length body))"
  have h: "length ?h = 4" by simp
  then have "?h \<noteq> []" by (metis list.size(3) zero_neq_numeral)
  then have "client_pump U cfg (frame (cf_endian cfg) body @ bs) s =
      bind_res (client_receive U cfg ?h s) (\<lambda>_ s1. client_pump U cfg (body @ bs) s1)"
    using client_pump_step [of s ?h U cfg "body @ bs"] assms(2) h
    by (simp add: frame_def at_header_def HEADER_SIZE_def)
  also have "\<dots> = client_pump U cfg (body @ bs) (header_received cfg body s)"
    by (simp add: client_receive_header [OF assms])
  also have "\<dots> = bind_res (client_receive U cfg body (header_received cfg body s)) (\<lambda>_ s1. client_pump U cfg bs s1)"
    using assms(3) by (intro client_pump_step) (simp_all add: body_ok_def)
  finally show ?thesis
    by (simp add: client_receive_frame [OF assms(1,3)])
qed

lemma receive_message_at_header:
  "receive_message U cfg body s = Ret u s1 \<Longrightarrow> at_header s1"
  by (auto simp: receive_message_def at_header_def msg_state_def split: res.splits)

text \<open>User code that neither takes the listener off the transport nor changes threads.\<close>

definition stays_receiving :: "('k, 'ty, 'v) user \<Rightarrow> ('k, 'i, 'ty, 'v) client_cfg \<Rightarrow> bool" where
  "stays_receiving U cfg \<longleftrightarrow>
     (\<forall>body s s1. can_receive s \<longrightarrow> receive_message U cfg body s = Ret () s1 \<longrightarrow> can_receive s1)"

lemma client_pump_frames:
  assumes "stays_receiving U cfg" and "\<forall>m \<in> set ms. body_ok m"
  shows "can_receive s \<Longrightarrow> at_header s \<Longrightarrow>
    client_pump U cfg (concat (map (frame (cf_endian cfg)) ms)) s =
    bind_res (receive_messages U cfg ms s) (\<lambda>_ s1. Ret [] s1)"
  using assms(2)
proof (induction ms arbitrary: s)
  case Nil
  then show ?case
    unfolding client_pump_def by (subst pump.simps) (auto simp: Let_def)
next
  case (Cons m ms)
  have "client_pump U cfg (concat (map (frame (cf_endian cfg)) ms)) s1 =
      bind_res (receive_messages U cfg ms s1) (\<lambda>_ s1. Ret [] s1)"
    if "receive_message U cfg m s = Ret () s1" for s1
  proof (rule Cons.IH)
    show "can_receive s1"
      using assms(1) Cons.prems(1) that by (auto simp: stays_receiving_def)
    show "at_header s1"
      by (rule receive_message_at_header [OF that])
  qed (use Cons.prems in simp)
  then show ?case
    using client_pump_frame [of s m U cfg] Cons.prems
    by (cases "receive_message U cfg m s") simp_all
qed

lemma client_feed_pump:
  "at_header s \<Longrightarrow> client_feed U cfg cs s = client_pump U cfg (concat cs) s"
  unfolding client_feed_def client_pump_def
  by (subst feed_pump) (simp_all add: pump.simps [of _ _ _ "[]"] Let_def)

text \<open>
  C10: The client recovers the messages of a connection from its bytes. Whatever pieces the
  bytes of a sequence of frames arrive in, the client handles exactly the bodies of these
  frames, in order, and waits for the next header; no byte is left over.
\<close>

theorem client_receives_messages:
  assumes "stays_receiving U cfg" and "\<forall>m \<in> set ms. body_ok m"
    and "can_receive s" and "at_header s"
    and "concat pieces = concat (map (frame (cf_endian cfg)) ms)"
  shows "client_feed U cfg pieces s = bind_res (receive_messages U cfg ms s) (\<lambda>_ s1. Ret [] s1)"
  using client_feed_pump [OF assms(4), of U cfg pieces] client_pump_frames [OF assms(1-4)] assms(5)
  by simp

lemma can_receive_upd [simp]:
  "can_receive (s\<lparr>myClosures := cs\<rparr>) = can_receive s"
  "can_receive (s\<lparr>myCallQueue := q\<rparr>) = can_receive s"
  "can_receive (s\<lparr>callbacks := cbs\<rparr>) = can_receive s"
  "can_receive (s\<lparr>myMessenger := m\<rparr>) = can_receive s"
  "myListener t = myListener (myTransport s) \<Longrightarrow> can_receive (s\<lparr>myTransport := t\<rparr>) = can_receive s"
  by (simp_all add: can_receive_def)

lemma can_receive_write: "can_receive s \<Longrightarrow> always can_receive (client_write cfg msg s)"
  by (auto simp: client_write_def write_message_with_header_def tr_write_def tr_close_def case_prod_beta
      Let_def client_on_disconnected_def check_thread_id_def split: sum.split)

lemma can_receive_run_closure: "can_receive s \<Longrightarrow> always can_receive (run_closure passive_user cfg c i s)"
  by (auto simp: run_closure_def call_closure_def notify_def passive_user_def split: option.split)

lemma can_receive_queued: "can_receive s \<Longrightarrow> always can_receive (run_queued_call cfg fn a s)"
  unfolding run_queued_call_def
  by (intro always_bind can_receive_write) (simp_all add: enqueue_closure_def)

lemma can_receive_dispatch: "can_receive s \<Longrightarrow> always can_receive (dispatch_result passive_user cfg fn i s)"
  unfolding dispatch_result_def dequeue_call_def
  by (auto simp: Let_def split: option.split list.split
      intro!: always_bind always_o_assert can_receive_run_closure can_receive_queued)

lemma passive_stays_receiving: "stays_receiving passive_user cfg"
  unfolding stays_receiving_def
proof (intro allI impI)
  fix body s s1
  assume s: "can_receive s" and r: "receive_message passive_user cfg body s = Ret () s1"
  have "can_receive (body_received cfg body s)"
    using s by (simp add: body_received_def can_receive_def)
  then have "always can_receive (message_handler passive_user cfg body (body_received cfg body s))"
    by (auto simp: message_handler_def dispatch_event_def notify_listeners_passive can_receive_dispatch
        split: option.split)
  with r show "can_receive s1"
    by (auto simp: receive_message_def split: res.splits)
qed

theorem client_receives_messages_witness:
  "client_feed passive_user sample_cfg [[2, 0], [0, 0, 9], [7, 1, 0, 0], [0, 5]] sample_client =
   bind_res (receive_messages passive_user sample_cfg [[9, 7], [5]] sample_client) (\<lambda>_ s1. Ret [] s1)"
  by (rule client_receives_messages [OF passive_stays_receiving])
     (simp_all add: body_ok_def can_receive_def at_header_def sample_client_eq new_messenger_def
        HEADER_SIZE_def frame_def store_u32_def u32_bytes_def)

text \<open>
  A header that announces an empty message ends the connection's processing with an
  exception, whatever comes after it; the message handler is not called.
\<close>

lemma empty_message_refused:
  assumes "can_receive s" and "at_header s"
  shows "\<exists>s1. client_feed U cfg [[0, 0, 0, 0] @ bs] s =
      Exn (RuntimeError ''invalid message length received'') s1 \<and> callbacks s1 = callbacks s"
proof -
  let ?s0 = "s\<lparr>myTransport := (myTransport s)\<lparr>myBuffer := [0, 0, 0, 0]\<rparr>\<rparr>"
  have "load_u32 (cf_endian cfg) [0, 0, 0, 0] = 0"
    by (simp add: load_u32_def split: endian.split)
  then have "messenger_read (cf_endian cfg) (client_reader U cfg) HEADER_SIZE 0 (?s0, myMessenger ?s0) =
      Exn (RuntimeError ''invalid message length received'')
        (?s0, (myMessenger ?s0)\<lparr>myIncomingMsgSize := 0\<rparr>)"
    using assms(2)
      messenger_read_bad_header [of "myMessenger ?s0" "client_reader U cfg" ?s0 "cf_endian cfg" 0]
    by (simp add: at_header_def client_reader_def get_read_data_def HEADER_SIZE_def)
  then have "client_receive U cfg [0, 0, 0, 0] s = Exn (RuntimeError ''invalid message length received'')
      (?s0\<lparr>myMessenger := (myMessenger ?s0)\<lparr>myIncomingMsgSize := 0\<rparr>\<rparr>)"
    by (simp add: client_receive_eq [OF assms(1)] Let_def HEADER_SIZE_def numeral_eq_Suc)
  then show ?thesis
    using client_feed_pump [OF assms(2), of U cfg "[[0, 0, 0, 0] @ bs]"] assms(2)
      client_pump_step [of s "[0, 0, 0, 0]" U cfg bs]
    by (simp add: at_header_def HEADER_SIZE_def)
qed

end
