(* ===== verification/Function_Dict.thy ===== *)
theory Function_Dict
  imports Serialization
begin

text \<open>
  The function dictionary of a service (\<open>details/functiondict.h\<close>) with the type lists it
  computes at compile time (\<open>details/typeutil.h\<close>). A service function is a parameter: it works
  on the state \<open>'s\<close> of the service and gets its deserialized arguments and, unless it is a
  one-way function, the closure for its result.
\<close>

section \<open>Type lists\<close>

text \<open>
  Template instances as functions; \<open>None\<close> is an instance that does not exist, which the
  compiler reports.
\<close>

fun last_type_of :: "'a list \<Rightarrow> 'a option" where
  "last_type_of [] = None"
| "last_type_of [t] = Some t"
| "last_type_of (h # t # ts) = last_type_of (t # ts)"

fun remove_last_type_priv :: "'a list \<Rightarrow> 'a list \<Rightarrow> 'a list option" where
  "remove_last_type_priv ls [m, r] = Some (ls @ [m])"
| "remove_last_type_priv [] [r] = Some []"
| "remove_last_type_priv ls (m # r # r' # rs) = remove_last_type_priv (ls @ [m]) (r # r' # rs)"
| "remove_last_type_priv _ _ = None"

definition remove_last_type_of :: "'a list \<Rightarrow> 'a list option" where
  "remove_last_type_of ts = remove_last_type_priv [] ts"

lemma last_type_of_last: "ts \<noteq> [] \<Longrightarrow> last_type_of ts = Some (last ts)"
  by (induction ts rule: last_type_of.induct) auto

lemma remove_last_type_priv_butlast:
  "2 \<le> length ts \<Longrightarrow> remove_last_type_priv ls ts = Some (ls @ butlast ts)"
  by (induction ls ts rule: remove_last_type_priv.induct) auto

lemma remove_last_type_of_butlast: "ts \<noteq> [] \<Longrightarrow> remove_last_type_of ts = Some (butlast ts)"
  using remove_last_type_priv_butlast [of ts "[]"]
  by (cases ts; cases "tl ts") (auto simp: remove_last_type_of_def)

section \<open>The dictionary\<close>

text \<open>
  The closure a service function gets holds the name of the function, the client's transport
  (by its address) and whether the client's reusable archive is to write the result: a raw
  pointer into the client's entry.
\<close>

record srv_closure =
  sc_name :: string
  sc_client :: nat
  sc_archive :: bool

text \<open>The parameter types of a member function.\<close>

datatype 'ty param = PValue 'ty | PClosure "'ty option"

type_synonym ('v, 's) service_function =
  "'v list \<Rightarrow> srv_closure option \<Rightarrow> 's \<Rightarrow> (unit, 's) res"

record ('ty, 'v, 's) dict_entry =
  de_func :: "('v, 's) service_function"
  de_args :: "'ty list"
  de_result :: "'ty option"
  de_one_way :: bool

type_synonym ('ty, 'v, 's) func_dict = "string \<rightharpoonup> ('ty, 'v, 's) dict_entry"

fun value_types :: "'ty param list \<Rightarrow> 'ty list option" where
  "value_types [] = Some []"
| "value_types (PValue t # ps) = map_option ((#) t) (value_types ps)"
| "value_types (PClosure r # ps) = None"

text \<open>
  The argument types and the result type of a function: of a two-way function the last
  parameter is its closure. A function without parameters has to be one-way.
\<close>

definition result_type_traits :: "bool \<Rightarrow> 'ty param list \<Rightarrow> ('ty list \<times> 'ty option) option" where
  "result_type_traits oneWay ps =
     (if oneWay then map_option (\<lambda>ts. (ts, None)) (value_types ps)
      else case last_type_of ps of
        Some (PClosure r) \<Rightarrow>
          (case remove_last_type_of ps of
             None \<Rightarrow> None
           | Some qs \<Rightarrow> map_option (\<lambda>ts. (ts, r)) (value_types qs))
      | _ \<Rightarrow> None)"

definition add_function :: "bool \<Rightarrow> string \<Rightarrow> 'ty param list \<Rightarrow> ('v, 's) service_function \<Rightarrow>
    ('ty, 'v, 's) func_dict \<Rightarrow> ('ty, 'v, 's) func_dict option" where
  "add_function oneWay functionName ps f D =
     map_option (\<lambda>(ts, r). D(functionName \<mapsto>
         \<lparr>de_func = f, de_args = ts, de_result = r, de_one_way = oneWay\<rparr>))
       (result_type_traits oneWay ps)"

definition dict_find :: "string \<Rightarrow> ('ty, 'v, 's) func_dict \<Rightarrow> exn + ('ty, 'v, 's) dict_entry" where
  "dict_find functionName D =
     (case D functionName of
        None \<Rightarrow> Inl (LogicError (functionName @ '' not found in function dictionary''))
      | Some e \<Rightarrow> Inr e)"

definition is_one_way :: "string \<Rightarrow> ('ty, 'v, 's) func_dict \<Rightarrow> exn + bool" where
  "is_one_way functionName D = map_sum id de_one_way (dict_find functionName D)"

section \<open>Calling a function\<close>

fun deserialize_args :: "('i, 'ty, 'v) archive \<Rightarrow> 'ty list \<Rightarrow> 'i \<Rightarrow> 'v list option" where
  "deserialize_args A [] i = Some []"
| "deserialize_args A (t # ts) i =
     (case deserialize_arg A t i of
        None \<Rightarrow> None
      | Some (v, i') \<Rightarrow> map_option ((#) v) (deserialize_args A ts i'))"

text \<open>\<open>FunctionCaller\<close>: a one-way function is called without a closure.\<close>

definition function_caller :: "('i, 'ty, 'v) archive \<Rightarrow> ('ty, 'v, 's) dict_entry \<Rightarrow> srv_closure \<Rightarrow> 'i \<Rightarrow>
    's \<Rightarrow> (unit, 's) res" where
  "function_caller A e closure args s =
     (case deserialize_args A (de_args e) args of
        None \<Rightarrow> Exn ArchiveException s
      | Some vs \<Rightarrow> de_func e vs (if de_one_way e then None else Some closure) s)"

definition call_function :: "('i, 'ty, 'v) archive \<Rightarrow> ('ty, 'v, 's) func_dict \<Rightarrow> srv_closure \<Rightarrow> 'i \<Rightarrow>
    's \<Rightarrow> (unit, 's) res" where
  "call_function A D closure args s =
     (case dict_find (sc_name closure) D of
        Inl e \<Rightarrow> Exn e s
      | Inr f \<Rightarrow> function_caller A f closure args s)"

lemma deserialize_args_reads:
  "reads A tyof i (map IValue vs) \<Longrightarrow> map tyof vs = ts \<Longrightarrow> deserialize_args A ts i = Some vs"
  by (induction vs arbitrary: i ts) (auto simp: deserialize_arg_def)

lemma value_types_map [simp]: "value_types (map PValue ts) = Some ts"
  by (induction ts) simp_all

text \<open>A two-way member function with value parameters \<open>ts\<close> and a closure for \<open>r\<close>.\<close>

lemma add_two_way:
  "add_function False n (map PValue ts @ [PClosure r]) f D =
   Some (D(n \<mapsto> \<lparr>de_func = f, de_args = ts, de_result = r, de_one_way = False\<rparr>))"
  by (simp add: add_function_def result_type_traits_def last_type_of_last remove_last_type_of_butlast
      butlast_append)

lemma add_one_way:
  "add_function True n (map PValue ts) f D =
   Some (D(n \<mapsto> \<lparr>de_func = f, de_args = ts, de_result = None, de_one_way = True\<rparr>))"
  by (simp add: add_function_def result_type_traits_def)

end
