(* ===== verification/Acceptor.thy ===== *)
theory Acceptor
  imports Stream_Transport
begin

text \<open>
  The server endpoint (\<open>acceptor.h\<close>, \<open>asio/basicstreamacceptor.h\<close>, \<open>asio/tcpacceptor.h\<close>). Like
  a transport it lives in its owner's state, reached through \<open>alens\<close>. The acceptor socket is
  third-party code: an abstract state \<open>'a\<close> with the operations the code calls.
\<close>

section \<open>State\<close>

text \<open>\<open>ai_set_reuse_address\<close> and \<open>ai_close\<close> are called without an error code and throw.\<close>

record 'a acceptor_io =
  ai_is_open :: "'a \<Rightarrow> bool"
  ai_open :: "'a \<Rightarrow> error_code \<times> 'a"
  ai_set_reuse_address :: "'a \<Rightarrow> error_code \<times> 'a"
  ai_bind :: "'a \<Rightarrow> error_code \<times> 'a"
  ai_listen :: "int \<Rightarrow> 'a \<Rightarrow> error_code \<times> 'a"
  ai_max_connections :: int
  ai_async_accept :: "'a \<Rightarrow> 'a"
  ai_close :: "'a \<Rightarrow> error_code \<times> 'a"

record 'a acceptor =
  ac_socket :: 'a
  ac_listener :: bool
  ac_alive :: bool

definition new_acceptor :: "'a \<Rightarrow> 'a acceptor" where
  "new_acceptor a = \<lparr>ac_socket = a, ac_listener = False, ac_alive = True\<rparr>"

definition acceptor_set_listener :: "'a acceptor \<Rightarrow> 'a acceptor" where
  "acceptor_set_listener ac = ac\<lparr>ac_listener := True\<rparr>"

record ('a, 's) alens =
  ac_of :: "'s \<Rightarrow> 'a acceptor"
  ac_upd :: "('a acceptor \<Rightarrow> 'a acceptor) \<Rightarrow> 's \<Rightarrow> 's"

definition alens_ok :: "('a, 's) alens \<Rightarrow> bool" where
  "alens_ok L \<longleftrightarrow> (\<forall>f s. ac_of L (ac_upd L f s) = f (ac_of L s))"

text \<open>The listener of an acceptor; an accepted socket comes with the address of its transport.\<close>

record ('k, 's) accept_listener =
  on_client_accepted :: "nat \<Rightarrow> 'k \<Rightarrow> 's \<Rightarrow> (unit, 's) res"
  on_accept_error :: "cerror \<Rightarrow> 's \<Rightarrow> (unit, 's) res"

section \<open>Operations\<close>

definition acceptor_is_open :: "'a acceptor_io \<Rightarrow> ('a, 's) alens \<Rightarrow> 's \<Rightarrow> bool" where
  "acceptor_is_open io L s = ai_is_open io (ac_socket (ac_of L s))"

definition set_acceptor_socket :: "('a, 's) alens \<Rightarrow> 'a \<Rightarrow> 's \<Rightarrow> 's" where
  "set_acceptor_socket L a s = ac_upd L (\<lambda>ac. ac\<lparr>ac_socket := a\<rparr>) s"

definition start_accept :: "'a acceptor_io \<Rightarrow> ('a, 's) alens \<Rightarrow> 's \<Rightarrow> (unit, 's) res" where
  "start_accept io L s =
     bind_res (o_assert (ac_listener (ac_of L s)) ''myListener != nullptr'' s) (\<lambda>_ s1.
       Ret () (set_acceptor_socket L (ai_async_accept io (ac_socket (ac_of L s1))) s1))"

text \<open>\<open>TcpAcceptor::set_socket_options\<close>.\<close>

definition acceptor_set_socket_options :: "'a acceptor_io \<Rightarrow> ('a, 's) alens \<Rightarrow> 's \<Rightarrow> (unit, 's) res" where
  "acceptor_set_socket_options io L s =
     (let (ec, a) = ai_set_reuse_address io (ac_socket (ac_of L s));
          s1 = set_acceptor_socket L a s
      in if ec_ok ec then Ret () s1 else Exn (SystemError (ec_value ec)) s1)"

text \<open>The number of pending connections asked for, or the default of the socket library.\<close>

definition listen_backlog :: "'a acceptor_io \<Rightarrow> int \<Rightarrow> int" where
  "listen_backlog io n = (if n > 0 then n else ai_max_connections io)"

text \<open>
  \<open>open\<close>: an error of \<open>open\<close> or \<open>bind\<close> is reported to the listener and ends the operation, an
  error of \<open>listen\<close> is reported and accepting starts nevertheless. The endpoint is not closed
  on these paths.
\<close>

definition acceptor_open :: "'a acceptor_io \<Rightarrow> ('a, 's) alens \<Rightarrow> (cerror \<Rightarrow> 's \<Rightarrow> (unit, 's) res) \<Rightarrow>
    int \<Rightarrow> 's \<Rightarrow> (unit, 's) res" where
  "acceptor_open io L on_err n s =
     (if \<not> ac_listener (ac_of L s)
      then Exn (LogicError ''cercall::asio::BasicStreamAcceptor: listener is NULL'') s
      else if \<not> acceptor_is_open io L s then
        let (ec, a) = ai_open io (ac_socket (ac_of L s)); s1 = set_acceptor_socket L a s
        in if \<not> ec_ok ec then on_err (Error_of_code ec) s1
           else bind_res (acceptor_set_socket_options io L s1) (\<lambda>_ s2.
             let (ec, a) = ai_bind io (ac_socket (ac_of L s2)); s3 = set_acceptor_socket L a s2
             in if \<not> ec_ok ec then on_err (Error_of_code ec) s3
                else
                  let (ec, a) = ai_listen io (listen_backlog io n) (ac_socket (ac_of L s3));
                      s4 = set_acceptor_socket L a s3
                  in bind_res (if \<not> ec_ok ec then on_err (Error_of_code ec) s4 else Ret () s4)
                       (\<lambda>_ s5. start_accept io L s5))
      else start_accept io L s)"

definition acceptor_close :: "'a acceptor_io \<Rightarrow> ('a, 's) alens \<Rightarrow> 's \<Rightarrow> (unit, 's) res" where
  "acceptor_close io L s =
     (if acceptor_is_open io L s then
        let (ec, a) = ai_close io (ac_socket (ac_of L s)); s1 = set_acceptor_socket L a s
        in if ec_ok ec then Ret () s1 else Exn (SystemError (ec_value ec)) s1
      else Ret () s)"

definition acceptor_destructor :: "'a acceptor_io \<Rightarrow> ('a, 's) alens \<Rightarrow> 's \<Rightarrow> (unit, 's) res" where
  "acceptor_destructor io L s =
     bind_res (acceptor_close io L s) (\<lambda>_ s1. Ret () (ac_upd L (\<lambda>ac. ac\<lparr>ac_alive := False\<rparr>) s1))"

text \<open>
  The completion of an asynchronous accept. The handler holds a plain pointer to the acceptor
  and calls \<open>is_open\<close> on every path, so it must not run after the acceptor is destroyed.
\<close>

definition accept_completed :: "'a acceptor_io \<Rightarrow> ('a, 's) alens \<Rightarrow> ('k, 's) accept_listener \<Rightarrow>
    error_code \<Rightarrow> nat \<Rightarrow> 'k \<Rightarrow> 's \<Rightarrow> (unit, 's) res" where
  "accept_completed io L lst ec p k s =
     (if \<not> ac_alive (ac_of L s) then Exn (Undefined ''acceptor used after its destruction'') s
      else bind_res
        (if ec_ok ec \<and> acceptor_is_open io L s then on_client_accepted lst p k s
         else if acceptor_is_open io L s \<or> \<not> operation_aborted ec
         then on_accept_error lst (Error_of_code ec) s
         else Ret () s)
        (\<lambda>_ s1. if acceptor_is_open io L s1 then start_accept io L s1 else Ret () s1))"

section \<open>The owner of an acceptor\<close>

text \<open>
  What an owner keeps under its two notifications and any change of the acceptor, every
  operation of the acceptor keeps.
\<close>

locale acceptor_owner =
  fixes L :: "('a, 's) alens" and lst :: "('k, 's) accept_listener" and P :: "'s \<Rightarrow> bool"
  assumes acc_upd_keeps: "P s \<Longrightarrow> P (ac_upd L f s)"
    and accept_error_keeps: "P s \<Longrightarrow> always P (on_accept_error lst e s)"
    and accepted_keeps: "P s \<Longrightarrow> always P (on_client_accepted lst p k s)"
begin

lemma set_socket_keeps: "P s \<Longrightarrow> P (set_acceptor_socket L a s)"
  by (simp add: set_acceptor_socket_def acc_upd_keeps)

lemma start_accept_keeps: "P s \<Longrightarrow> always P (start_accept io L s)"
  by (auto simp: start_accept_def intro!: always_bind always_o_assert set_socket_keeps)

lemma options_keeps: "P s \<Longrightarrow> always P (acceptor_set_socket_options io L s)"
  by (auto simp: acceptor_set_socket_options_def case_prod_beta Let_def set_socket_keeps)

lemma acceptor_open_keeps: "P s \<Longrightarrow> always P (acceptor_open io L (on_accept_error lst) n s)"
  by (auto simp: acceptor_open_def case_prod_beta Let_def
      intro!: always_bind options_keeps start_accept_keeps accept_error_keeps set_socket_keeps)

lemma acceptor_close_keeps: "P s \<Longrightarrow> always P (acceptor_close io L s)"
  by (auto simp: acceptor_close_def case_prod_beta Let_def set_socket_keeps)

lemma acceptor_destructor_keeps: "P s \<Longrightarrow> always P (acceptor_destructor io L s)"
  by (auto simp: acceptor_destructor_def intro!: always_bind acceptor_close_keeps acc_upd_keeps)

lemma accept_completed_keeps: "P s \<Longrightarrow> always P (accept_completed io L lst ec p k s)"
  by (auto simp: accept_completed_def
      intro!: always_bind accepted_keeps accept_error_keeps start_accept_keeps)

end

end
