(* ===== verification/Service.thy ===== *)
theory Service
  imports Function_Dict Acceptor Messenger
begin

text \<open>
  The service (\<open>service.h\<close>): the state of \<open>Service\<close> and one definition per member function. The
  transports of its clients live in a store indexed by address, since a result closure can
  keep one alive after its client has left the map. The functions of the service are user code
  in the dictionary, working on the whole state; their own data is \<open>svUser\<close>.
\<close>

section \<open>State\<close>

text \<open>\<open>cs_archives\<close> says that the client's entry holds reusable archives.\<close>

record client_state =
  cs_messenger :: messenger
  cs_archives :: bool

record ('k, 'a, 'u) service =
  svTransports :: "nat \<Rightarrow> 'k transport"
  myClients :: "(nat \<times> client_state) list"
  myPendingCalls :: "(string \<times> nat) list"
  myAcceptor :: "'a acceptor"
  svThreadId :: nat
  svRunningThread :: nat
  svUser :: 'u

text \<open>
  The libraries. \<open>sc_what\<close> is the text of an exception (\<open>std::exception::what\<close>), which
  \<open>dispatch_func\<close> puts into its own.
\<close>

record ('k, 'i, 'ty, 'v, 'a) service_cfg =
  sc_io :: "'k asio"
  sc_accept :: "'a acceptor_io"
  sc_arch :: "('i, 'ty, 'v) archive"
  sc_reusable :: bool
  sc_endian :: endian
  sc_interface :: string
  sc_what :: "exn \<Rightarrow> string"

type_synonym ('k, 'ty, 'v, 'a, 'u) service_dict = "('ty, 'v, ('k, 'a, 'u) service) func_dict"

definition service_lens :: "nat \<Rightarrow> ('k, ('k, 'a, 'u) service) tlens" where
  "service_lens p =
     \<lparr>tr_of = (\<lambda>s. svTransports s p),
      tr_upd = (\<lambda>f s. s\<lparr>svTransports := (svTransports s)(p := f (svTransports s p))\<rparr>)\<rparr>"

definition service_alens :: "('a, ('k, 'a, 'u) service) alens" where
  "service_alens = \<lparr>ac_of = myAcceptor, ac_upd = (\<lambda>f s. s\<lparr>myAcceptor := f (myAcceptor s)\<rparr>)\<rparr>"

text \<open>
  The transports an acceptor makes are plain stream transports, whose \<open>set_socket_options\<close> does
  nothing.
\<close>

definition stream_io :: "'k asio \<Rightarrow> 'k asio" where
  "stream_io io = io\<lparr>io_set_no_delay :=
     (\<lambda>k. (\<lparr>ec_value = 0, ec_category = ''system'', ec_message = ''''\<rparr>, k))\<rparr>"

definition make_fully_qualified_name :: "('k, 'i, 'ty, 'v, 'a) service_cfg \<Rightarrow> string \<Rightarrow> string" where
  "make_fully_qualified_name cfg shortFuncName = sc_interface cfg @ ''::'' @ shortFuncName"

definition bcastFuncName :: "('k, 'i, 'ty, 'v, 'a) service_cfg \<Rightarrow> string" where
  "bcastFuncName cfg = sc_interface cfg @ ''::broadcast_event''"

definition service_check_thread :: "string \<Rightarrow> ('k, 'a, 'u) service \<Rightarrow> (unit, ('k, 'a, 'u) service) res" where
  "service_check_thread errorMsg s =
     (if svRunningThread s \<noteq> svThreadId s
      then Exn (LogicError (errorMsg @ '': call from a foreign thread not supported'')) s
      else Ret () s)"

text \<open>\<open>std::map::emplace\<close> of a new key keeps the entries in the order of the addresses.\<close>

fun map_emplace :: "nat \<Rightarrow> 'c \<Rightarrow> (nat \<times> 'c) list \<Rightarrow> (nat \<times> 'c) list" where
  "map_emplace p c [] = [(p, c)]"
| "map_emplace p c ((q, d) # xs) =
     (if p < q then (p, c) # (q, d) # xs else (q, d) # map_emplace p c xs)"

section \<open>Writing to a client\<close>

text \<open>
  The listener is taken off the transport and the client's entry is erased, with its messenger
  and its archives; the pending calls of the client are only logged.
\<close>

definition service_on_disconnected :: "nat \<Rightarrow> ('k, 'a, 'u) service \<Rightarrow> (unit, ('k, 'a, 'u) service) res" where
  "service_on_disconnected p s =
     bind_res (service_check_thread ''cercall::Service::on_disconnected'' s) (\<lambda>_ s1.
       Ret () (s1\<lparr>svTransports := (svTransports s1)(p := clear_listener (svTransports s1 p)),
                  myClients := AList.delete p (myClients s1)\<rparr>))"

definition service_close_client :: "('k, 'i, 'ty, 'v, 'a) service_cfg \<Rightarrow> nat \<Rightarrow> ('k, 'a, 'u) service \<Rightarrow>
    (unit, ('k, 'a, 'u) service) res" where
  "service_close_client cfg p = tr_close (sc_io cfg) (service_lens p) (service_on_disconnected p)"

definition service_write :: "('k, 'i, 'ty, 'v, 'a) service_cfg \<Rightarrow> nat \<Rightarrow> byte list \<Rightarrow>
    ('k, 'a, 'u) service \<Rightarrow> (cerror, ('k, 'a, 'u) service) res" where
  "service_write cfg p =
     write_message_with_header (sc_endian cfg) (sc_io cfg) (service_lens p) (service_on_disconnected p)"

section \<open>Calls and results\<close>

definition find_pending_call :: "string \<Rightarrow> nat \<Rightarrow> ('k, 'a, 'u) service \<Rightarrow> (string \<times> nat) option" where
  "find_pending_call funcName p s =
     List.find (\<lambda>c. snd c = p) (filter (\<lambda>c. fst c = funcName) (myPendingCalls s))"

text \<open>
  A result is sent to its client if that is still connected, and the call is no longer pending
  after that. The error of the write is ignored.
\<close>

definition send_result :: "('k, 'i, 'ty, 'v, 'a) service_cfg \<Rightarrow> nat \<Rightarrow> string \<Rightarrow> byte list \<Rightarrow>
    ('k, 'a, 'u) service \<Rightarrow> (unit, ('k, 'a, 'u) service) res" where
  "send_result cfg p funcName resultMsg s =
     bind_res (o_assert (svRunningThread s = svThreadId s) ''this_thread::get_id() == myThreadId'' s)
       (\<lambda>_ s1.
       case find_pending_call funcName p s1 of
         None \<Rightarrow> Exn (RuntimeError
           (''cercall::Service::send_result: method results already delivered for '' @ funcName)) s1
       | Some call \<Rightarrow>
           bind_res (if in_keys (snd call) (myClients s1)
                     then bind_res (service_write cfg (snd call) resultMsg s1) (\<lambda>_ s2. Ret () s2)
                     else Ret () s1)
             (\<lambda>_ s2. Ret () (s2\<lparr>myPendingCalls := remove1 call (myPendingCalls s2)\<rparr>)))"

text \<open>
  The closure a service function calls with its result, at once or later. It serializes
  through the archive of the client's entry, if that is reusable; the entry is gone when the
  client has disconnected.
\<close>

definition run_service_closure :: "('k, 'i, 'ty, 'v, 'a) service_cfg \<Rightarrow> srv_closure \<Rightarrow> 'v result \<Rightarrow>
    ('k, 'a, 'u) service \<Rightarrow> (unit, ('k, 'a, 'u) service) res" where
  "run_service_closure cfg c r s =
     (if sc_archive c \<and> \<not> in_keys (sc_client c) (myClients s)
      then Exn (Undefined ''archive of a disconnected client'') s
      else send_result cfg (sc_client c) (sc_name c)
             (serialize_call_result (sc_arch cfg) (sc_archive c) (sc_name c) r) s)"

text \<open>The exceptions that derive from \<open>std::exception\<close>, as the handler of \<open>dispatch_func\<close> sees them.\<close>

fun is_std_exception :: "exn \<Rightarrow> bool" where
  "is_std_exception (AssertFailed m) = False"
| "is_std_exception (Undefined m) = False"
| "is_std_exception _ = True"

definition dispatch_func :: "('k, 'i, 'ty, 'v, 'a) service_cfg \<Rightarrow> ('k, 'ty, 'v, 'a, 'u) service_dict \<Rightarrow>
    nat \<Rightarrow> client_state \<Rightarrow> string \<Rightarrow> 'i \<Rightarrow> ('k, 'a, 'u) service \<Rightarrow> (unit, ('k, 'a, 'u) service) res" where
  "dispatch_func cfg D p cs funcName args s =
     (case is_one_way funcName D of
        Inl e \<Rightarrow> Exn e s
      | Inr isOneWay \<Rightarrow>
          if \<not> isOneWay \<and> find_pending_call funcName p s \<noteq> None then
            bind_res (service_write cfg p (serialize_call_result (sc_arch cfg) (cs_archives cs) funcName
                        (Result_error None operation_in_progress)) s)
              (\<lambda>_ s1. Ret () s1)
          else
            let s1 = (if \<not> isOneWay then s\<lparr>myPendingCalls := (funcName, p) # myPendingCalls s\<rparr> else s);
                closure = \<lparr>sc_name = funcName, sc_client = p, sc_archive = cs_archives cs\<rparr>
            in case call_function (sc_arch cfg) D closure args s1 of
                 Ret u s2 \<Rightarrow> Ret () s2
               | Exn e s2 \<Rightarrow>
                   if is_std_exception e then Exn (RuntimeError
                     (''cercall::Service::dispatch_func: failed to call cercall function '' @ funcName @
                      '': '' @ sc_what cfg e)) s2
                   else Exn e s2)"

section \<open>The listener of the clients' transports\<close>

definition service_message_handler :: "('k, 'i, 'ty, 'v, 'a) service_cfg \<Rightarrow>
    ('k, 'ty, 'v, 'a, 'u) service_dict \<Rightarrow> nat \<Rightarrow> byte list \<Rightarrow> ('k, 'a, 'u) service \<Rightarrow>
    (unit, ('k, 'a, 'u) service) res" where
  "service_message_handler cfg D p msg s =
     (case map_of (myClients s) p of
        None \<Rightarrow> Exn (AssertFailed ''found != myClients.end()'') s
      | Some cs \<Rightarrow>
          (case deserialize_call (sc_arch cfg) (cs_archives cs) msg of
             None \<Rightarrow> Exn ArchiveException s
           | Some (funcName, i) \<Rightarrow> dispatch_func cfg D p cs funcName i s))"

text \<open>The messenger lives in the client's entry, so it ends with it.\<close>

definition service_reader :: "('k, 'i, 'ty, 'v, 'a) service_cfg \<Rightarrow> ('k, 'ty, 'v, 'a, 'u) service_dict \<Rightarrow>
    nat \<Rightarrow> ('k, 'a, 'u) service reader" where
  "service_reader cfg D p =
     \<lparr>rd_read = (\<lambda>n. tr_upd (service_lens p) (tr_read (sc_io cfg) n)),
      rd_data = (\<lambda>s. get_read_data (svTransports s p)),
      rd_handler = service_message_handler cfg D p,
      rd_alive = (\<lambda>s. in_keys p (myClients s))\<rparr>"

definition store_messenger :: "nat \<Rightarrow> messenger \<Rightarrow> ('k, 'a, 'u) service \<Rightarrow> ('k, 'a, 'u) service" where
  "store_messenger p m s = s\<lparr>myClients :=
     map (\<lambda>(q, cs). (q, if q = p then cs\<lparr>cs_messenger := m\<rparr> else cs)) (myClients s)\<rparr>"

definition service_on_incoming_data :: "('k, 'i, 'ty, 'v, 'a) service_cfg \<Rightarrow>
    ('k, 'ty, 'v, 'a, 'u) service_dict \<Rightarrow> nat \<Rightarrow> nat \<Rightarrow> ('k, 'a, 'u) service \<Rightarrow>
    (nat, ('k, 'a, 'u) service) res" where
  "service_on_incoming_data cfg D p n s =
     bind_res (service_check_thread ''cercall::Service::on_incoming_data'' s) (\<lambda>_ s1.
       case map_of (myClients s1) p of
         None \<Rightarrow> Exn (AssertFailed ''clStateIt != myClients.end()'') s1
       | Some cs \<Rightarrow>
           (case messenger_read (sc_endian cfg) (service_reader cfg D p) n 0 (s1, cs_messenger cs) of
              Ret b (s2, m) \<Rightarrow> Ret b (store_messenger p m s2)
            | Exn e (s2, m) \<Rightarrow> Exn e (store_messenger p m s2)))"

text \<open>The default implementation does nothing.\<close>

definition service_on_connection_error :: "cerror \<Rightarrow> ('k, 'a, 'u) service \<Rightarrow>
    (unit, ('k, 'a, 'u) service) res" where
  "service_on_connection_error e s = Ret () s"

text \<open>\<open>Transport::Listener::on_connected\<close> does nothing either.\<close>

definition service_listener :: "('k, 'i, 'ty, 'v, 'a) service_cfg \<Rightarrow> ('k, 'ty, 'v, 'a, 'u) service_dict \<Rightarrow>
    nat \<Rightarrow> ('k, 'a, 'u) service listener" where
  "service_listener cfg D p =
     \<lparr>on_connection_error = service_on_connection_error,
      on_connected = (\<lambda>s. Ret () s),
      on_disconnected = service_on_disconnected p,
      on_incoming_data = service_on_incoming_data cfg D p\<rparr>"

section \<open>The listener of the acceptor\<close>

text \<open>
  The address \<open>p\<close> is that of the new transport, so it is no key of the map; the branch for the
  failed \<open>emplace\<close> is that of the source.
\<close>

definition service_on_client_accepted :: "('k, 'i, 'ty, 'v, 'a) service_cfg \<Rightarrow>
    ('k, 'ty, 'v, 'a, 'u) service_dict \<Rightarrow> nat \<Rightarrow> 'k \<Rightarrow> ('k, 'a, 'u) service \<Rightarrow>
    (unit, ('k, 'a, 'u) service) res" where
  "service_on_client_accepted cfg D p k s =
     (let cs = \<lparr>cs_messenger = copy_messenger new_messenger, cs_archives = sc_reusable cfg\<rparr>
      in if \<not> in_keys p (myClients s) then
           let s1 = s\<lparr>svTransports := (svTransports s)(p := set_listener (new_transport k)),
                      myClients := map_emplace p cs (myClients s)\<rparr>
           in bind_res (tr_open (stream_io (sc_io cfg)) (service_lens p)
                          (on_connected (service_listener cfg D p)) s1) (\<lambda>_ s2.
                case map_of (myClients s2) p of
                  None \<Rightarrow> Exn (Undefined ''client map entry erased'') s2
                | Some cs' \<Rightarrow> init_transport (service_reader cfg D p) (cs_messenger cs') s2)
         else Exn (RuntimeError
           ''cercall::Service::on_client_accepted: failed to add client to map'') s)"

definition service_on_accept_error :: "cerror \<Rightarrow> ('k, 'a, 'u) service \<Rightarrow>
    (unit, ('k, 'a, 'u) service) res" where
  "service_on_accept_error e s =
     bind_res (service_check_thread ''cercall::Service::on_accept_error'' s) (\<lambda>_ s1.
       Exn (RuntimeError
         (''cercall::Service::on_accept_error: accept failed: '' @ myErrorMessage e)) s1)"

definition service_accept_listener :: "('k, 'i, 'ty, 'v, 'a) service_cfg \<Rightarrow>
    ('k, 'ty, 'v, 'a, 'u) service_dict \<Rightarrow> ('k, ('k, 'a, 'u) service) accept_listener" where
  "service_accept_listener cfg D =
     \<lparr>on_client_accepted = service_on_client_accepted cfg D, on_accept_error = service_on_accept_error\<rparr>"

section \<open>The operations of the program\<close>

definition new_service :: "'a acceptor \<Rightarrow> (nat \<Rightarrow> 'k transport) \<Rightarrow> nat \<Rightarrow> 'u \<Rightarrow> ('k, 'a, 'u) service" where
  "new_service ac store thread u =
     \<lparr>svTransports = store, myClients = [], myPendingCalls = [],
      myAcceptor = acceptor_set_listener ac, svThreadId = thread, svRunningThread = thread,
      svUser = u\<rparr>"

text \<open>
  \<open>add_functions\<close> takes the names and the functions of the macro's arguments in step; \<open>None\<close> is
  a call that does not compile.
\<close>

fun add_functions :: "('k, 'i, 'ty, 'v, 'a) service_cfg \<Rightarrow> bool \<Rightarrow> string list \<Rightarrow>
    ('ty param list \<times> ('v, ('k, 'a, 'u) service) service_function) list \<Rightarrow>
    ('k, 'ty, 'v, 'a, 'u) service_dict \<Rightarrow> ('k, 'a, 'u) service \<Rightarrow>
    (('k, 'ty, 'v, 'a, 'u) service_dict, ('k, 'a, 'u) service) res option" where
  "add_functions cfg oneWay (n # ns) ((ps, f) # fs) D s =
     (case service_check_thread ''cercall::Service::add_functions'' s of
        Exn e s1 \<Rightarrow> Some (Exn e s1)
      | Ret _ s1 \<Rightarrow>
          (case add_function oneWay (make_fully_qualified_name cfg n) ps f D of
             None \<Rightarrow> None
           | Some D' \<Rightarrow> if fs = [] then Some (Ret D' s1) else add_functions cfg oneWay ns fs D' s1))"
| "add_functions cfg oneWay _ _ D s = None"

definition start_service :: "('k, 'i, 'ty, 'v, 'a) service_cfg \<Rightarrow> int \<Rightarrow> ('k, 'a, 'u) service \<Rightarrow>
    (unit, ('k, 'a, 'u) service) res" where
  "start_service cfg maxPending s =
     bind_res (service_check_thread ''cercall::Service::start'' s) (\<lambda>_ s1.
       if \<not> acceptor_is_open (sc_accept cfg) service_alens s1
       then acceptor_open (sc_accept cfg) service_alens service_on_accept_error maxPending s1
       else Ret () s1)"

text \<open>
  The loop of \<open>stop\<close> closes the first client until there is none. It need not end: \<open>None\<close>.
\<close>

partial_function (option) close_clients :: "('k, 'i, 'ty, 'v, 'a) service_cfg \<Rightarrow> ('k, 'a, 'u) service \<Rightarrow>
    (unit, ('k, 'a, 'u) service) res option" where
  "close_clients cfg s =
     (case myClients s of
        [] \<Rightarrow> Some (Ret () s)
      | c # _ \<Rightarrow> (case service_close_client cfg (fst c) s of
            Exn e s1 \<Rightarrow> Some (Exn e s1)
          | Ret _ s1 \<Rightarrow> close_clients cfg s1))"

definition stop_service :: "('k, 'i, 'ty, 'v, 'a) service_cfg \<Rightarrow> ('k, 'a, 'u) service \<Rightarrow>
    (unit, ('k, 'a, 'u) service) res option" where
  "stop_service cfg s =
     (case service_check_thread ''cercall::Service::stop'' s of
        Exn e s1 \<Rightarrow> Some (Exn e s1)
      | Ret _ s1 \<Rightarrow>
          if acceptor_is_open (sc_accept cfg) service_alens s1 then
            (case acceptor_close (sc_accept cfg) service_alens s1 of
               Exn e s2 \<Rightarrow> Some (Exn e s2)
             | Ret _ s2 \<Rightarrow> close_clients cfg s2)
          else Some (Ret () s1))"

text \<open>The destructor stops the service; its members, with them the acceptor, go after that.\<close>

definition service_destructor :: "('k, 'i, 'ty, 'v, 'a) service_cfg \<Rightarrow> ('k, 'a, 'u) service \<Rightarrow>
    (unit, ('k, 'a, 'u) service) res option" where
  "service_destructor cfg s =
     (case stop_service cfg s of
        None \<Rightarrow> None
      | Some (Exn e s1) \<Rightarrow> Some (Exn e s1)
      | Some (Ret _ s1) \<Rightarrow> Some (acceptor_destructor (sc_accept cfg) service_alens s1))"

definition get_clients :: "('k, 'a, 'u) service \<Rightarrow> nat list" where
  "get_clients s = map fst (myClients s)"

text \<open>
  The loop over the client map of \<open>broadcast\<close>. A write that fails closes the connection, which
  erases the entry the loop stands on.
\<close>

fun broadcast_loop :: "('k, 'i, 'ty, 'v, 'a) service_cfg \<Rightarrow> 'v \<Rightarrow> (nat \<times> client_state) list \<Rightarrow>
    ('k, 'a, 'u) service \<Rightarrow> (unit, ('k, 'a, 'u) service) res" where
  "broadcast_loop cfg ev [] s = Ret () s"
| "broadcast_loop cfg ev ((p, cs) # rest) s =
     bind_res (service_write cfg p
                 (serialize_event (sc_arch cfg) (cs_archives cs) (bcastFuncName cfg) ev) s) (\<lambda>_ s1.
       if \<not> in_keys p (myClients s1)
       then Exn (Undefined ''client map entry erased while it is iterated'') s1
       else broadcast_loop cfg ev rest s1)"

definition broadcast :: "('k, 'i, 'ty, 'v, 'a) service_cfg \<Rightarrow> 'v \<Rightarrow> ('k, 'a, 'u) service \<Rightarrow>
    (unit, ('k, 'a, 'u) service) res" where
  "broadcast cfg ev s =
     bind_res (service_check_thread ''cercall::Service::broadcast'' s) (\<lambda>_ s1.
       if myClients s1 \<noteq> [] then broadcast_loop cfg ev (myClients s1) s1 else Ret () s1)"

text \<open>The completions the socket library delivers to a service.\<close>

definition service_handle_recv :: "('k, 'i, 'ty, 'v, 'a) service_cfg \<Rightarrow>
    ('k, 'ty, 'v, 'a, 'u) service_dict \<Rightarrow> nat \<Rightarrow> error_code \<Rightarrow> nat \<Rightarrow> ('k, 'a, 'u) service \<Rightarrow>
    (unit, ('k, 'a, 'u) service) res" where
  "service_handle_recv cfg D p = handle_recv (sc_io cfg) (service_lens p) (service_listener cfg D p)"

definition service_receive :: "('k, 'i, 'ty, 'v, 'a) service_cfg \<Rightarrow>
    ('k, 'ty, 'v, 'a, 'u) service_dict \<Rightarrow> nat \<Rightarrow> byte list \<Rightarrow> ('k, 'a, 'u) service \<Rightarrow>
    (unit, ('k, 'a, 'u) service) res" where
  "service_receive cfg D p = recv_completed (sc_io cfg) (service_lens p) (service_listener cfg D p)"

definition service_accept :: "('k, 'i, 'ty, 'v, 'a) service_cfg \<Rightarrow>
    ('k, 'ty, 'v, 'a, 'u) service_dict \<Rightarrow> error_code \<Rightarrow> nat \<Rightarrow> 'k \<Rightarrow> ('k, 'a, 'u) service \<Rightarrow>
    (unit, ('k, 'a, 'u) service) res" where
  "service_accept cfg D = accept_completed (sc_accept cfg) service_alens (service_accept_listener cfg D)"

end
