(* ===== verification/Service_Invariant.thy ===== *)
theory Service_Invariant
  imports Service
begin

text \<open>
  What every operation of a service keeps: the client map is ordered without duplicates, each
  client in it has an open transport with a listener, and a call of a function by a client is
  pending at most once. This is asked of the service's own functions and holds for functions
  that answer through the closures of the library, at once or later, and broadcast. Sockets
  close without an error; \<open>close\<close> throws otherwise and leaves a closed client in the map.
\<close>

section \<open>The invariant\<close>

definition clean_sockets :: "'k asio \<Rightarrow> bool" where
  "clean_sockets io \<longleftrightarrow> (\<forall>k. ec_ok (fst (io_close io k)))"

definition client_open_at :: "('k, 'a, 'u) service \<Rightarrow> nat \<Rightarrow> bool" where
  "client_open_at s p \<longleftrightarrow> myState (svTransports s p) = OPEN \<and> myListener (svTransports s p)"

definition service_inv :: "('k, 'a, 'u) service \<Rightarrow> bool" where
  "service_inv s \<longleftrightarrow>
     sorted_wrt (<) (map fst (myClients s)) \<and> distinct (myPendingCalls s) \<and>
     (\<forall>p. in_keys p (myClients s) \<longrightarrow> client_open_at s p) \<and> svRunningThread s = svThreadId s"

lemma service_lens_simps [simp]:
  "tr_of (service_lens p) s = svTransports s p"
  "tr_upd (service_lens p) f s = s\<lparr>svTransports := (svTransports s)(p := f (svTransports s p))\<rparr>"
  by (simp_all add: service_lens_def)

lemma service_lens_ok: "tlens_ok (service_lens p)"
  by (simp add: tlens_ok_def)

lemma service_alens_simps [simp]:
  "ac_of service_alens s = myAcceptor s"
  "ac_upd service_alens f s = s\<lparr>myAcceptor := f (myAcceptor s)\<rparr>"
  by (simp_all add: service_alens_def)

lemma in_keys_emplace [simp]: "in_keys q (map_emplace p c xs) \<longleftrightarrow> q = p \<or> in_keys q xs"
  by (induction p c xs rule: map_emplace.induct) auto

lemma map_of_emplace [simp]: "\<not> in_keys p xs \<Longrightarrow> map_of (map_emplace p c xs) = (map_of xs)(p \<mapsto> c)"
  by (induction p c xs rule: map_emplace.induct) auto

lemma sorted_emplace:
  "sorted_wrt (<) (map fst xs) \<Longrightarrow> \<not> in_keys p xs \<Longrightarrow> sorted_wrt (<) (map fst (map_emplace p c xs))"
proof (induction p c xs rule: map_emplace.induct)
  case (2 p c q d xs)
  have "fst ` set (map_emplace p c xs) = insert p (fst ` set xs)"
    using in_keys_emplace [of _ p c xs] by (auto simp: in_keys_def)
  with 2 show ?case by auto
qed simp

lemma fst_delete: "fst ` set (AList.delete p xs) = fst ` set xs - {p}"
  using in_keys_delete [of _ p xs] by (auto simp: in_keys_def)

lemma sorted_delete: "sorted_wrt (<) (map fst xs) \<Longrightarrow> sorted_wrt (<) (map fst (AList.delete p xs))"
  by (induction xs) (auto simp: fst_delete)

lemma find_pending_list:
  "List.find (\<lambda>c. snd c = p) (filter (\<lambda>c. fst c = fn) xs) =
   (if (fn, p) \<in> set xs then Some (fn, p) else None)"
  by (induction xs) auto

lemma find_pending_iff:
  "find_pending_call fn p s = (if (fn, p) \<in> set (myPendingCalls s) then Some (fn, p) else None)"
  by (simp add: find_pending_call_def find_pending_list)

section \<open>Writing and closing\<close>

lemma service_inv_upd [simp]:
  "service_inv (s\<lparr>svUser := u\<rparr>) = service_inv s"
  "service_inv (s\<lparr>myAcceptor := a\<rparr>) = service_inv s"
  by (simp_all add: service_inv_def client_open_at_def)

text \<open>A change of a transport that keeps its state and its listener.\<close>

lemma service_inv_transport:
  "service_inv s \<Longrightarrow> myState t = myState (svTransports s p) \<Longrightarrow> myListener t = myListener (svTransports s p) \<Longrightarrow>
   service_inv (s\<lparr>svTransports := (svTransports s)(p := t)\<rparr>)"
  by (auto simp: service_inv_def client_open_at_def)

text \<open>The state \<open>close\<close> leaves behind an open client.\<close>

definition closed_transport :: "'k asio \<Rightarrow> 'k transport \<Rightarrow> 'k transport" where
  "closed_transport io t =
     t\<lparr>myState := CLOSED, mySocket := snd (io_close io (snd (io_shutdown io (mySocket t))))\<rparr>"

definition client_gone :: "('k, 'i, 'ty, 'v, 'a) service_cfg \<Rightarrow> nat \<Rightarrow> ('k, 'a, 'u) service \<Rightarrow>
    ('k, 'a, 'u) service" where
  "client_gone cfg p s =
     s\<lparr>svTransports := (svTransports s)(p := clear_listener (closed_transport (sc_io cfg) (svTransports s p))),
       myClients := AList.delete p (myClients s)\<rparr>"

lemma service_close_open:
  assumes "clean_sockets (sc_io cfg)" and "client_open_at s p" and "svRunningThread s = svThreadId s"
  shows "service_close_client cfg p s = Ret () (client_gone cfg p s)"
  using assms
  by (simp add: service_close_client_def tr_close_def client_open_at_def clean_sockets_def case_prod_beta
      Let_def service_on_disconnected_def service_check_thread_def client_gone_def closed_transport_def)

lemma service_inv_gone: "service_inv s \<Longrightarrow> service_inv (client_gone cfg p s)"
  by (auto simp: service_inv_def client_open_at_def client_gone_def sorted_delete)

lemma service_close_other:
  assumes "\<not> client_open_at s p" and "service_inv s"
  shows "always service_inv (service_close_client cfg p s)"
proof -
  have "\<not> in_keys p (myClients s)"
    using assms by (auto simp: service_inv_def)
  then have "service_inv (s\<lparr>svTransports := (svTransports s)(p := t)\<rparr>)" for t
    using assms(2) by (auto simp: service_inv_def client_open_at_def)
  moreover have "myListener (closed_transport io t) = myListener t" for io t
    by (simp add: closed_transport_def)
  ultimately show ?thesis
    using assms
    by (auto simp: service_close_client_def tr_close_def client_open_at_def case_prod_beta Let_def
        fun_upd_def)
qed

lemma keeps_close_client:
  assumes "clean_sockets (sc_io cfg)" and "service_inv s"
  shows "always service_inv (service_close_client cfg p s)"
proof (cases "client_open_at s p")
  case True
  moreover have "svRunningThread s = svThreadId s"
    using assms(2) by (simp add: service_inv_def)
  ultimately show ?thesis
    using assms by (simp add: service_close_open service_inv_gone)
next
  case False
  with assms show ?thesis by (simp add: service_close_other)
qed

lemma keeps_service_write:
  assumes "clean_sockets (sc_io cfg)" and "service_inv s"
  shows "always service_inv (service_write cfg p msg s)"
proof -
  have "service_inv (s\<lparr>svTransports := (svTransports s)(p := (svTransports s p)\<lparr>mySocket := k\<rparr>)\<rparr>)" for k
    using assms(2) by (simp add: service_inv_transport)
  then have "always service_inv (tr_write (sc_io cfg) (service_lens p) (service_on_disconnected p) m s)" for m
    using assms keeps_close_client [OF assms(1)]
    by (auto simp: tr_write_def case_prod_beta Let_def service_close_client_def intro!: always_bind)
  then show ?thesis
    using assms(2) by (simp add: service_write_def write_message_with_header_def split: sum.split)
qed

lemma service_inv_pending:
  "service_inv s \<Longrightarrow> service_inv (s\<lparr>myPendingCalls := remove1 c (myPendingCalls s)\<rparr>)"
  "service_inv s \<Longrightarrow> c \<notin> set (myPendingCalls s) \<Longrightarrow>
   service_inv (s\<lparr>myPendingCalls := c # myPendingCalls s\<rparr>)"
  by (simp_all add: service_inv_def client_open_at_def distinct_remove1)

section \<open>Results and broadcasts\<close>

lemma keeps_send_result:
  assumes "clean_sockets (sc_io cfg)" and "service_inv s"
  shows "always service_inv (send_result cfg p fn msg s)"
  using assms unfolding send_result_def
  by (auto intro!: always_bind always_o_assert keeps_service_write service_inv_pending
      split: option.split)

lemma keeps_service_closure:
  "clean_sockets (sc_io cfg) \<Longrightarrow> service_inv s \<Longrightarrow> always service_inv (run_service_closure cfg c r s)"
  by (simp add: run_service_closure_def keeps_send_result)

lemma keeps_service_check: "P s \<Longrightarrow> always P (service_check_thread msg s)"
  by (simp add: service_check_thread_def)

lemma keeps_broadcast_loop:
  "clean_sockets (sc_io cfg) \<Longrightarrow> service_inv s \<Longrightarrow> always service_inv (broadcast_loop cfg ev cs s)"
  by (induction cfg ev cs s rule: broadcast_loop.induct) (auto intro!: always_bind keeps_service_write)

lemma keeps_broadcast:
  "clean_sockets (sc_io cfg) \<Longrightarrow> service_inv s \<Longrightarrow> always service_inv (broadcast cfg ev s)"
  by (auto simp: broadcast_def intro!: always_bind keeps_service_check keeps_broadcast_loop)

section \<open>Stopping\<close>

lemma delete_length: "in_keys p xs \<Longrightarrow> length (AList.delete p xs) < length xs"
  by (induction xs) (auto simp: length_delete_le le_imp_less_Suc)

lemma close_clients_ends:
  assumes "clean_sockets (sc_io cfg)"
  shows "service_inv s \<Longrightarrow> \<exists>s1. close_clients cfg s = Some (Ret () s1) \<and> service_inv s1 \<and>
     myClients s1 = [] \<and> myPendingCalls s1 = myPendingCalls s \<and> svUser s1 = svUser s \<and>
     (\<forall>p. svTransports s1 p = (if in_keys p (myClients s)
        then clear_listener (closed_transport (sc_io cfg) (svTransports s p)) else svTransports s p))"
proof (induction "length (myClients s)" arbitrary: s rule: less_induct)
  case less
  show ?case
  proof (cases "myClients s")
    case Nil
    with less.prems show ?thesis
      by (subst close_clients.simps) simp
  next
    case (Cons c cs)
    let ?p = "fst c" and ?s1 = "client_gone cfg (fst c) s"
    have key: "in_keys ?p (myClients s)"
      using Cons by simp
    with less.prems have "service_close_client cfg ?p s = Ret () ?s1"
      using assms by (intro service_close_open) (auto simp: service_inv_def)
    then have step: "close_clients cfg s = close_clients cfg ?s1"
      using Cons by (subst close_clients.simps) simp
    have "length (myClients ?s1) < length (myClients s)"
      using key by (simp add: client_gone_def delete_length)
    from less.hyps [OF this service_inv_gone [OF less.prems]] key step
    show ?thesis
      by (auto simp: client_gone_def fun_upd_def split: if_splits)
  qed
qed

section \<open>Dispatching calls\<close>

lemma always_rethrow:
  "always P (case m of Ret u s \<Rightarrow> Ret () s | Exn e s \<Rightarrow> if c e then Exn (f e) s else Exn e s) \<longleftrightarrow>
   always P m"
  by (cases m) simp_all

text \<open>
  What is asked of the functions of a service: each keeps the invariant.
\<close>

locale service_code =
  fixes cfg :: "('k, 'i, 'ty, 'v, 'a) service_cfg"
    and D :: "('k, 'ty, 'v, 'a, 'u) service_dict"
  assumes clean: "clean_sockets (sc_io cfg)"
    and func_keeps: "D fn = Some e \<Longrightarrow> service_inv s \<Longrightarrow> always service_inv (de_func e vs c s)"
begin

lemma keeps_call_function:
  "service_inv s \<Longrightarrow> always service_inv (call_function A D c args s)"
  by (auto simp: call_function_def dict_find_def function_caller_def func_keeps split: option.split)

lemma keeps_dispatch_func:
  assumes "service_inv s"
  shows "always service_inv (dispatch_func cfg D p cs fn args s)"
proof (cases "is_one_way fn D")
  case (Inr b)
  show ?thesis
  proof (cases "\<not> b \<and> find_pending_call fn p s \<noteq> None")
    case True
    with assms show ?thesis
      by (auto simp: dispatch_func_def Inr intro!: always_bind keeps_service_write clean)
  next
    case False
    have "service_inv (if \<not> b then s\<lparr>myPendingCalls := (fn, p) # myPendingCalls s\<rparr> else s)"
      using assms False by (auto simp: find_pending_iff intro!: service_inv_pending split: if_splits)
    from keeps_call_function [OF this] False show ?thesis
      by (cases b) (auto simp: dispatch_func_def Inr Let_def always_rethrow)
  qed
qed (simp add: dispatch_func_def assms)

lemma keeps_service_handler:
  "service_inv s \<Longrightarrow> always service_inv (service_message_handler cfg D p msg s)"
  by (auto simp: service_message_handler_def keeps_dispatch_func split: option.split)

end

text \<open>The service as the owner of the messengers of its clients.\<close>

sublocale service_code \<subseteq> peer: reader_owner "service_reader cfg D p" service_inv for p
  by unfold_locales (simp_all add: service_reader_def keeps_service_handler service_inv_transport)

section \<open>The completions\<close>

lemma store_messenger_keys [simp]:
  "map fst (myClients (store_messenger p m s)) = map fst (myClients s)"
  by (auto simp: store_messenger_def)

lemma in_keys_store [simp]: "in_keys q (myClients (store_messenger p m s)) = in_keys q (myClients s)"
  by (force simp: store_messenger_def in_keys_def)

lemma service_inv_store: "service_inv s \<Longrightarrow> service_inv (store_messenger p m s)"
  unfolding service_inv_def store_messenger_keys in_keys_store
  by (simp add: store_messenger_def client_open_at_def)

lemma accept_client_eq:
  assumes "\<not> in_keys p (myClients s)"
  shows "service_on_client_accepted cfg D p k s =
    Ret () (s\<lparr>svTransports := (svTransports s)(p := tr_read (sc_io cfg) HEADER_SIZE
                ((set_listener (new_transport k))\<lparr>myState := OPEN\<rparr>)),
              myClients := map_emplace p \<lparr>cs_messenger = new_messenger, cs_archives = sc_reusable cfg\<rparr>
                (myClients s)\<rparr>)"
  using assms
  by (simp add: service_on_client_accepted_def Let_def tr_open_def set_listener_def new_transport_def
      stream_io_def ec_ok_def service_listener_def copy_messenger_def init_transport_def
      service_reader_def new_messenger_def)

context service_code
begin

lemma keeps_service_incoming:
  assumes "service_inv s"
  shows "always service_inv (service_on_incoming_data cfg D p n s)"
proof -
  have "always service_inv
      (case messenger_read (sc_endian cfg) (service_reader cfg D p) n 0 (s, m) of
         Ret b (s2, m) \<Rightarrow> Ret b (store_messenger p m s2)
       | Exn e (s2, m) \<Rightarrow> Exn e (store_messenger p m s2))" if "service_inv s" for s m
    using peer.messenger_read_keeps [where p = p and sm = "(s, m)" and en = "sc_endian cfg" and n = n and b = 0] that
    by (auto split: res.split prod.split intro: service_inv_store)
  then show ?thesis
    using assms by (auto simp: service_on_incoming_data_def split: option.split
        intro!: always_bind keeps_service_check)
qed

lemma keeps_service_recv:
  "service_inv s \<Longrightarrow> always service_inv (service_handle_recv cfg D p ec n s)"
  using keeps_close_client [OF clean]
  by (auto simp: service_handle_recv_def handle_recv_def service_listener_def
      service_on_connection_error_def service_close_client_def
      intro!: always_bind always_o_assert keeps_service_incoming)

lemma keeps_service_receive:
  "service_inv s \<Longrightarrow> always service_inv (service_receive cfg D p data s)"
  unfolding service_receive_def recv_completed_def service_handle_recv_def [symmetric]
  by (intro keeps_service_recv) (simp add: service_inv_transport)

lemma keeps_accepted:
  assumes "service_inv s"
  shows "always service_inv (service_on_client_accepted cfg D p k s)"
proof (cases "in_keys p (myClients s)")
  case True
  with assms show ?thesis by (simp add: service_on_client_accepted_def Let_def)
next
  case False
  with assms show ?thesis
    by (simp add: accept_client_eq)
       (auto simp: service_inv_def client_open_at_def sorted_emplace set_listener_def)
qed

end

text \<open>The service as the owner of its acceptor.\<close>

sublocale service_code \<subseteq> acc: acceptor_owner service_alens "service_accept_listener cfg D" service_inv
  by unfold_locales
     (auto simp: service_accept_listener_def keeps_accepted service_on_accept_error_def
        intro!: always_bind keeps_service_check)

section \<open>Functions that answer, now or later\<close>

text \<open>
  What the functions of a service and its timers can do with the library: call a closure they
  were given, broadcast, change their own data.
\<close>

datatype ('v, 'u) service_op = Answer srv_closure "'v result" | Broadcast 'v | SetUser 'u

primrec service_do :: "('k, 'i, 'ty, 'v, 'a) service_cfg \<Rightarrow> ('v, 'u) service_op \<Rightarrow>
    ('k, 'a, 'u) service \<Rightarrow> (unit, ('k, 'a, 'u) service) res" where
  "service_do cfg (Answer c r) s = run_service_closure cfg c r s"
| "service_do cfg (Broadcast v) s = broadcast cfg v s"
| "service_do cfg (SetUser u) s = Ret () (s\<lparr>svUser := u\<rparr>)"

fun service_do_all :: "('k, 'i, 'ty, 'v, 'a) service_cfg \<Rightarrow> ('v, 'u) service_op list \<Rightarrow>
    ('k, 'a, 'u) service \<Rightarrow> (unit, ('k, 'a, 'u) service) res" where
  "service_do_all cfg [] s = Ret () s"
| "service_do_all cfg (op # ops) s = bind_res (service_do cfg op s) (\<lambda>_. service_do_all cfg ops)"

text \<open>A service function as a script: what it does depends on its data, arguments and closure.\<close>

definition scripted :: "('k, 'i, 'ty, 'v, 'a) service_cfg \<Rightarrow>
    ('u \<Rightarrow> 'v list \<Rightarrow> srv_closure option \<Rightarrow> ('v, 'u) service_op list) \<Rightarrow>
    ('v, ('k, 'a, 'u) service) service_function" where
  "scripted cfg script vs c s = service_do_all cfg (script (svUser s) vs c) s"

definition scripted_dict :: "('k, 'i, 'ty, 'v, 'a) service_cfg \<Rightarrow>
    (string \<rightharpoonup> 'ty list \<times> 'ty option \<times> bool \<times>
      ('u \<Rightarrow> 'v list \<Rightarrow> srv_closure option \<Rightarrow> ('v, 'u) service_op list)) \<Rightarrow>
    ('k, 'ty, 'v, 'a, 'u) service_dict" where
  "scripted_dict cfg scripts fn =
     map_option (\<lambda>(ts, r, ow, script).
       \<lparr>de_func = scripted cfg script, de_args = ts, de_result = r, de_one_way = ow\<rparr>) (scripts fn)"

lemma keeps_service_do:
  "clean_sockets (sc_io cfg) \<Longrightarrow> service_inv s \<Longrightarrow> always service_inv (service_do cfg op s)"
  by (cases op) (simp_all add: keeps_service_closure keeps_broadcast)

lemma keeps_service_do_all:
  "clean_sockets (sc_io cfg) \<Longrightarrow> service_inv s \<Longrightarrow> always service_inv (service_do_all cfg ops s)"
  by (induction ops arbitrary: s) (auto intro!: always_bind keeps_service_do)

lemma scripted_service_code: "clean_sockets (sc_io cfg) \<Longrightarrow> service_code cfg (scripted_dict cfg scripts)"
  by unfold_locales (auto simp: scripted_dict_def scripted_def keeps_service_do_all)

text \<open>
  The configuration with the same libraries except that the error of closing a socket is left
  out: what the contract asks for, for any configuration.
\<close>

definition clean_cfg :: "('k, 'i, 'ty, 'v, 'a) service_cfg \<Rightarrow> ('k, 'i, 'ty, 'v, 'a) service_cfg" where
  "clean_cfg cfg = cfg\<lparr>sc_io := (sc_io cfg)\<lparr>io_close :=
     (\<lambda>k. (\<lparr>ec_value = 0, ec_category = ''system'', ec_message = ''''\<rparr>, snd (io_close (sc_io cfg) k)))\<rparr>\<rparr>"

interpretation scripts: service_code "clean_cfg cfg" "scripted_dict (clean_cfg cfg) scripts"
  for cfg scripts
  by (rule scripted_service_code) (simp add: clean_sockets_def clean_cfg_def ec_ok_def)

section \<open>Reachable states\<close>

text \<open>
  The steps of a service: the program starts it and acts from timers, sockets complete accepts
  and reads. \<open>Stopped\<close> is a \<open>stop\<close> that returns or throws.
\<close>

datatype ('k, 'v, 'u) service_event =
    Act "('v, 'u) service_op"
  | Start int
  | Accepted error_code nat 'k
  | PeerReceived nat "byte list"
  | PeerError nat error_code
  | Stop

definition service_step :: "('k, 'i, 'ty, 'v, 'a) service_cfg \<Rightarrow> ('k, 'ty, 'v, 'a, 'u) service_dict \<Rightarrow>
    ('k, 'v, 'u) service_event \<Rightarrow> ('k, 'a, 'u) service \<Rightarrow> (unit, ('k, 'a, 'u) service) res option" where
  "service_step cfg D ev s =
     (case ev of
        Act op \<Rightarrow> Some (service_do cfg op s)
      | Start n \<Rightarrow> Some (start_service cfg n s)
      | Accepted ec p k \<Rightarrow> Some (service_accept cfg D ec p k s)
      | PeerReceived p data \<Rightarrow> Some (service_receive cfg D p data s)
      | PeerError p ec \<Rightarrow> Some (service_handle_recv cfg D p ec 0 s)
      | Stop \<Rightarrow> stop_service cfg s)"

context service_code
begin

lemma keeps_start:
  fixes s :: "('k, 'a, 'u) service"
  shows "service_inv s \<Longrightarrow> always service_inv (start_service cfg n s)"
  using acc.acceptor_open_keeps
  by (auto simp: start_service_def service_accept_listener_def
      intro!: always_bind keeps_service_check)

lemma keeps_accept: "service_inv s \<Longrightarrow> always service_inv (service_accept cfg D ec p k s)"
  by (simp add: service_accept_def acc.accept_completed_keeps)

lemma keeps_stop:
  fixes s :: "('k, 'a, 'u) service"
  assumes "service_inv s"
  shows "\<exists>r. stop_service cfg s = Some r \<and> always service_inv r"
proof -
  have "\<exists>r. close_clients cfg s1 = Some r \<and> always service_inv r" if "service_inv s1" for s1
    using close_clients_ends [OF clean that] by auto
  moreover have "always service_inv (acceptor_close (sc_accept cfg) service_alens s)"
    using assms by (rule acc.acceptor_close_keeps)
  ultimately show ?thesis
    using assms by (auto simp: stop_service_def service_check_thread_def split: res.split)
qed

lemma keeps_service_step:
  "service_inv s \<Longrightarrow> \<exists>r. service_step cfg D ev s = Some r \<and> always service_inv r"
  using keeps_stop [of s]
  by (cases ev) (auto simp: service_step_def keeps_service_do clean keeps_start keeps_accept
      keeps_service_receive keeps_service_recv)

end

inductive service_reach :: "('k, 'i, 'ty, 'v, 'a) service_cfg \<Rightarrow> ('k, 'ty, 'v, 'a, 'u) service_dict \<Rightarrow>
    ('k, 'a, 'u) service \<Rightarrow> bool" for cfg D where
  service_reach_new: "service_reach cfg D (new_service ac store thread u)"
| service_reach_step: "service_reach cfg D s \<Longrightarrow> service_step cfg D ev s = Some r \<Longrightarrow>
    service_reach cfg D (res_state r)"

context service_code
begin

lemma service_reach_inv: "service_reach cfg D s \<Longrightarrow> service_inv s"
proof (induction rule: service_reach.induct)
  case (service_reach_new ac store thread u)
  show ?case by (simp add: new_service_def service_inv_def)
next
  case (service_reach_step s ev r)
  then show ?case using keeps_service_step [of s ev] by (auto simp: always_def)
qed

end

end
