(* ===== verification/Sample_Service.thy ===== *)
theory Sample_Service
  imports Service_Invariant Sample_Environment
begin

text \<open>
  A concrete service for the theorems that say hypotheses can be met: the sockets and the
  archive of the sample client, an acceptor that is a flag, and a dictionary with one function
  that adds its arguments and answers at once, one that keeps its closure, and a one-way one.
\<close>

record sample_acceptor =
  listening :: bool
  port_taken :: bool
  accepting :: nat

definition ec_in_use :: error_code where
  "ec_in_use = \<lparr>ec_value = 98, ec_category = ''system'', ec_message = ''Address already in use''\<rparr>"

definition sample_accept_io :: "sample_acceptor acceptor_io" where
  "sample_accept_io =
     \<lparr>ai_is_open = listening,
      ai_open = (\<lambda>a. (ec_success, a\<lparr>listening := True\<rparr>)),
      ai_set_reuse_address = (\<lambda>a. (ec_success, a)),
      ai_bind = (\<lambda>a. (if port_taken a then ec_in_use else ec_success, a)),
      ai_listen = (\<lambda>n a. (ec_success, a)),
      ai_max_connections = 4096,
      ai_async_accept = (\<lambda>a. a\<lparr>accepting := accepting a + 1\<rparr>),
      ai_close = (\<lambda>a. (ec_success, a\<lparr>listening := False\<rparr>))\<rparr>"

definition sample_service_cfg ::
  "(sample_socket, byte list, unit, cint, sample_acceptor) service_cfg" where
  "sample_service_cfg =
     \<lparr>sc_io = sample_io, sc_accept = sample_accept_io, sc_arch = sample_archive,
      sc_reusable = True, sc_endian = LittleEndian, sc_interface = ''CalculatorInterface'',
      sc_what = (\<lambda>e. case e of RuntimeError m \<Rightarrow> m | LogicError m \<Rightarrow> m | LengthError m \<Rightarrow> m | _ \<Rightarrow> '''')\<rparr>"

lemma sample_service_cfg_simps [simp]:
  "sc_io sample_service_cfg = sample_io" "sc_accept sample_service_cfg = sample_accept_io"
  "sc_arch sample_service_cfg = sample_archive" "sc_reusable sample_service_cfg"
  "sc_endian sample_service_cfg = LittleEndian"
  "sc_interface sample_service_cfg = ''CalculatorInterface''"
  by (simp_all add: sample_service_cfg_def)

lemma sample_sockets_clean: "clean_sockets (sc_io sample_service_cfg)"
  by (simp add: clean_sockets_def sample_io_def ec_samples ec_ok_def)

text \<open>The data of the service is the list of closures it keeps.\<close>

type_synonym sample_state = "(sample_socket, sample_acceptor, srv_closure list) service"

definition sample_dict :: "(sample_socket, unit, cint, sample_acceptor, srv_closure list) service_dict" where
  "sample_dict = scripted_dict sample_service_cfg
     [''CalculatorInterface::add'' \<mapsto> ([(), (), ()], Some (), False,
        \<lambda>u vs c. case c of None \<Rightarrow> [] | Some c \<Rightarrow> [Answer c (Result_value (sum_list vs) Error_none)]),
      ''CalculatorInterface::add_and_delay_result'' \<mapsto> ([(), ()], Some (), False,
        \<lambda>u vs c. case c of None \<Rightarrow> [] | Some c \<Rightarrow> [SetUser (c # u)]),
      ''CalculatorInterface::close_service'' \<mapsto> ([], None, True, \<lambda>u vs c. [SetUser []])]"

definition sample_peer :: "bool \<Rightarrow> sample_socket transport" where
  "sample_peer b = \<lparr>myState = OPEN, mySocket = \<lparr>sent = [], broken = b, reads_asked = 4\<rparr>,
     myBuffer = [0, 0, 0, 0], myListener = True\<rparr>"

text \<open>A service with two clients, at addresses 1 and 2; the socket of the first may be broken.\<close>

definition sample_service :: "bool \<Rightarrow> sample_state" where
  "sample_service b =
     \<lparr>svTransports = (\<lambda>p. sample_peer (b \<and> p = 1)),
      myClients = [(1, \<lparr>cs_messenger = new_messenger, cs_archives = True\<rparr>),
                   (2, \<lparr>cs_messenger = new_messenger, cs_archives = True\<rparr>)],
      myPendingCalls = [],
      myAcceptor = \<lparr>ac_socket = \<lparr>listening = True, port_taken = False, accepting = 1\<rparr>,
        ac_listener = True, ac_alive = True\<rparr>,
      svThreadId = 1, svRunningThread = 1, svUser = []\<rparr>"

lemma sample_service_inv: "service_inv (sample_service b)"
  by (auto simp: service_inv_def client_open_at_def sample_service_def sample_peer_def)

lemmas sample_service_simps = sample_service_def sample_peer_def

end
