(* ===== verification/Service_Spec.thy ===== *)
theory Service_Spec
  imports Sample_Service
begin

text \<open>
  What a service promises its clients and its implementation: each call is dispatched to the
  function of its name with the arguments that were sent, its result goes to the caller and to
  nobody else, a second call is refused while one is pending, and stopping ends with no client
  connected; and what happens on the paths where a client disconnects in between.
\<close>

section \<open>Writing one message\<close>

definition peer_writes :: "('k, 'i, 'ty, 'v, 'a) service_cfg \<Rightarrow> nat \<Rightarrow> byte list \<Rightarrow>
    ('k, 'a, 'u) service \<Rightarrow> bool" where
  "peer_writes cfg p msg s \<longleftrightarrow> myState (svTransports s p) = OPEN \<and>
     (case message_with_header (sc_endian cfg) msg of
        Inl e \<Rightarrow> False
      | Inr m \<Rightarrow> ec_ok (fst (io_write (sc_io cfg) m (mySocket (svTransports s p)))))"

definition peer_written :: "('k, 'i, 'ty, 'v, 'a) service_cfg \<Rightarrow> nat \<Rightarrow> byte list \<Rightarrow>
    ('k, 'a, 'u) service \<Rightarrow> ('k, 'a, 'u) service" where
  "peer_written cfg p msg s =
     (case message_with_header (sc_endian cfg) msg of
        Inl e \<Rightarrow> s
      | Inr m \<Rightarrow> s\<lparr>svTransports := (svTransports s)(p := (svTransports s p)
           \<lparr>mySocket := snd (io_write (sc_io cfg) m (mySocket (svTransports s p)))\<rparr>)\<rparr>)"

lemma service_write_ok:
  "peer_writes cfg p msg s \<Longrightarrow> service_write cfg p msg s = Ret Error_none (peer_written cfg p msg s)"
  by (auto simp: peer_writes_def peer_written_def service_write_def write_message_with_header_def
      tr_write_def tr_is_open_def case_prod_beta Let_def split: sum.splits)

lemma peer_written_simps [simp]:
  "myClients (peer_written cfg p msg s) = myClients s"
  "myPendingCalls (peer_written cfg p msg s) = myPendingCalls s"
  "svUser (peer_written cfg p msg s) = svUser s"
  "svRunningThread (peer_written cfg p msg s) = svRunningThread s"
  "svThreadId (peer_written cfg p msg s) = svThreadId s"
  "q \<noteq> p \<Longrightarrow> svTransports (peer_written cfg p msg s) q = svTransports s q"
  by (simp_all add: peer_written_def split: sum.split)

text \<open>A write the socket of an open client refuses: the client is gone after it.\<close>

definition peer_refuses :: "('k, 'i, 'ty, 'v, 'a) service_cfg \<Rightarrow> nat \<Rightarrow> byte list \<Rightarrow>
    ('k, 'a, 'u) service \<Rightarrow> bool" where
  "peer_refuses cfg p msg s \<longleftrightarrow> client_open_at s p \<and>
     (case message_with_header (sc_endian cfg) msg of
        Inl e \<Rightarrow> False
      | Inr m \<Rightarrow> \<not> ec_ok (fst (io_write (sc_io cfg) m (mySocket (svTransports s p)))))"

lemma service_write_refused:
  assumes "clean_sockets (sc_io cfg)" and "svRunningThread s = svThreadId s"
    and "peer_refuses cfg p msg s"
  shows "\<exists>e k. service_write cfg p msg s =
    Ret e (client_gone cfg p (s\<lparr>svTransports := (svTransports s)(p := (svTransports s p)\<lparr>mySocket := k\<rparr>)\<rparr>))"
proof -
  obtain m where m: "message_with_header (sc_endian cfg) msg = Inr m"
    and bad: "\<not> ec_ok (fst (io_write (sc_io cfg) m (mySocket (svTransports s p))))"
    using assms(3) by (auto simp: peer_refuses_def split: sum.splits)
  let ?k = "snd (io_write (sc_io cfg) m (mySocket (svTransports s p)))"
  let ?s1 = "s\<lparr>svTransports := (svTransports s)(p := (svTransports s p)\<lparr>mySocket := ?k\<rparr>)\<rparr>"
  have "client_open_at ?s1 p"
    using assms(3) by (simp add: peer_refuses_def client_open_at_def)
  then have "tr_close (sc_io cfg) (service_lens p) (service_on_disconnected p) ?s1 =
      Ret () (client_gone cfg p ?s1)"
    using service_close_open [OF assms(1), of ?s1 p] assms(2) by (simp add: service_close_client_def)
  then show ?thesis
    using m bad assms(3)
    by (auto simp: service_write_def write_message_with_header_def tr_write_def tr_is_open_def
        peer_refuses_def client_open_at_def case_prod_beta Let_def)
qed

section \<open>Results\<close>

abbreviation result_message :: "('k, 'i, 'ty, 'v, 'a) service_cfg \<Rightarrow> srv_closure \<Rightarrow> 'v result \<Rightarrow>
    byte list" where
  "result_message cfg c r \<equiv> serialize_call_result (sc_arch cfg) (sc_archive c) (sc_name c) r"

lemma run_service_closure_sends:
  assumes "svRunningThread s = svThreadId s" and "in_keys (sc_client c) (myClients s)"
    and "(sc_name c, sc_client c) \<in> set (myPendingCalls s)"
    and "peer_writes cfg (sc_client c) (result_message cfg c r) s"
  shows "run_service_closure cfg c r s =
    Ret () ((peer_written cfg (sc_client c) (result_message cfg c r) s)
      \<lparr>myPendingCalls := remove1 (sc_name c, sc_client c) (myPendingCalls s)\<rparr>)"
  using assms
  by (simp add: run_service_closure_def send_result_def find_pending_iff service_write_ok)

text \<open>
  C18: A result closure works once. Called on a connected client whose call is pending, it
  writes one message, the frame of the function's name and the result, to that client and to
  no other, and the call is not pending any more; called again it throws and changes nothing.
\<close>

theorem closure_answers_once:
  assumes "service_inv s" and "in_keys (sc_client c) (myClients s)"
    and "(sc_name c, sc_client c) \<in> set (myPendingCalls s)"
    and "peer_writes cfg (sc_client c) (result_message cfg c r) s"
  shows "\<exists>s1. run_service_closure cfg c r s = Ret () s1 \<and>
     svTransports s1 = svTransports (peer_written cfg (sc_client c) (result_message cfg c r) s) \<and>
     (sc_name c, sc_client c) \<notin> set (myPendingCalls s1) \<and>
     run_service_closure cfg c r' s1 = Exn (RuntimeError
       (''cercall::Service::send_result: method results already delivered for '' @ sc_name c)) s1"
proof -
  let ?s1 = "(peer_written cfg (sc_client c) (result_message cfg c r) s)
      \<lparr>myPendingCalls := remove1 (sc_name c, sc_client c) (myPendingCalls s)\<rparr>"
  have th: "svRunningThread s = svThreadId s" and d: "distinct (myPendingCalls s)"
    using assms(1) by (simp_all add: service_inv_def)
  have "run_service_closure cfg c r s = Ret () ?s1"
    by (rule run_service_closure_sends [OF th assms(2-4)])
  moreover have "(sc_name c, sc_client c) \<notin> set (myPendingCalls ?s1)"
    using d by simp
  moreover from this have "run_service_closure cfg c r' ?s1 = Exn (RuntimeError
       (''cercall::Service::send_result: method results already delivered for '' @ sc_name c)) ?s1"
    using assms(2) th d by (simp add: run_service_closure_def send_result_def find_pending_iff)
  ultimately show ?thesis by simp
qed

text \<open>The sample closures: for \<open>add\<close> of client 1.\<close>

definition sample_call :: srv_closure where
  "sample_call = \<lparr>sc_name = ''CalculatorInterface::add'', sc_client = 1, sc_archive = True\<rparr>"

definition sample_pending :: "bool \<Rightarrow> sample_state" where
  "sample_pending b = (sample_service b)\<lparr>myPendingCalls := [(''CalculatorInterface::add'', 1)]\<rparr>"

lemma sample_pending_inv: "service_inv (sample_pending b)"
  using sample_service_inv [of b] by (simp add: service_inv_def client_open_at_def sample_pending_def)

lemma sample_message_length:
  "length (ar_write sample_archive b (IString fn # xs)) = 2 * length fn + 1 +
     length (concat (map put_item xs))"
  by (induction fn) (simp_all add: sample_archive_def)

lemma sample_peer_writes:
  "HEADER_SIZE \<le> length msg \<Longrightarrow> length msg \<le> 1000 \<Longrightarrow> \<not> b \<or> p \<noteq> 1 \<Longrightarrow>
   peer_writes sample_service_cfg p msg ((sample_service b)\<lparr>myPendingCalls := cs\<rparr>)"
  by (auto simp: peer_writes_def sample_service_simps message_with_header_def sample_io_def Let_def
      ec_samples ec_ok_def HEADER_SIZE_def)

lemma sample_result_length:
  "HEADER_SIZE \<le> length (result_message sample_service_cfg sample_call (Result_value v Error_none))"
  "length (result_message sample_service_cfg sample_call (Result_value v Error_none)) \<le> 1000"
  by (simp_all add: serialize_call_result_def serialize_items_def sample_message_length sample_call_def
      save_result_def save_error_def Result_value_def Error_none_def HEADER_SIZE_def)

theorem closure_answers_once_witness:
  "\<exists>s1. run_service_closure sample_service_cfg sample_call (Result_value 6 Error_none) (sample_pending False) =
     Ret () s1 \<and>
     (''CalculatorInterface::add'', 1) \<notin> set (myPendingCalls s1)"
  using closure_answers_once [OF sample_pending_inv [of False], of sample_call sample_service_cfg
      "Result_value 6 Error_none"] sample_peer_writes [OF sample_result_length, of False 1 6]
  by (auto simp: sample_pending_def sample_call_def sample_service_def)

section \<open>Every reachable service\<close>



section \<open>Stopping\<close>

lemma stop_service_ends:
  assumes "clean_sockets (sc_io cfg)" and "service_inv s"
    and "acceptor_is_open (sc_accept cfg) service_alens s"
    and "ec_ok (fst (ai_close (sc_accept cfg) (ac_socket (myAcceptor s))))"
  shows "\<exists>s1. stop_service cfg s = Some (Ret () s1) \<and> myClients s1 = [] \<and>
     myPendingCalls s1 = myPendingCalls s \<and>
     (\<forall>p. svTransports s1 p = (if in_keys p (myClients s)
        then clear_listener (closed_transport (sc_io cfg) (svTransports s p)) else svTransports s p))"
proof -
  let ?s = "set_acceptor_socket service_alens (snd (ai_close (sc_accept cfg) (ac_socket (myAcceptor s)))) s"
  have inv: "service_inv ?s"
    using assms(2) by (simp add: set_acceptor_socket_def)
  have "stop_service cfg s = close_clients cfg ?s"
    using assms by (simp add: stop_service_def service_check_thread_def service_inv_def acceptor_close_def
        case_prod_beta Let_def)
  with close_clients_ends [OF assms(1) inv] show ?thesis
    by (auto simp: set_acceptor_socket_def)
qed



section \<open>Dispatching\<close>

abbreviation call_closure_of :: "string \<Rightarrow> nat \<Rightarrow> client_state \<Rightarrow> srv_closure" where
  "call_closure_of fn p cs \<equiv> \<lparr>sc_name = fn, sc_client = p, sc_archive = cs_archives cs\<rparr>"

text \<open>What \<open>dispatch_func\<close> makes of the outcome of the function it called.\<close>

definition dispatched :: "('k, 'i, 'ty, 'v, 'a) service_cfg \<Rightarrow> string \<Rightarrow>
    (unit, ('k, 'a, 'u) service) res \<Rightarrow> (unit, ('k, 'a, 'u) service) res" where
  "dispatched cfg fn r =
     (case r of
        Ret u s \<Rightarrow> Ret () s
      | Exn e s \<Rightarrow> if is_std_exception e then Exn (RuntimeError
          (''cercall::Service::dispatch_func: failed to call cercall function '' @ fn @ '': '' @ sc_what cfg e)) s
        else Exn e s)"

lemma dispatched_Ret [simp]: "dispatched cfg fn (Ret u s) = Ret () s"
  by (simp add: dispatched_def)

lemma dispatch_func_calls:
  assumes "D fn = Some e" and "de_one_way e \<or> (fn, p) \<notin> set (myPendingCalls s)"
    and "deserialize_args (sc_arch cfg) (de_args e) i = Some vs"
  shows "dispatch_func cfg D p cs fn i s = dispatched cfg fn
    (de_func e vs (if de_one_way e then None else Some (call_closure_of fn p cs))
      (if de_one_way e then s else s\<lparr>myPendingCalls := (fn, p) # myPendingCalls s\<rparr>))"
  using assms
  by (auto simp: dispatch_func_def is_one_way_def dict_find_def find_pending_iff call_function_def
      function_caller_def dispatched_def Let_def)

lemma service_handler_calls:
  assumes "archive_ok (sc_arch cfg) tyof" and "map_of (myClients s) p = Some cs"
    and "D fn = Some e" and "map tyof vs = de_args e"
    and "de_one_way e \<or> (fn, p) \<notin> set (myPendingCalls s)"
  shows "service_message_handler cfg D p (strip_header (serialize_call (sc_arch cfg) (cs_archives cs) fn vs)) s =
    dispatched cfg fn
      (if de_one_way e then de_func e vs None s
       else de_func e vs (Some (call_closure_of fn p cs)) (s\<lparr>myPendingCalls := (fn, p) # myPendingCalls s\<rparr>))"
proof -
  obtain i where i: "deserialize_call (sc_arch cfg) (cs_archives cs)
      (strip_header (serialize_call (sc_arch cfg) (cs_archives cs) fn vs)) = Some (fn, i)"
    and "reads (sc_arch cfg) tyof i (map IValue vs)"
    using deserialize_call_items [OF assms(1), of "cs_archives cs" fn "map IValue vs"]
    by (auto simp: serialize_call_def serialize_args_def)
  then have "deserialize_args (sc_arch cfg) (de_args e) i = Some vs"
    using assms(4) by (intro deserialize_args_reads)
  with assms(2,3,5) i show ?thesis
    by (simp add: service_message_handler_def dispatch_func_calls)
qed

text \<open>
  C17: A call reaches its function. When the body of a call message, as the client's serializer
  wrote it, is handled for a client that has no call of that function pending, the function of
  that name is called, once, with the arguments that were sent; a two-way function gets the
  closure of this call and the call is recorded as pending first, a one-way function gets no
  closure and nothing is recorded.
\<close>

theorem call_reaches_function:
  assumes "archive_ok (sc_arch cfg) tyof" and "map_of (myClients s) p = Some cs"
    and "D fn = Some e" and "map tyof vs = de_args e"
    and "de_one_way e \<or> (fn, p) \<notin> set (myPendingCalls s)"
  shows "service_message_handler cfg D p (strip_header (serialize_call (sc_arch cfg) (cs_archives cs) fn vs)) s =
    dispatched cfg fn
      (if de_one_way e then de_func e vs None s
       else de_func e vs (Some (call_closure_of fn p cs)) (s\<lparr>myPendingCalls := (fn, p) # myPendingCalls s\<rparr>))"
  using assms by (rule service_handler_calls)

lemma sample_dict_add:
  "\<exists>e. sample_dict ''CalculatorInterface::add'' = Some e \<and> de_args e = [(), (), ()] \<and> \<not> de_one_way e \<and>
     (\<forall>vs c s. de_func e vs (Some c) s =
        bind_res (run_service_closure sample_service_cfg c (Result_value (sum_list vs) Error_none) s)
          (\<lambda>_ s. Ret () s))"
  by (simp add: sample_dict_def scripted_dict_def scripted_def)
     (auto intro: bind_res_cong)

theorem call_reaches_function_witness:
  "\<exists>s1. service_message_handler sample_service_cfg sample_dict 1
      (strip_header (serialize_call sample_archive True ''CalculatorInterface::add'' [1, 2, 3]))
      (sample_service False) = Ret () s1 \<and> myPendingCalls s1 = []"
proof -
  obtain e where e: "sample_dict ''CalculatorInterface::add'' = Some e" "de_args e = [(), (), ()]"
      "\<not> de_one_way e"
    and f: "\<And>vs c s. de_func e vs (Some c) s =
        bind_res (run_service_closure sample_service_cfg c (Result_value (sum_list vs) Error_none) s)
          (\<lambda>_ s. Ret () s)"
    using sample_dict_add by blast
  let ?cs = "\<lparr>cs_messenger = new_messenger, cs_archives = True\<rparr>"
  have "service_message_handler sample_service_cfg sample_dict 1
      (strip_header (serialize_call sample_archive True ''CalculatorInterface::add'' [1, 2, 3]))
      (sample_service False) =
    dispatched sample_service_cfg ''CalculatorInterface::add''
      (de_func e [1, 2, 3] (Some sample_call) (sample_pending False))"
    using call_reaches_function [of sample_service_cfg "\<lambda>_. ()" "sample_service False" 1 ?cs sample_dict
        "''CalculatorInterface::add''" e "[1, 2, 3]"] e sample_archive_ok
    by (simp add: sample_service_def sample_pending_def sample_call_def)
  moreover have "run_service_closure sample_service_cfg sample_call (Result_value 6 Error_none) (sample_pending False) =
    Ret () ((peer_written sample_service_cfg 1 (result_message sample_service_cfg sample_call
        (Result_value 6 Error_none)) (sample_pending False))\<lparr>myPendingCalls := []\<rparr>)"
    using run_service_closure_sends [of "sample_pending False" sample_call sample_service_cfg
        "Result_value 6 Error_none"] sample_peer_writes [OF sample_result_length, of False 1 6]
    by (simp add: sample_pending_def sample_call_def sample_service_def)
  ultimately show ?thesis
    by (simp add: f)
qed

lemma dispatch_unknown:
  "D fn = None \<Longrightarrow> dispatch_func cfg D p cs fn i s =
   Exn (LogicError (fn @ '' not found in function dictionary'')) s"
  by (simp add: dispatch_func_def is_one_way_def dict_find_def)

text \<open>
  C21: While a call is pending, the same client's next call of that function is refused: the
  client gets a result message with the error \<open>EINPROGRESS\<close>, the function is not called, and
  nothing but the socket changes.
\<close>

theorem second_call_refused:
  assumes "D fn = Some e" and "\<not> de_one_way e" and "(fn, p) \<in> set (myPendingCalls s)"
    and "peer_writes cfg p (serialize_call_result (sc_arch cfg) (cs_archives cs) fn
           (Result_error None operation_in_progress)) s"
  shows "dispatch_func cfg D p cs fn i s =
    Ret () (peer_written cfg p (serialize_call_result (sc_arch cfg) (cs_archives cs) fn
      (Result_error None operation_in_progress)) s)"
  using assms
  by (simp add: dispatch_func_def is_one_way_def dict_find_def find_pending_iff service_write_ok)

theorem second_call_refused_witness:
  "\<exists>msg. dispatch_func sample_service_cfg sample_dict 1 \<lparr>cs_messenger = new_messenger, cs_archives = True\<rparr>
     ''CalculatorInterface::add'' [] (sample_pending False) =
   Ret () (peer_written sample_service_cfg 1 msg (sample_pending False))"
proof -
  obtain e where e: "sample_dict ''CalculatorInterface::add'' = Some e" "\<not> de_one_way e"
    using sample_dict_add by blast
  let ?m = "serialize_call_result sample_archive True ''CalculatorInterface::add''
      (Result_error None operation_in_progress)"
  have "HEADER_SIZE \<le> length ?m" "length ?m \<le> 1000"
    by (simp_all add: serialize_call_result_def serialize_items_def sample_message_length
        save_result_def save_error_def Result_error_def HEADER_SIZE_def operation_in_progress_def
        Error_of_code_def errno_defs)
  then have "peer_writes sample_service_cfg 1 ?m (sample_pending False)"
    using sample_peer_writes [of ?m False 1] by (simp add: sample_pending_def)
  then show ?thesis
    using second_call_refused [of sample_dict "''CalculatorInterface::add''" e 1 "sample_pending False"
        sample_service_cfg "\<lparr>cs_messenger = new_messenger, cs_archives = True\<rparr>" "[]"] e
    by (auto simp: sample_pending_def)
qed

end
