(* ===== verification/Service_Faults.thy ===== *)
theory Service_Faults
  imports Service_Spec
begin

text \<open>
  A service when its clients come and go: broadcasts, results for clients that have
  disconnected, writes that fail in the middle of an operation, calls that stay pending, and
  the acceptor's error paths.
\<close>

section \<open>Broadcasts\<close>

abbreviation event_message :: "('k, 'i, 'ty, 'v, 'a) service_cfg \<Rightarrow> client_state \<Rightarrow> 'v \<Rightarrow> byte list" where
  "event_message cfg cs ev \<equiv> serialize_event (sc_arch cfg) (cs_archives cs) (bcastFuncName cfg) ev"

lemma peer_writes_other:
  "q \<noteq> p \<Longrightarrow> peer_writes cfg q m (peer_written cfg p msg s) = peer_writes cfg q m s"
  by (simp add: peer_writes_def split: sum.split)

lemma peer_written_transport:
  "svTransports s q = svTransports s' q \<Longrightarrow>
   svTransports (peer_written cfg q m s) q = svTransports (peer_written cfg q m s') q"
  by (simp add: peer_written_def split: sum.split)

text \<open>The transports after each client of a list got its message.\<close>

definition everybody_written :: "('k, 'i, 'ty, 'v, 'a) service_cfg \<Rightarrow> 'v \<Rightarrow> (nat \<times> client_state) list \<Rightarrow>
    ('k, 'a, 'u) service \<Rightarrow> ('k, 'a, 'u) service" where
  "everybody_written cfg ev cls s =
     fold (\<lambda>(p, cs). peer_written cfg p (event_message cfg cs ev)) cls s"

lemma everybody_written_Cons:
  "everybody_written cfg ev ((p, cs) # cls) s =
   everybody_written cfg ev cls (peer_written cfg p (event_message cfg cs ev) s)"
  by (simp add: everybody_written_def)

lemma everybody_written_simps [simp]:
  "myClients (everybody_written cfg ev cls s) = myClients s"
  "myPendingCalls (everybody_written cfg ev cls s) = myPendingCalls s"
  "svUser (everybody_written cfg ev cls s) = svUser s"
  "svRunningThread (everybody_written cfg ev cls s) = svRunningThread s"
  "svThreadId (everybody_written cfg ev cls s) = svThreadId s"
  by (induction cls arbitrary: s) (auto simp: everybody_written_def)

lemma everybody_written_at:
  "distinct (map fst cls) \<Longrightarrow> svTransports (everybody_written cfg ev cls s) q =
     (case map_of cls q of
        None \<Rightarrow> svTransports s q
      | Some cs \<Rightarrow> svTransports (peer_written cfg q (event_message cfg cs ev) s) q)"
proof (induction cls arbitrary: s)
  case (Cons c cls)
  obtain p cs where c: "c = (p, cs)" by (cases c)
  let ?s1 = "peer_written cfg p (event_message cfg cs ev) s"
  show ?case
  proof (cases "q = p")
    case True
    with Cons c have "map_of cls q = None"
      by (auto simp: map_of_eq_None_iff)
    with Cons c True show ?thesis by (simp add: everybody_written_Cons)
  next
    case False
    then have "svTransports (peer_written cfg q m ?s1) q = svTransports (peer_written cfg q m s) q" for m
      by (intro peer_written_transport) simp
    with Cons c False show ?thesis
      by (simp add: everybody_written_Cons split: option.split)
  qed
qed (simp add: everybody_written_def)

lemma broadcast_loop_writes:
  "distinct (map fst cls) \<Longrightarrow> \<forall>(p, cs) \<in> set cls. in_keys p (myClients s) \<and>
     peer_writes cfg p (event_message cfg cs ev) s \<Longrightarrow>
   broadcast_loop cfg ev cls s = Ret () (everybody_written cfg ev cls s)"
proof (induction cls arbitrary: s)
  case (Cons c cls)
  obtain p cs where c: "c = (p, cs)" by (cases c)
  let ?s1 = "peer_written cfg p (event_message cfg cs ev) s"
  have "\<forall>(q, ds) \<in> set cls. q \<noteq> p"
    using Cons.prems(1) c by (auto intro: rev_image_eqI)
  then have "broadcast_loop cfg ev cls ?s1 = Ret () (everybody_written cfg ev cls ?s1)"
    using Cons.prems c by (intro Cons.IH) (fastforce simp: peer_writes_other)+
  with Cons.prems c show ?case
    by (simp add: service_write_ok everybody_written_Cons)
qed (simp add: everybody_written_def)

lemma sorted_keys_distinct: "sorted_wrt (<) (xs :: nat list) \<Longrightarrow> distinct xs"
  by (induction xs) auto

lemma broadcast_writes:
  assumes "service_inv s"
    and "\<forall>(p, cs) \<in> set (myClients s). peer_writes cfg p (event_message cfg cs ev) s"
  shows "broadcast cfg ev s = Ret () (everybody_written cfg ev (myClients s) s)"
    and "svTransports (everybody_written cfg ev (myClients s) s) q = (case map_of (myClients s) q of
        None \<Rightarrow> svTransports s q
      | Some cs \<Rightarrow> svTransports (peer_written cfg q (event_message cfg cs ev) s) q)"
proof -
  have d: "distinct (map fst (myClients s))" and th: "svRunningThread s = svThreadId s"
    using assms(1) sorted_keys_distinct by (auto simp: service_inv_def)
  have "broadcast_loop cfg ev (myClients s) s = Ret () (everybody_written cfg ev (myClients s) s)"
    by (rule broadcast_loop_writes [OF d]) (use assms(2) in \<open>force simp: in_keys_def\<close>)
  then show "broadcast cfg ev s = Ret () (everybody_written cfg ev (myClients s) s)"
    using th by (cases "myClients s") (simp_all add: broadcast_def service_check_thread_def)
  show "svTransports (everybody_written cfg ev (myClients s) s) q = (case map_of (myClients s) q of
        None \<Rightarrow> svTransports s q
      | Some cs \<Rightarrow> svTransports (peer_written cfg q (event_message cfg cs ev) s) q)"
    by (rule everybody_written_at [OF d])
qed

text \<open>
  C22: A broadcast sends the event to every connected client: one message each, through the
  client's own archive, and to nobody else; no client is lost.
\<close>

theorem broadcast_reaches_clients:
  assumes "service_inv s"
    and "\<forall>(p, cs) \<in> set (myClients s). peer_writes cfg p (event_message cfg cs ev) s"
  shows "\<exists>s1. broadcast cfg ev s = Ret () s1 \<and> myClients s1 = myClients s \<and>
     (\<forall>q. svTransports s1 q = (case map_of (myClients s) q of
        None \<Rightarrow> svTransports s q
      | Some cs \<Rightarrow> svTransports (peer_written cfg q (event_message cfg cs ev) s) q))"
  using broadcast_writes [OF assms] by auto

lemma sample_event_writes:
  "\<not> b \<or> p \<noteq> 1 \<Longrightarrow> peer_writes sample_service_cfg p
     (event_message sample_service_cfg \<lparr>cs_messenger = m, cs_archives = True\<rparr> 5) (sample_service b)"
  using sample_peer_writes [of "event_message sample_service_cfg \<lparr>cs_messenger = m, cs_archives = True\<rparr> 5" b p "[]"]
  by (simp add: serialize_event_def serialize_items_def sample_message_length HEADER_SIZE_def
      bcastFuncName_def sample_service_def)

theorem broadcast_reaches_clients_witness:
  "\<exists>s1. broadcast sample_service_cfg 5 (sample_service False) = Ret () s1 \<and>
     myClients s1 = myClients (sample_service False)"
proof -
  have "\<forall>(p, cs) \<in> set (myClients (sample_service False)).
      peer_writes sample_service_cfg p (event_message sample_service_cfg cs 5) (sample_service False)"
    using sample_event_writes [of False _ new_messenger] by (simp add: sample_service_def)
  from broadcast_reaches_clients [OF sample_service_inv this] show ?thesis by blast
qed


lemma sample_refuses:
  "HEADER_SIZE \<le> length msg \<Longrightarrow> length msg \<le> 1000 \<Longrightarrow>
   peer_refuses sample_service_cfg 1 msg ((sample_service True)\<lparr>myPendingCalls := cs, myClients := cls\<rparr>)"
  by (auto simp: peer_refuses_def client_open_at_def sample_service_simps message_with_header_def
      sample_io_def Let_def ec_samples ec_ok_def HEADER_SIZE_def)


section \<open>Results for clients that are gone\<close>

text \<open>
  C26: A result that is ready only after its client has disconnected is dropped and its call
  is no longer pending, if archives are made per message. If they are reusable, the closure
  serializes through the archive of the erased entry: the behaviour is undefined.
\<close>

theorem late_result:
  assumes "service_inv s" and "(sc_name c, p) \<in> set (myPendingCalls s)" and "sc_client c = p"
  shows "run_service_closure cfg c r (client_gone cfg p s) =
    (if sc_archive c then Exn (Undefined ''archive of a disconnected client'') (client_gone cfg p s)
     else Ret () ((client_gone cfg p s)\<lparr>myPendingCalls := remove1 (sc_name c, p) (myPendingCalls s)\<rparr>))"
  using assms
  by (simp add: run_service_closure_def send_result_def find_pending_iff client_gone_def service_inv_def)

theorem late_result_witness:
  "run_service_closure sample_service_cfg sample_call (Result_value 6 Error_none)
     (client_gone sample_service_cfg 1 (sample_pending False)) =
   Exn (Undefined ''archive of a disconnected client'') (client_gone sample_service_cfg 1 (sample_pending False))"
  using late_result [OF sample_pending_inv [of False], of sample_call 1 sample_service_cfg]
  by (simp add: sample_pending_def sample_call_def)

section \<open>Calls that stay pending\<close>

text \<open>
  A call whose arguments cannot be read fails with an exception, but stays recorded as
  pending: the client's next call of the function is refused as if the first were running.
\<close>

lemma failed_call_stays_pending:
  assumes "D fn = Some e" and "\<not> de_one_way e" and "(fn, p) \<notin> set (myPendingCalls s)"
    and "deserialize_args (sc_arch cfg) (de_args e) i = None"
  shows "\<exists>s1 msg. dispatch_func cfg D p cs fn i s = Exn (RuntimeError msg) s1 \<and>
     (fn, p) \<in> set (myPendingCalls s1) \<and> svTransports s1 = svTransports s \<and>
     (\<forall>j. dispatch_func cfg D p cs fn j s1 =
        bind_res (service_write cfg p (serialize_call_result (sc_arch cfg) (cs_archives cs) fn
          (Result_error None operation_in_progress)) s1) (\<lambda>_ s2. Ret () s2))"
  using assms
  by (simp add: dispatch_func_def is_one_way_def dict_find_def find_pending_iff call_function_def
      function_caller_def Let_def)

text \<open>
  C27: Pending calls are keyed by the address of the client's transport and outlive the
  client. When a new client's transport gets an address of which a call is still recorded, the
  new client's first call of that function is refused.
\<close>

theorem new_client_inherits_pending_call:
  assumes "\<not> in_keys p (myClients s)" and "(fn, p) \<in> set (myPendingCalls s)"
    and "D fn = Some e" and "\<not> de_one_way e"
  shows "\<exists>s1. service_on_client_accepted cfg D p k s = Ret () s1 \<and>
     (\<exists>cs. map_of (myClients s1) p = Some cs \<and>
       (\<forall>i. dispatch_func cfg D p cs fn i s1 =
          bind_res (service_write cfg p (serialize_call_result (sc_arch cfg) (cs_archives cs) fn
            (Result_error None operation_in_progress)) s1) (\<lambda>_ s2. Ret () s2)))"
  using assms
  by (simp add: accept_client_eq dispatch_func_def is_one_way_def dict_find_def find_pending_iff)

theorem new_client_inherits_pending_call_witness:
  "\<exists>s1. service_on_client_accepted sample_service_cfg sample_dict 1 sample_sock
      (client_gone sample_service_cfg 1 (sample_pending False)) = Ret () s1 \<and> in_keys 1 (myClients s1)"
proof -
  obtain e where "sample_dict ''CalculatorInterface::add'' = Some e" "\<not> de_one_way e"
    using sample_dict_add by blast
  then show ?thesis
    using new_client_inherits_pending_call [of 1 "client_gone sample_service_cfg 1 (sample_pending False)"
        "''CalculatorInterface::add''" sample_dict e sample_service_cfg sample_sock]
    by (auto simp: client_gone_def sample_pending_def sample_service_def in_keys_map_of)
qed

end
