(* ===== verification/Service_Endpoint.thy ===== *)
theory Service_Endpoint
  imports Service_Faults
begin

text \<open>
  The lifetime of a service's parts: a client's messenger that is destroyed while it runs,
  completions that arrive after a client or the acceptor is gone, the error paths of accepting,
  and a \<open>stop\<close> that does not end.
\<close>

section \<open>A client lost while its message is handled\<close>

lemma run_service_closure_refused:
  assumes "clean_sockets (sc_io cfg)" and "service_inv s" and "in_keys (sc_client c) (myClients s)"
    and "(sc_name c, sc_client c) \<in> set (myPendingCalls s)"
    and "peer_refuses cfg (sc_client c) (result_message cfg c r) s"
  shows "\<exists>s1. run_service_closure cfg c r s = Ret () s1 \<and> \<not> in_keys (sc_client c) (myClients s1)"
proof -
  have th: "svRunningThread s = svThreadId s"
    using assms(2) by (simp add: service_inv_def)
  then show ?thesis
    using service_write_refused [OF assms(1) th assms(5)] assms(3,4)
    by (auto simp: run_service_closure_def send_result_def find_pending_iff client_gone_def)
qed

lemma service_receive_message:
  assumes "service_inv s" and "map_of (myClients s) p = Some cs"
    and "myReceiveState (cs_messenger cs) = MESSAGE"
    and "unat (myIncomingMsgSize (cs_messenger cs)) = length body"
  shows "service_receive cfg D p body s =
    (let s0 = s\<lparr>svTransports := (svTransports s)(p := (svTransports s p)\<lparr>myBuffer := body\<rparr>)\<rparr>
     in case service_message_handler cfg D p body s0 of
          Exn e s1 \<Rightarrow> Exn e (store_messenger p (cs_messenger cs) s1)
        | Ret _ s1 \<Rightarrow>
            if \<not> in_keys p (myClients s1)
            then Exn (Undefined ''messenger used after its destruction'')
                   (store_messenger p (cs_messenger cs) s1)
            else Ret () (store_messenger p ((cs_messenger cs)\<lparr>myReceiveState := HEADER\<rparr>)
              (s1\<lparr>svTransports := (svTransports s1)(p := tr_read (sc_io cfg) HEADER_SIZE (svTransports s1 p))\<rparr>)))"
proof -
  let ?s0 = "s\<lparr>svTransports := (svTransports s)(p := (svTransports s p)\<lparr>myBuffer := body\<rparr>)\<rparr>"
  have "in_keys p (myClients s)"
    using assms(2) by (simp add: in_keys_map_of)
  then have "myListener (svTransports s p)" "svRunningThread s = svThreadId s"
    using assms(1) by (auto simp: service_inv_def client_open_at_def)
  moreover have "messenger_read (sc_endian cfg) (service_reader cfg D p) (length body) 0 (?s0, cs_messenger cs) =
      (case service_message_handler cfg D p body ?s0 of
         Exn e s1 \<Rightarrow> Exn e (s1, cs_messenger cs)
       | Ret _ s1 \<Rightarrow>
           if \<not> in_keys p (myClients s1)
           then Exn (Undefined ''messenger used after its destruction'') (s1, cs_messenger cs)
           else Ret (length body) (s1\<lparr>svTransports := (svTransports s1)(p := tr_read (sc_io cfg) HEADER_SIZE
                  (svTransports s1 p))\<rparr>, (cs_messenger cs)\<lparr>myReceiveState := HEADER\<rparr>))"
    using messenger_read_message [OF assms(3), of "service_reader cfg D p" ?s0 "sc_endian cfg" 0] assms(4)
    by (simp add: service_reader_def get_read_data_def split: res.split)
  ultimately show ?thesis
    using assms(2)
    by (simp add: service_receive_def recv_completed_def handle_recv_def ec_ok_def service_listener_def
        service_on_incoming_data_def service_check_thread_def Let_def split: res.split)
qed

text \<open>
  C24: When a service function answers at once and the socket refuses the answer, the
  connection is closed and the client's entry erased, with the messenger that is just reading
  the call: the messenger goes on after its destruction, which is undefined behaviour.
\<close>

theorem refused_answer_undefined:
  assumes "clean_sockets (sc_io cfg)" and "service_inv s" and "archive_ok (sc_arch cfg) tyof"
    and "map_of (myClients s) p = Some cs" and "myReceiveState (cs_messenger cs) = MESSAGE"
    and "unat (myIncomingMsgSize (cs_messenger cs)) = length body"
    and "body = strip_header (serialize_call (sc_arch cfg) (cs_archives cs) fn vs)"
    and "D fn = Some e" and "\<not> de_one_way e" and "map tyof vs = de_args e"
    and "(fn, p) \<notin> set (myPendingCalls s)"
    and "\<And>c s. de_func e vs (Some c) s = run_service_closure cfg c r s"
    and "peer_refuses cfg p (serialize_call_result (sc_arch cfg) (cs_archives cs) fn r) s"
  shows "\<exists>s1. service_receive cfg D p body s =
     Exn (Undefined ''messenger used after its destruction'') s1"
proof -
  let ?s0 = "s\<lparr>svTransports := (svTransports s)(p := (svTransports s p)\<lparr>myBuffer := body\<rparr>)\<rparr>"
  let ?s1 = "?s0\<lparr>myPendingCalls := (fn, p) # myPendingCalls s\<rparr>"
  let ?c = "call_closure_of fn p cs"
  have inv: "service_inv ?s1"
    using service_inv_pending(2) [of ?s0 "(fn, p)"] assms(2,11) by (simp add: service_inv_transport)
  have keys: "in_keys p (myClients s)"
    using assms(4) by (simp add: in_keys_map_of)
  have "peer_refuses cfg p (result_message cfg ?c r) ?s1"
    using assms(13) by (simp add: peer_refuses_def client_open_at_def split: sum.splits)
  then obtain s2 where s2: "run_service_closure cfg ?c r ?s1 = Ret () s2" "\<not> in_keys p (myClients s2)"
    using run_service_closure_refused [OF assms(1) inv, of ?c r] keys by auto
  have "service_message_handler cfg D p body ?s0 = Ret () s2"
    using service_handler_calls [OF assms(3), of ?s0 p cs D fn e vs] assms(4,7-12) s2(1)
    by simp
  with s2(2) show ?thesis
    by (simp add: service_receive_message [OF assms(2,4,5,6)])
qed

text \<open>The sample service, waiting for the body of a call of \<open>add\<close>.\<close>

definition sample_body :: "byte list" where
  "sample_body = strip_header (serialize_call sample_archive True ''CalculatorInterface::add'' [1, 2, 3])"

definition sample_receiving :: "bool \<Rightarrow> sample_state" where
  "sample_receiving b = (sample_service b)\<lparr>myClients :=
     [(1, \<lparr>cs_messenger = \<lparr>myReceiveState = MESSAGE, myIncomingMsgSize = word_of_nat (length sample_body)\<rparr>,
           cs_archives = True\<rparr>)]\<rparr>"

lemma sample_body_length: "length sample_body = 61"
  by (simp add: sample_body_def serialize_call_def serialize_items_def sample_message_length
      serialize_args_def u32_bytes_def)

lemma sample_receiving_inv: "service_inv (sample_receiving b)"
  by (auto simp: service_inv_def client_open_at_def sample_receiving_def sample_service_simps)

definition sample_entry :: "(unit, cint, sample_state) dict_entry" where
  "sample_entry =
     \<lparr>de_func = (\<lambda>vs c s. case c of None \<Rightarrow> Ret () s
        | Some c \<Rightarrow> run_service_closure sample_service_cfg c (Result_value 6 Error_none) s),
      de_args = [(), (), ()], de_result = Some (), de_one_way = False\<rparr>"

theorem refused_answer_undefined_witness:
  "\<exists>s1. service_receive sample_service_cfg [''CalculatorInterface::add'' \<mapsto> sample_entry] 1 sample_body
       (sample_receiving True) =
     Exn (Undefined ''messenger used after its destruction'') s1"
proof (rule refused_answer_undefined [OF sample_sockets_clean sample_receiving_inv,
      where tyof = "\<lambda>_. ()" and fn = "''CalculatorInterface::add''" and vs = "[1, 2, 3]"
        and r = "Result_value 6 Error_none" and e = sample_entry])
  let ?cs = "\<lparr>cs_messenger = \<lparr>myReceiveState = MESSAGE, myIncomingMsgSize = word_of_nat (length sample_body)\<rparr>,
     cs_archives = True\<rparr>"
  show "map_of (myClients (sample_receiving True)) 1 = Some ?cs"
    by (simp add: sample_receiving_def)
  show "unat (myIncomingMsgSize (cs_messenger ?cs)) = length sample_body"
    by (simp add: sample_body_length)
  show "sample_body = strip_header (serialize_call (sc_arch sample_service_cfg) (cs_archives ?cs)
      ''CalculatorInterface::add'' [1, 2, 3])"
    by (simp add: sample_body_def)
  show "peer_refuses sample_service_cfg 1 (serialize_call_result (sc_arch sample_service_cfg) (cs_archives ?cs)
      ''CalculatorInterface::add'' (Result_value 6 Error_none)) (sample_receiving True)"
    using sample_refuses [OF sample_result_length, of 6 "[(1, ?cs)]" "[]"]
    by (simp add: sample_receiving_def sample_service_def sample_call_def)
qed (simp_all add: sample_archive_ok sample_receiving_def sample_service_def sample_entry_def)

section \<open>Completions that come late\<close>

text \<open>
  A read of a client that has completed but not been delivered when the service loses the
  client ends in a failed assertion: the transport has no listener any more. The cancelled
  reads that are the normal case are ignored.
\<close>

lemma late_read_completion:
  "(\<exists>s1. service_receive cfg D p data (client_gone cfg p s) =
      Exn (AssertFailed ''myListener != nullptr'') s1) \<and>
   (operation_aborted ec \<longrightarrow>
      service_handle_recv cfg D p ec n (client_gone cfg p s) = Ret () (client_gone cfg p s))"
  by (simp add: service_receive_def service_handle_recv_def recv_completed_def handle_recv_def ec_ok_def
      client_gone_def clear_listener_def operation_aborted_def errno_defs closed_transport_def tr_close_def)

section \<open>A stop that hangs\<close>

lemma close_clients_stuck:
  assumes "myState (svTransports s (fst c)) \<noteq> OPEN" and "myClients s = c # cs"
  shows "close_clients cfg s = None"
proof (rule ccontr)
  assume "close_clients cfg s \<noteq> None"
  then obtain r where r: "close_clients cfg s = Some r" by blast
  have "\<not> (cfg = cfg \<and> s = s)"
  proof (rule close_clients.raw_induct [of "\<lambda>cfg' s' r'. \<not> (cfg' = cfg \<and> s' = s)", OF _ r], goal_cases)
    case (1 f cfg' s' r')
    show ?case
    proof
      assume eq: "cfg' = cfg \<and> s' = s"
      have "service_close_client cfg (fst c) s = Ret () s"
        using assms(1) by (simp add: service_close_client_def tr_close_def)
      with "1"(2) assms(2) eq have "f cfg s = Some r'"
        by simp
      from "1"(1) [OF this] show False by blast
    qed
  qed
  then show False by blast
qed


text \<open>The sample service with one client, on a socket library whose \<open>close\<close> fails.\<close>

definition failing_close_cfg ::
  "(sample_socket, byte list, unit, cint, sample_acceptor) service_cfg" where
  "failing_close_cfg = sample_service_cfg\<lparr>sc_io := sample_io\<lparr>io_close := (\<lambda>k. (ec_reset, k))\<rparr>\<rparr>"


section \<open>Accepting\<close>

text \<open>
  When the port cannot be bound, \<open>start\<close> throws and leaves the endpoint open but unbound:
  a second \<open>start\<close> does nothing at all and reports nothing.
\<close>

lemma start_after_failed_bind:
  assumes "svRunningThread s = svThreadId s" and "ac_listener (myAcceptor s)"
    and "\<not> acceptor_is_open (sc_accept cfg) service_alens s"
    and "ai_open (sc_accept cfg) (ac_socket (myAcceptor s)) = (e1, a1)" and "ec_ok e1"
    and "ai_set_reuse_address (sc_accept cfg) a1 = (e2, a2)" and "ec_ok e2"
    and "ai_bind (sc_accept cfg) a2 = (ec, a3)" and "\<not> ec_ok ec"
    and "ai_is_open (sc_accept cfg) a3"
  shows "\<exists>msg s1. start_service cfg n s = Exn (RuntimeError msg) s1 \<and> start_service cfg n' s1 = Ret () s1"
  using assms
  by (simp add: start_service_def service_check_thread_def acceptor_open_def acceptor_is_open_def
      set_acceptor_socket_def acceptor_set_socket_options_def service_on_accept_error_def Let_def)

text \<open>
  An error of one accept stops accepting. The service throws out of the completion, before
  the next accept is started, and its acceptor stays open: clients that connect afterwards
  wait, and \<open>start\<close> does nothing. The same exception is thrown, with an empty error, when an
  accept succeeds just before the acceptor was closed.
\<close>

lemma accept_error_ends_accepting:
  assumes "svRunningThread s = svThreadId s" and "ac_alive (myAcceptor s)"
    and "acceptor_is_open (sc_accept cfg) service_alens s \<longleftrightarrow> \<not> ec_ok ec"
  shows "service_accept cfg D ec p k s = Exn (RuntimeError
      (''cercall::Service::on_accept_error: accept failed: '' @ (if ec_ok ec then '''' else ec_message ec))) s \<and>
    (\<not> ec_ok ec \<longrightarrow> start_service cfg n s = Ret () s)"
  using assms
  by (auto simp: service_accept_def accept_completed_def service_accept_listener_def
      service_on_accept_error_def service_check_thread_def start_service_def Error_of_code_def ec_ok_def
      operation_aborted_def errno_defs)

text \<open>
  C23: A client that is accepted is registered under the address of its transport, which is
  open and waits for a message header, and the next accept is started.
\<close>

theorem accepted_client_is_served:
  assumes "ec_ok ec" and "ac_alive (myAcceptor s)" and "ac_listener (myAcceptor s)"
    and "acceptor_is_open (sc_accept cfg) service_alens s" and "\<not> in_keys p (myClients s)"
  shows "\<exists>s1. service_accept cfg D ec p k s = Ret () s1 \<and>
     map_of (myClients s1) = (map_of (myClients s))
       (p \<mapsto> \<lparr>cs_messenger = new_messenger, cs_archives = sc_reusable cfg\<rparr>) \<and>
     client_open_at s1 p \<and> length (myBuffer (svTransports s1 p)) = HEADER_SIZE \<and>
     mySocket (svTransports s1 p) = io_async_read (sc_io cfg) HEADER_SIZE k \<and>
     ac_socket (myAcceptor s1) = ai_async_accept (sc_accept cfg) (ac_socket (myAcceptor s))"
  using assms
  by (simp add: service_accept_def accept_completed_def service_accept_listener_def accept_client_eq
      acceptor_is_open_def start_accept_def set_acceptor_socket_def client_open_at_def set_listener_def
      new_transport_def tr_read_def)

theorem accepted_client_is_served_witness:
  "\<exists>s1. service_accept sample_service_cfg sample_dict ec_success 3 sample_sock (sample_service False) = Ret () s1 \<and>
     client_open_at s1 3 \<and> accepting (ac_socket (myAcceptor s1)) = 2"
  using accepted_client_is_served [of ec_success "sample_service False" sample_service_cfg 3 sample_dict sample_sock]
  by (auto simp: sample_service_def acceptor_is_open_def sample_accept_io_def ec_samples ec_ok_def)

end
