(* ===== verification/Rpc.thy ===== *)
theory Rpc
  imports Client_Stream Service_Endpoint
begin

text \<open>
  Client and service together: what the one writes, fed to the other. A call travels as the
  frame the client writes, is dispatched by the service's messenger, and its result travels
  back as the frame the service writes.
\<close>

section \<open>The service's end of a connection\<close>

definition service_pump :: "('k, 'i, 'ty, 'v, 'a) service_cfg \<Rightarrow> ('k, 'ty, 'v, 'a, 'u) service_dict \<Rightarrow>
    nat \<Rightarrow> byte list \<Rightarrow> ('k, 'a, 'u) service \<Rightarrow> (byte list, ('k, 'a, 'u) service) res" where
  "service_pump cfg D p = pump (sc_io cfg) (service_lens p) (service_listener cfg D p)"

definition service_at_header :: "nat \<Rightarrow> ('k, 'a, 'u) service \<Rightarrow> bool" where
  "service_at_header p s \<longleftrightarrow>
     (case map_of (myClients s) p of
        None \<Rightarrow> False
      | Some cs \<Rightarrow> myReceiveState (cs_messenger cs) = HEADER) \<and>
     length (myBuffer (svTransports s p)) = HEADER_SIZE"

lemma map_of_store_messenger [simp]:
  "map_of (myClients (store_messenger p m s)) q =
   map_option (\<lambda>cs. if q = p then cs\<lparr>cs_messenger := m\<rparr> else cs) (map_of (myClients s) q)"
proof -
  have "map_of (map (\<lambda>(r, cs). (r, if r = p then cs\<lparr>cs_messenger := m\<rparr> else cs)) xs) q =
      map_option (\<lambda>cs. if q = p then cs\<lparr>cs_messenger := m\<rparr> else cs) (map_of xs q)"
    for xs :: "(nat \<times> client_state) list"
    by (induction xs) auto
  then show ?thesis by (simp add: store_messenger_def)
qed

lemma store_messenger_simps [simp]:
  "svTransports (store_messenger p m s) = svTransports s"
  "myPendingCalls (store_messenger p m s) = myPendingCalls s"
  "svUser (store_messenger p m s) = svUser s"
  "svRunningThread (store_messenger p m s) = svRunningThread s"
  "svThreadId (store_messenger p m s) = svThreadId s"
  by (simp_all add: store_messenger_def)

lemma service_receive_header:
  assumes "service_inv s" and "map_of (myClients s) p = Some cs"
    and "myReceiveState (cs_messenger cs) = HEADER" and "body_ok body"
  shows "service_receive cfg D p (store_u32 (sc_endian cfg) (word_of_nat (length body))) s =
    Ret () (store_messenger p (msg_state MESSAGE body) (s\<lparr>svTransports := (svTransports s)
      (p := tr_read (sc_io cfg) (length body) ((svTransports s p)
         \<lparr>myBuffer := store_u32 (sc_endian cfg) (word_of_nat (length body))\<rparr>))\<rparr>))"
proof -
  let ?h = "store_u32 (sc_endian cfg) (word_of_nat (length body))"
  let ?s0 = "s\<lparr>svTransports := (svTransports s)(p := (svTransports s p)\<lparr>myBuffer := ?h\<rparr>)\<rparr>"
  have size: "unat (word_of_nat (length body) :: u32) = length body"
    using assms(4) by (simp add: body_ok_def HEADER_SIZE_def unat_of_nat)
  then have "(word_of_nat (length body) :: u32) \<noteq> 0"
    using assms(4) by (auto simp: body_ok_def)
  then have "messenger_read (sc_endian cfg) (service_reader cfg D p) HEADER_SIZE 0 (?s0, cs_messenger cs) =
      Ret HEADER_SIZE (rd_read (service_reader cfg D p) (length body) ?s0, msg_state MESSAGE body)"
    using assms(3) size
      messenger_read_header [of "cs_messenger cs" "service_reader cfg D p" ?s0 "sc_endian cfg" 0]
    by (simp add: service_reader_def get_read_data_def HEADER_SIZE_def msg_state_def)
  moreover have "in_keys p (myClients s)"
    using assms(2) by (simp add: in_keys_map_of)
  then have "myListener (svTransports s p)" "svRunningThread s = svThreadId s"
    using assms(1) by (auto simp: service_inv_def client_open_at_def)
  moreover have "length ?h = HEADER_SIZE"
    by (simp add: HEADER_SIZE_def)
  ultimately show ?thesis
    using assms(2)
    by (simp add: service_receive_def recv_completed_def handle_recv_def ec_ok_def service_listener_def
        service_on_incoming_data_def service_check_thread_def) (simp add: service_reader_def)
qed

lemma service_pump_step:
  assumes "length (myBuffer (svTransports s p)) = length a" and "a \<noteq> []"
  shows "service_pump cfg D p (a @ bs) s =
         bind_res (service_receive cfg D p a s) (\<lambda>_ s1. service_pump cfg D p bs s1)"
  using assms unfolding service_pump_def service_receive_def
  by (subst pump.simps) (simp add: Let_def)

lemma service_pump_Nil [simp]: "service_pump cfg D p [] s = Ret [] s"
  unfolding service_pump_def by (subst pump.simps) (auto simp: Let_def)

text \<open>The service when the body of a message from client \<open>p\<close> has arrived.\<close>

definition peer_received :: "('k, 'i, 'ty, 'v, 'a) service_cfg \<Rightarrow> nat \<Rightarrow> byte list \<Rightarrow>
    ('k, 'a, 'u) service \<Rightarrow> ('k, 'a, 'u) service" where
  "peer_received cfg p body s =
     store_messenger p (msg_state MESSAGE body) (s\<lparr>svTransports := (svTransports s)
       (p := (svTransports s p)\<lparr>myBuffer := body,
          mySocket := io_async_read (sc_io cfg) (length body) (mySocket (svTransports s p))\<rparr>)\<rparr>)"

lemma service_pump_frame:
  assumes "service_inv s" and "map_of (myClients s) p = Some cs" and "service_at_header p s"
    and "body_ok body"
    and "service_message_handler cfg D p body (peer_received cfg p body s) = Ret () s1"
    and "in_keys p (myClients s1)"
  shows "service_pump cfg D p (frame (sc_endian cfg) body) s =
    Ret [] (store_messenger p (msg_state HEADER body)
      (s1\<lparr>svTransports := (svTransports s1)(p := tr_read (sc_io cfg) HEADER_SIZE (svTransports s1 p))\<rparr>))"
proof -
  let ?h = "store_u32 (sc_endian cfg) (word_of_nat (length body))"
  let ?s1 = "store_messenger p (msg_state MESSAGE body) (s\<lparr>svTransports := (svTransports s)
      (p := tr_read (sc_io cfg) (length body) ((svTransports s p)\<lparr>myBuffer := ?h\<rparr>))\<rparr>)"
  have h: "length ?h = 4" by simp
  then have "?h \<noteq> []" by (metis list.size(3) zero_neq_numeral)
  then have "service_pump cfg D p (frame (sc_endian cfg) body) s =
      bind_res (service_receive cfg D p ?h s) (\<lambda>_. service_pump cfg D p body)"
    using service_pump_step [of s p ?h cfg D body] assms(3) h
    by (simp add: frame_def service_at_header_def HEADER_SIZE_def)
  also have "\<dots> = service_pump cfg D p body ?s1"
    using assms(2,3) by (simp add: service_receive_header [OF assms(1,2) _ assms(4)] service_at_header_def)
  also have "\<dots> = bind_res (service_receive cfg D p body ?s1) (\<lambda>_. Ret [])"
    using service_pump_step [of ?s1 p body cfg D "[]"] assms(4) by (simp add: body_ok_def)
  finally have pumped: "service_pump cfg D p (frame (sc_endian cfg) body) s =
      bind_res (service_receive cfg D p body ?s1) (\<lambda>_. Ret [])" .
  have inv: "service_inv ?s1"
    using assms(1) by (intro service_inv_store service_inv_transport) simp_all
  have cs: "map_of (myClients ?s1) p = Some (cs\<lparr>cs_messenger := msg_state MESSAGE body\<rparr>)"
    using assms(2) by simp
  have size: "unat (word_of_nat (length body) :: u32) = length body"
    using assms(4) by (simp add: body_ok_def HEADER_SIZE_def unat_of_nat)
  have "?s1\<lparr>svTransports := (svTransports ?s1)(p := (svTransports ?s1 p)\<lparr>myBuffer := body\<rparr>)\<rparr> =
      peer_received cfg p body s"
    by (cases s; cases "svTransports s p") (simp add: peer_received_def store_messenger_def tr_read_def)
  then have "service_receive cfg D p body ?s1 =
      Ret () (store_messenger p (msg_state HEADER body)
        (s1\<lparr>svTransports := (svTransports s1)(p := tr_read (sc_io cfg) HEADER_SIZE (svTransports s1 p))\<rparr>))"
    using service_receive_message [OF inv cs, of body cfg D] assms(5,6) size
    by (simp add: msg_state_def Let_def)
  with pumped show ?thesis by simp
qed

lemma peer_received_simps [simp]:
  "myPendingCalls (peer_received cfg p body s) = myPendingCalls s"
  "in_keys q (myClients (peer_received cfg p body s)) = in_keys q (myClients s)"
  "svRunningThread (peer_received cfg p body s) = svRunningThread s"
  "svThreadId (peer_received cfg p body s) = svThreadId s"
  "myState (svTransports (peer_received cfg p body s) q) = myState (svTransports s q)"
  "map_of (myClients s) p = Some cs \<Longrightarrow> map_of (myClients (peer_received cfg p body s)) p =
     Some (cs\<lparr>cs_messenger := msg_state MESSAGE body\<rparr>)"
  by (simp_all add: peer_received_def)

section \<open>A call that is answered at once\<close>

definition call_body :: "('i, 'ty, 'v) archive \<Rightarrow> bool \<Rightarrow> string \<Rightarrow> 'v list \<Rightarrow> byte list" where
  "call_body A ar fn vs = strip_header (serialize_call A ar fn vs)"

definition result_body :: "('i, 'ty, 'v) archive \<Rightarrow> bool \<Rightarrow> string \<Rightarrow> 'v result \<Rightarrow> byte list" where
  "result_body A ar fn r = strip_header (serialize_call_result A ar fn r)"

lemma body_frames:
  assumes "archive_ok A tyof"
  shows "call_body A ar fn vs \<noteq> []" and "result_body A ar fn r \<noteq> []"
    and "body_ok (call_body A ar fn vs) \<Longrightarrow>
         message_with_header en (serialize_call A ar fn vs) = Inr (frame en (call_body A ar fn vs))"
    and "body_ok (result_body A ar fn r) \<Longrightarrow>
         message_with_header en (serialize_call_result A ar fn r) = Inr (frame en (result_body A ar fn r))"
  using archive_ok_nonempty [OF assms]
  by (simp_all add: call_body_def result_body_def serialize_defs message_with_header_reserved body_ok_def)

lemma peer_written_inv: "service_inv s \<Longrightarrow> service_inv (peer_written cfg p msg s)"
  by (simp add: peer_written_def service_inv_transport split: sum.split)

lemma everybody_written_inv: "service_inv s \<Longrightarrow> service_inv (everybody_written cfg ev cls s)"
  unfolding everybody_written_def
  by (induction cls arbitrary: s) (simp_all add: peer_written_inv split: prod.split)

lemma peer_received_inv: "service_inv s \<Longrightarrow> service_inv (peer_received cfg p body s)"
  by (simp add: peer_received_def service_inv_store service_inv_transport)

lemma service_inv_calls: "service_inv s \<Longrightarrow> distinct pcs \<Longrightarrow> service_inv (s\<lparr>myPendingCalls := pcs\<rparr>)"
  by (simp add: service_inv_def client_open_at_def)

lemma service_answers_frame:
  assumes "service_inv S" and "archive_ok (sc_arch cfg) tyof" and "map_of (myClients S) p = Some cs"
    and "service_at_header p S" and "D fn = Some e" and "\<not> de_one_way e" and "map tyof vs = de_args e"
    and "(fn, p) \<notin> set (myPendingCalls S)"
    and "\<And>c s. de_func e vs (Some c) s = run_service_closure cfg c r s"
    and "body_ok (call_body (sc_arch cfg) (cs_archives cs) fn vs)"
    and "body_ok (result_body (sc_arch cfg) (cs_archives cs) fn r)"
    and "k = io_async_read (sc_io cfg) (length (call_body (sc_arch cfg) (cs_archives cs) fn vs))
           (mySocket (svTransports S p))"
    and "io_write (sc_io cfg) (frame (sc_endian cfg) (result_body (sc_arch cfg) (cs_archives cs) fn r)) k =
           (ec, k')" and "ec_ok ec"
  shows "\<exists>S1. service_pump cfg D p (frame (sc_endian cfg) (call_body (sc_arch cfg) (cs_archives cs) fn vs)) S =
       Ret [] S1 \<and> mySocket (svTransports S1 p) = io_async_read (sc_io cfg) HEADER_SIZE k' \<and>
     myPendingCalls S1 = myPendingCalls S \<and> service_at_header p S1 \<and> service_inv S1 \<and>
     (\<exists>cs1. map_of (myClients S1) p = Some cs1 \<and> cs_archives cs1 = cs_archives cs) \<and>
     (\<forall>q. q \<noteq> p \<longrightarrow> svTransports S1 q = svTransports S q)"
proof -
  let ?b = "call_body (sc_arch cfg) (cs_archives cs) fn vs"
  let ?c = "call_closure_of fn p cs"
  let ?S0 = "peer_received cfg p ?b S"
  let ?S1 = "?S0\<lparr>myPendingCalls := (fn, p) # myPendingCalls S\<rparr>"
  let ?S2 = "(peer_written cfg p (result_message cfg ?c r) ?S1)\<lparr>myPendingCalls := myPendingCalls S\<rparr>"
  have keys: "in_keys p (myClients S)" and open_p: "client_open_at S p" and th: "svRunningThread S = svThreadId S"
    using assms(1,3) by (auto simp: service_inv_def in_keys_map_of)
  have sock: "mySocket (svTransports ?S1 p) = k"
    by (simp add: peer_received_def assms(12))
  have msg: "message_with_header (sc_endian cfg) (result_message cfg ?c r) =
      Inr (frame (sc_endian cfg) (result_body (sc_arch cfg) (cs_archives cs) fn r))"
    using body_frames(4) [OF assms(2,11)] by simp
  have "peer_writes cfg p (result_message cfg ?c r) ?S1"
    using open_p sock msg assms(13,14) by (simp add: peer_writes_def client_open_at_def)
  then have "run_service_closure cfg ?c r ?S1 = Ret () ?S2"
    using run_service_closure_sends [of ?S1 ?c cfg r] th keys by simp
  then have handled: "service_message_handler cfg D p ?b ?S0 = Ret () ?S2"
    using service_handler_calls [OF assms(2), of ?S0 p "cs\<lparr>cs_messenger := msg_state MESSAGE ?b\<rparr>" D fn e vs]
      assms(3,5-9) by (simp add: call_body_def)
  have keys2: "in_keys p (myClients ?S2)"
    using keys by simp
  have sock2: "mySocket (svTransports ?S2 p) = k'"
    using sock msg assms(13) by (simp add: peer_written_def)
  have other: "q \<noteq> p \<Longrightarrow> svTransports ?S2 q = svTransports S q" for q
    by (simp add: peer_received_def)
  have "service_at_header p (store_messenger p (msg_state HEADER ?b)
      (?S2\<lparr>svTransports := (svTransports ?S2)(p := tr_read (sc_io cfg) HEADER_SIZE (svTransports ?S2 p))\<rparr>))"
    using assms(3) by (simp add: service_at_header_def msg_state_def)
  moreover have "service_inv (store_messenger p (msg_state HEADER ?b)
      (?S2\<lparr>svTransports := (svTransports ?S2)(p := tr_read (sc_io cfg) HEADER_SIZE (svTransports ?S2 p))\<rparr>))"
    using assms(1,8) by (intro service_inv_store service_inv_transport service_inv_calls peer_written_inv
        peer_received_inv) (simp_all add: service_inv_def)
  ultimately show ?thesis
    using service_pump_frame [OF assms(1,3,4,10) handled keys2] sock2 other assms(3)
    by (simp add: tr_read_def)
qed

lemma client_gets_result:
  assumes "can_receive s" and "at_header s" and "map_of (myClosures s) fn = Some c"
    and "waiting (myCallQueue s) fn = []" and "clo_fun c = Some n"
    and "archive_ok (cf_archive cfg) tyof" and "result_has_type tyof (clo_type c) r"
    and "fn \<noteq> myBroadcastFuncName cfg"
    and "body_ok (result_body (cf_archive cfg) (myArchives s) fn r)"
    and "concat pieces = frame (cf_endian cfg) (result_body (cf_archive cfg) (myArchives s) fn r)"
  shows "\<exists>s2. client_feed passive_user cfg pieces s = Ret [] s2 \<and>
     callbacks s2 = callbacks s @ [OnResult n (received_result (cf_archive cfg) (clo_type c) r)] \<and>
     myClosures s2 = AList.delete fn (myClosures s) \<and> myCallQueue s2 = myCallQueue s"
proof -
  let ?b = "result_body (cf_archive cfg) (myArchives s) fn r"
  let ?r = "received_result (cf_archive cfg) (clo_type c) r"
  let ?s0 = "body_received cfg ?b s"
  let ?s1 = "?s0\<lparr>myClosures := AList.delete fn (myClosures s), callbacks := callbacks s @ [OnResult n ?r]\<rparr>"
  obtain i where i: "deserialize_call (cf_archive cfg) (myArchives s) ?b = Some (fn, i)"
    and "reads (cf_archive cfg) tyof i (save_result r)"
    using deserialize_call_items [OF assms(6), of "myArchives s" fn "save_result r"]
    by (auto simp: result_body_def serialize_call_result_def)
  then have "deserialize_result (cf_archive cfg) (clo_type c) i = Some ?r"
    using assms(7) by (intro load_result_reads)
  then have "dispatch_result passive_user cfg fn i ?s0 = Ret () ?s1"
    using dispatch_result_idle [of ?s0 fn c passive_user cfg i] assms(3-5)
    by (simp add: body_received_def run_closure_def call_closure_def notify_def passive_user_def)
  then have "message_handler passive_user cfg ?b ?s0 = Ret () ?s1"
    using i assms(8) by (simp add: message_handler_def body_received_def)
  moreover have "client_feed passive_user cfg pieces s =
      bind_res (receive_messages passive_user cfg [?b] s) (\<lambda>_ s1. Ret [] s1)"
    using client_feed_pump [OF assms(2), of passive_user cfg pieces] assms(9,10)
      client_pump_frames [OF passive_stays_receiving _ assms(1,2), of "[?b]" cfg]
    by simp
  ultimately show ?thesis
    by (simp add: receive_message_def body_received_def)
qed

text \<open>
  Both ends of one connection, idle: the same serialization on both sides, the client ready to
  call and both waiting for a header.
\<close>

definition connected :: "('k, 'i, 'ty, 'v) client_cfg \<Rightarrow> ('k, 'ty, 'v) client \<Rightarrow>
    ('l, 'i, 'ty, 'v, 'a) service_cfg \<Rightarrow> nat \<Rightarrow> client_state \<Rightarrow> ('l, 'a, 'u) service \<Rightarrow> bool" where
  "connected cfg s scfg p cs S \<longleftrightarrow>
     cf_archive cfg = sc_arch scfg \<and> cf_endian cfg = sc_endian scfg \<and>
     cf_interface cfg = sc_interface scfg \<and> myArchives s = cs_archives cs \<and>
     client_ready s \<and> can_receive s \<and> at_header s \<and> fifo_ok s \<and>
     service_inv S \<and> map_of (myClients S) p = Some cs \<and> service_at_header p S"

text \<open>A socket that takes the frame of a message that has a legal size.\<close>

definition carries :: "'k asio \<Rightarrow> endian \<Rightarrow> byte list \<Rightarrow> 'k \<Rightarrow> 'k \<Rightarrow> bool" where
  "carries io en body k k' \<longleftrightarrow> body_ok body \<and>
     (let (ec, k1) = io_write io (frame en body) k in ec_ok ec \<and> k1 = k')"

lemma carriesD:
  "carries io en body k k' \<Longrightarrow> body_ok body \<and> (\<exists>ec. io_write io (frame en body) k = (ec, k') \<and> ec_ok ec)"
  by (cases "io_write io (frame en body) k") (auto simp: carries_def)

lemma remote_call:
  assumes "connected cfg s scfg p cs S" and "archive_ok (sc_arch scfg) tyof"
    and "fn = full_name cfg f" and "fn \<noteq> myBroadcastFuncName cfg"
    and "outstanding fn s = []" and "(fn, p) \<notin> set (myPendingCalls S)"
    and "clo_fun c = Some n" and "result_has_type tyof (clo_type c) r"
    and "D fn = Some e" and "\<not> de_one_way e" and "map tyof vs = de_args e"
    and "\<And>c s. de_func e vs (Some c) s = run_service_closure scfg c r s"
    and "cb = call_body (sc_arch scfg) (cs_archives cs) fn vs"
    and "rb = result_body (sc_arch scfg) (cs_archives cs) fn r"
    and "carries (cf_io cfg) (cf_endian cfg) cb (mySocket (myTransport s)) k"
    and "carries (sc_io scfg) (sc_endian scfg) rb
           (io_async_read (sc_io scfg) (length cb) (mySocket (svTransports S p))) k'"
    and "concat pieces = frame (sc_endian scfg) rb"
  shows "\<exists>s1 S1 s2.
     send_call passive_user cfg f c vs s = Ret () s1 \<and> mySocket (myTransport s1) = k \<and>
     service_pump scfg D p (frame (cf_endian cfg) cb) S = Ret [] S1 \<and>
     mySocket (svTransports S1 p) = io_async_read (sc_io scfg) HEADER_SIZE k' \<and>
     myPendingCalls S1 = myPendingCalls S \<and> service_at_header p S1 \<and>
     client_feed passive_user cfg pieces s1 = Ret [] s2 \<and>
     callbacks s2 = callbacks s @ [OnResult n (received_result (sc_arch scfg) (clo_type c) r)] \<and>
     outstanding fn s2 = []"
proof -
  let ?m = "serialize_call (sc_arch scfg) (cs_archives cs) fn vs"
  let ?s1 = "enqueue_closure fn c (after_write cfg ?m s)"
  note con = assms(1) [unfolded connected_def]
  obtain ec ec' where cb: "body_ok cb" "io_write (cf_io cfg) (frame (cf_endian cfg) cb)
        (mySocket (myTransport s)) = (ec, k)" "ec_ok ec"
    and rb: "body_ok rb" "io_write (sc_io scfg) (frame (sc_endian scfg) rb)
        (io_async_read (sc_io scfg) (length cb) (mySocket (svTransports S p))) = (ec', k')" "ec_ok ec'"
    using carriesD [OF assms(15)] carriesD [OF assms(16)] by blast
  have keys: "\<not> in_keys fn (myClosures s)" and idle: "waiting (myCallQueue s) fn = []"
    using con assms(5) by (simp_all add: outstanding_Nil_iff fifo_ok_empty)
  have msg: "message_with_header (cf_endian cfg) ?m = Inr (frame (cf_endian cfg) cb)"
    using body_frames(3) [OF assms(2)] assms(13) cb(1) by simp
  then have "write_succeeds cfg ?m s"
    using cb by (simp add: write_succeeds_def)
  then have sent: "send_call passive_user cfg f c vs s = Ret () ?s1"
    using send_call_direct [of s cfg f vs passive_user c] keys assms(3) con by simp
  have k: "mySocket (myTransport ?s1) = k"
    using msg cb by (simp add: enqueue_closure_def after_write_def)
  have fields: "can_receive ?s1" "at_header ?s1" "map_of (myClosures ?s1) fn = Some c"
      "waiting (myCallQueue ?s1) fn = []" "myArchives ?s1 = cs_archives cs" "callbacks ?s1 = callbacks s"
    using con idle by (simp_all add: enqueue_closure_def can_receive_def at_header_def)
  obtain s2 where s2: "client_feed passive_user cfg pieces ?s1 = Ret [] s2"
      "callbacks s2 = callbacks s @ [OnResult n (received_result (sc_arch scfg) (clo_type c) r)]"
      "myClosures s2 = AList.delete fn (myClosures ?s1)" "myCallQueue s2 = myCallQueue ?s1"
    using client_gets_result [of ?s1 fn c n cfg tyof r pieces] fields con rb(1) assms(2,4,7,8,14,17)
    by auto
  have "outstanding fn s2 = []"
    using s2(3,4) fields(4) by (simp add: outstanding_def)
  moreover obtain S1 where "service_pump scfg D p (frame (cf_endian cfg) cb) S = Ret [] S1"
      "mySocket (svTransports S1 p) = io_async_read (sc_io scfg) HEADER_SIZE k'"
      "myPendingCalls S1 = myPendingCalls S" "service_at_header p S1"
    using service_answers_frame [of S scfg tyof p cs D fn e vs r
        "io_async_read (sc_io scfg) (length cb) (mySocket (svTransports S p))" ec' k']
      con assms(2,6,9-14) cb(1) rb by auto
  ultimately show ?thesis
    using sent k s2(1,2) by blast
qed

end
