(* ===== verification/Client_Progress.thy ===== *)
theory Client_Progress
  imports Rpc
begin

text \<open>
  Progress of a client: as the results of a function arrive, the calls that wait are sent and
  every closure is called, in the order of the calls. And the round trips of all messages.
\<close>

section \<open>One result\<close>

text \<open>The socket takes each of the messages that wait.\<close>

definition takes_waiting :: "('k, 'i, 'ty, 'v) client_cfg \<Rightarrow> string \<Rightarrow> ('k, 'ty, 'v) client \<Rightarrow> bool" where
  "takes_waiting cfg fn s \<longleftrightarrow>
     (\<forall>a \<in> set (waiting (myCallQueue s) fn). \<forall>k.
        (case message_with_header (cf_endian cfg) (fst a) of
           Inl e \<Rightarrow> False | Inr m \<Rightarrow> ec_ok (fst (io_write (cf_io cfg) m k))))"

definition awaits_results :: "('k, 'i, 'ty, 'v) client_cfg \<Rightarrow> string \<Rightarrow> ('k, 'ty, 'v) client \<Rightarrow> bool" where
  "awaits_results cfg fn s \<longleftrightarrow>
     cfg_inv cfg s \<and> fifo_ok s \<and> client_ready s \<and> can_receive s \<and> takes_waiting cfg fn s"

lemma takes_waiting_writes:
  "takes_waiting cfg fn s \<Longrightarrow> waiting (myCallQueue s) fn = a # xs \<Longrightarrow> write_succeeds cfg (fst a) s'"
  by (auto simp: takes_waiting_def write_succeeds_def split: sum.splits)

lemma body_received_simps [simp]:
  "myClosures (body_received cfg body s) = myClosures s"
  "myCallQueue (body_received cfg body s) = myCallQueue s"
  "callbacks (body_received cfg body s) = callbacks s"
  "myArchives (body_received cfg body s) = myArchives s"
  "client_ready (body_received cfg body s) = client_ready s"
  "can_receive (body_received cfg body s) = can_receive s"
  "client_inv n (body_received cfg body s) = client_inv n s"
  "fifo_ok (body_received cfg body s) = fifo_ok s"
  "outstanding fn (body_received cfg body s) = outstanding fn s"
  by (simp_all add: body_received_def client_ready_def tr_is_open_def can_receive_def client_inv_def
      fifo_ok_def outstanding_def)

text \<open>The state of the client when the closure of the oldest call has been called.\<close>

definition result_handled :: "('k, 'i, 'ty, 'v) client_cfg \<Rightarrow> string \<Rightarrow> ('k, 'ty, 'v) client \<Rightarrow>
    ('k, 'ty, 'v) client" where
  "result_handled cfg fn s =
     (case waiting (myCallQueue s) fn of
        [] \<Rightarrow> s\<lparr>myClosures := AList.delete fn (myClosures s)\<rparr>
      | a # _ \<Rightarrow> next_call_sent cfg fn a s)"

lemma dispatch_passive:
  assumes "awaits_results cfg fn s" and "outstanding fn s = c # cs" and "clo_fun c = Some n"
    and "deserialize_result (cf_archive cfg) (clo_type c) i = Some r"
  shows "dispatch_result passive_user cfg fn i s =
    Ret () ((result_handled cfg fn s)\<lparr>callbacks := callbacks s @ [OnResult n r]\<rparr>)"
proof -
  have s: "cfg_inv cfg s" "fifo_ok s" "client_ready s" "takes_waiting cfg fn s"
    using assms(1) by (simp_all add: awaits_results_def)
  have c: "map_of (myClosures s) fn = Some c"
    using outstanding_Cons [OF s(2) assms(2)] by simp
  note closure = run_closure_result [OF assms(4,3), of passive_user]
  show ?thesis
  proof (cases "waiting (myCallQueue s) fn")
    case Nil
    then show ?thesis
      using dispatch_result_idle [OF c Nil, of passive_user cfg i] closure
      by (simp add: result_handled_def passive_user_def)
  next
    case (Cons a xs)
    then show ?thesis
      using dispatch_result_next [OF c Cons s(1,3) takes_waiting_writes [OF s(4) Cons], of passive_user i]
        closure [of "next_call_sent cfg fn a s"] next_call_sent_simps(2) [OF Cons, of cfg]
      by (simp add: result_handled_def passive_user_def)
  qed
qed

lemma next_call_sent_fields [simp]:
  "myArchives (next_call_sent cfg fn a s) = myArchives s"
  "can_receive (next_call_sent cfg fn a s) = can_receive s"
  "myCallQueue (next_call_sent cfg fn a s) = pop_front fn (myCallQueue s)"
  by (simp_all add: next_call_sent_def Let_def enqueue_closure_def can_receive_def)

lemma client_inv_next_call: "client_inv n s \<Longrightarrow> client_inv n (next_call_sent cfg fn a s)"
  unfolding next_call_sent_def Let_def
  by (intro client_inv_pop client_inv_enqueue_closure) (simp add: client_inv_def distinct_delete)

lemma result_handled_keeps:
  assumes "awaits_results cfg fn s" and "outstanding fn s = c # cs"
  shows "awaits_results cfg fn (result_handled cfg fn s)"
    and "outstanding fn (result_handled cfg fn s) = cs"
    and "myArchives (result_handled cfg fn s) = myArchives s"
proof -
  have s: "cfg_inv cfg s" "fifo_ok s" "client_ready s" "can_receive s" "takes_waiting cfg fn s"
    using assms(1) by (simp_all add: awaits_results_def)
  note cs = outstanding_Cons [OF s(2) assms(2)]
  have "awaits_results cfg fn (result_handled cfg fn s) \<and> outstanding fn (result_handled cfg fn s) = cs \<and>
      myArchives (result_handled cfg fn s) = myArchives s"
  proof (cases "waiting (myCallQueue s) fn")
    case Nil
    then show ?thesis
      using s cs fifo_ok_delete [OF s(2) Nil] client_inv_delete [OF s(1), of fn]
      by (simp add: result_handled_def awaits_results_def outstanding_def client_ready_def takes_waiting_def)
  next
    case (Cons a xs)
    then show ?thesis
      using s cs next_call_sent_simps [OF Cons, where cfg = cfg] client_inv_next_call [OF s(1), of cfg fn a]
      by (simp add: result_handled_def awaits_results_def takes_waiting_def waiting_pop)
  qed
  then show "awaits_results cfg fn (result_handled cfg fn s)"
    and "outstanding fn (result_handled cfg fn s) = cs"
    and "myArchives (result_handled cfg fn s) = myArchives s"
    by blast+
qed

lemma awaits_results_upd [simp]:
  "awaits_results cfg fn (s\<lparr>callbacks := cbs\<rparr>) = awaits_results cfg fn s"
  "myListener t = myListener (myTransport s) \<Longrightarrow> myState t = myState (myTransport s) \<Longrightarrow>
   awaits_results cfg fn (s\<lparr>myTransport := t, myMessenger := m\<rparr>) = awaits_results cfg fn s"
  by (simp_all add: awaits_results_def client_ready_def tr_is_open_def can_receive_def client_inv_def
      fifo_ok_def takes_waiting_def)

lemma outstanding_messenger [simp]: "outstanding g (s\<lparr>myMessenger := m\<rparr>) = outstanding g s"
  by (simp add: outstanding_def)

lemma receive_result_eq:
  assumes "awaits_results cfg fn s" and "outstanding fn s = c # cs" and "clo_fun c = Some n"
    and "archive_ok (cf_archive cfg) tyof" and "fn \<noteq> myBroadcastFuncName cfg"
    and "result_has_type tyof (clo_type c) r"
    and "b = result_body (cf_archive cfg) (myArchives s) fn r"
    and "s1 = result_handled cfg fn (body_received cfg b s)"
  shows "receive_message passive_user cfg b s =
    Ret () (s1\<lparr>callbacks := callbacks s @ [OnResult n (received_result (cf_archive cfg) (clo_type c) r)],
               myTransport := tr_read (cf_io cfg) HEADER_SIZE (myTransport s1), myMessenger := msg_state HEADER b\<rparr>)"
    and "awaits_results cfg fn s1" and "outstanding fn s1 = cs" and "myArchives s1 = myArchives s"
proof -
  let ?A = "cf_archive cfg" and ?s0 = "body_received cfg b s"
  obtain i where i: "deserialize_call ?A (myArchives s) b = Some (fn, i)" "reads ?A tyof i (save_result r)"
    using deserialize_call_items [OF assms(4), of "myArchives s" fn "save_result r"] assms(7)
    by (auto simp: result_body_def serialize_call_result_def)
  have s0: "awaits_results cfg fn ?s0" "outstanding fn ?s0 = c # cs"
    using assms(1,2) by (simp_all add: awaits_results_def takes_waiting_def)
  have "message_handler passive_user cfg b ?s0 = Ret () (s1
      \<lparr>callbacks := callbacks s @ [OnResult n (received_result ?A (clo_type c) r)]\<rparr>)"
    using dispatch_passive [OF s0 assms(3) load_result_reads [OF i(2) assms(6)]] i(1) assms(5,8)
    by (simp add: message_handler_def)
  then show "receive_message passive_user cfg b s =
      Ret () (s1\<lparr>callbacks := callbacks s @ [OnResult n (received_result (cf_archive cfg) (clo_type c) r)],
                 myTransport := tr_read (cf_io cfg) HEADER_SIZE (myTransport s1), myMessenger := msg_state HEADER b\<rparr>)"
    by (simp add: receive_message_def)
  show "awaits_results cfg fn s1" "outstanding fn s1 = cs" "myArchives s1 = myArchives s"
    using result_handled_keeps [OF s0] assms(8) by simp_all
qed

lemma receive_result:
  assumes "awaits_results cfg fn s" and "outstanding fn s = c # cs" and "clo_fun c = Some n"
    and "archive_ok (cf_archive cfg) tyof" and "fn \<noteq> myBroadcastFuncName cfg"
    and "result_has_type tyof (clo_type c) r"
  shows "\<exists>s2. receive_message passive_user cfg (result_body (cf_archive cfg) (myArchives s) fn r) s = Ret () s2 \<and>
    awaits_results cfg fn s2 \<and> outstanding fn s2 = cs \<and> myArchives s2 = myArchives s \<and>
    callbacks s2 = callbacks s @ [OnResult n (received_result (cf_archive cfg) (clo_type c) r)]"
  using receive_result_eq [OF assms refl refl] by (simp add: tr_read_def)

section \<open>All results\<close>

text \<open>One result for each outstanding call, readable at its type, and the messages that carry them.\<close>

definition results_for :: "('k, 'i, 'ty, 'v) client_cfg \<Rightarrow> ('v \<Rightarrow> 'ty) \<Rightarrow> bool \<Rightarrow> string \<Rightarrow>
    'ty closure list \<Rightarrow> 'v result list \<Rightarrow> bool" where
  "results_for cfg tyof ar fn = list_all2 (\<lambda>c r. clo_fun c \<noteq> None \<and> result_has_type tyof (clo_type c) r \<and>
     body_ok (result_body (cf_archive cfg) ar fn r))"

definition answered :: "('k, 'i, 'ty, 'v) client_cfg \<Rightarrow> 'ty closure \<Rightarrow> 'v result \<Rightarrow> 'v callback" where
  "answered cfg c r = OnResult (the (clo_fun c)) (received_result (cf_archive cfg) (clo_type c) r)"

lemma receive_results:
  assumes "archive_ok (cf_archive cfg) tyof" and "fn \<noteq> myBroadcastFuncName cfg"
    and "awaits_results cfg fn s" and "outstanding fn s = cs" and "results_for cfg tyof (myArchives s) fn cs rs"
  shows "\<exists>s2. receive_messages passive_user cfg (map (result_body (cf_archive cfg) (myArchives s) fn) rs) s = Ret () s2 \<and>
    outstanding fn s2 = [] \<and> callbacks s2 = callbacks s @ map2 (answered cfg) cs rs"
  using assms(3-5)
proof (induction cs arbitrary: s rs)
  case Nil
  then show ?case by (simp add: results_for_def)
next
  case (Cons c cs)
  obtain r rs' where rs: "rs = r # rs'" and c: "clo_fun c \<noteq> None" "result_has_type tyof (clo_type c) r"
    and rs': "results_for cfg tyof (myArchives s) fn cs rs'"
    using Cons.prems(3) by (auto simp: results_for_def list_all2_Cons1)
  obtain s1 where s1: "receive_message passive_user cfg (result_body (cf_archive cfg) (myArchives s) fn r) s = Ret () s1"
      "awaits_results cfg fn s1" "outstanding fn s1 = cs" "myArchives s1 = myArchives s"
      "callbacks s1 = callbacks s @ [answered cfg c r]"
    using receive_result [OF Cons.prems(1,2) _ assms(1,2) c(2)] c(1) by (auto simp: answered_def)
  then show ?case
    using Cons.IH [OF s1(2,3), of rs'] rs rs' by auto
qed

text \<open>
  C31: Every call is answered. When the results of all outstanding calls of a function arrive,
  in any pieces, and the socket takes the calls that wait for them, each closure is called
  exactly once, in the order in which the calls were made, with the result sent for it; then
  nothing is outstanding.
\<close>

theorem outstanding_calls_answered:
  assumes "archive_ok (cf_archive cfg) tyof" and "fn \<noteq> myBroadcastFuncName cfg"
    and "awaits_results cfg fn s" and "at_header s" and "outstanding fn s = cs"
    and "results_for cfg tyof (myArchives s) fn cs rs"
    and "concat pieces = concat (map (frame (cf_endian cfg)) (map (result_body (cf_archive cfg) (myArchives s) fn) rs))"
  shows "\<exists>s2. client_feed passive_user cfg pieces s = Ret [] s2 \<and> outstanding fn s2 = [] \<and>
    callbacks s2 = callbacks s @ map2 (answered cfg) cs rs"
proof -
  let ?ms = "map (result_body (cf_archive cfg) (myArchives s) fn) rs"
  have "\<forall>m \<in> set ?ms. body_ok m"
    using assms(6) by (auto simp: results_for_def list_all2_conv_all_nth in_set_conv_nth)
  moreover have "can_receive s"
    using assms(3) by (simp add: awaits_results_def)
  ultimately have "client_feed passive_user cfg pieces s =
      bind_res (receive_messages passive_user cfg ?ms s) (\<lambda>_ s1. Ret [] s1)"
    using client_feed_pump [OF assms(4), of passive_user cfg pieces]
      client_pump_frames [OF passive_stays_receiving, of ?ms s cfg] assms(4,7) by simp
  then show ?thesis
    using receive_results [OF assms(1-3,5,6)] by auto
qed

text \<open>The sample client on a socket that never refuses a message.\<close>

definition steady_cfg :: "(sample_socket, byte list, unit, cint) client_cfg" where
  "steady_cfg = sample_cfg\<lparr>cf_io := sample_io\<lparr>io_write := (\<lambda>bs k. (ec_success, k\<lparr>sent := sent k @ bs\<rparr>))\<rparr>\<rparr>"

lemma steady_cfg_simps [simp]:
  "cf_archive steady_cfg = sample_archive" "cf_endian steady_cfg = LittleEndian"
  "cf_max_calls steady_cfg = 3" "cf_interface steady_cfg = ''CalculatorInterface''"
  "io_write (cf_io steady_cfg) bs k = (ec_success, k\<lparr>sent := sent k @ bs\<rparr>)"
  by (simp_all add: steady_cfg_def sample_cfg_def)

theorem outstanding_calls_answered_witness:
  "\<exists>s2. client_feed passive_user steady_cfg
      [concat (map (frame LittleEndian) (map (result_body sample_archive True ''CalculatorInterface::add'')
         [Result_value 6 Error_none, Result_value 5 Error_none]))] sample_busy = Ret [] s2 \<and>
    callbacks s2 = [OnResult 7 (Result_value 6 Error_none), OnResult 8 (Result_value 5 Error_none)]"
proof -
  let ?fn = "''CalculatorInterface::add''"
  let ?rs = "[Result_value 6 Error_none, Result_value 5 Error_none] :: cint result list"
  have waiting: "waiting (myCallQueue sample_busy) ?fn = [([0, 0, 0, 0, 5], sample_closure 8)]"
    by (simp add: waiting_def sample_busy_def)
  have "takes_waiting steady_cfg ?fn sample_busy"
    unfolding takes_waiting_def waiting
    by (simp add: message_with_header_def HEADER_SIZE_def Let_def ec_samples ec_ok_def)
  moreover have "cfg_inv steady_cfg sample_busy" "fifo_ok sample_busy" "client_ready sample_busy" "can_receive sample_busy"
    by (simp_all add: client_inv_def queue_ok_def waiting_def call_limit_def fifo_ok_def client_ready_def
        tr_is_open_def can_receive_def sample_busy_def sample_client_eq)
  ultimately have waits: "awaits_results steady_cfg ?fn sample_busy"
    by (simp add: awaits_results_def)
  have out: "outstanding ?fn sample_busy = [sample_closure 7, sample_closure 8]"
    by (simp add: outstanding_def waiting_def sample_busy_def)
  have header: "at_header sample_busy" and ar: "myArchives sample_busy" "callbacks sample_busy = []"
    by (simp_all add: at_header_def sample_busy_def sample_client_eq new_messenger_def HEADER_SIZE_def)
  have len: "length (result_body sample_archive True ?fn (Result_value v Error_none)) = 58" for v
    by (simp add: result_body_def serialize_call_result_def serialize_items_def sample_message_length
        save_result_def save_error_def Result_value_def Error_none_def u32_bytes_def)
  have res: "results_for steady_cfg (\<lambda>_. ()) True ?fn [sample_closure 7, sample_closure 8] ?rs"
    using len by (auto simp: results_for_def body_ok_def HEADER_SIZE_def sample_closure_def result_has_type_def
        Result_value_def Error_none_def simp flip: length_greater_0_conv)
  have name: "?fn \<noteq> myBroadcastFuncName steady_cfg"
    by (simp add: myBroadcastFuncName_def)
  have "archive_ok (cf_archive steady_cfg) (\<lambda>_. ())"
    using sample_archive_ok by simp
  then show ?thesis
    using outstanding_calls_answered [OF _ name waits header out, of "\<lambda>_. ()" ?rs
        "[concat (map (frame LittleEndian) (map (result_body sample_archive True ?fn) ?rs))]"] res ar
    by (auto simp: answered_def received_result_def sample_closure_def Result_value_def Error_none_def
        Error_of_message_def)
qed

section \<open>Round trips\<close>

lemma event_items:
  assumes "archive_ok A tyof"
  shows "\<exists>i. deserialize_call A ar (strip_header (serialize_event A ar fn ev)) = Some (fn, i) \<and>
    deserialize_event A (tyof ev) i = Some ev"
  using deserialize_call_items [OF assms, of ar fn "[IValue ev]"]
  by (auto simp: serialize_event_def deserialize_event_def)

text \<open>
  C32: What one side writes the other side reads. A call gives back the name of the function and
  its arguments, a result its error code, message and value - but not the category of the error -
  and an event its value; the header that is written in front of a message announces its length
  in the byte order of the host.
\<close>

theorem messages_round_trip:
  assumes "archive_ok A tyof" and "result_has_type tyof ty r"
  shows "(\<exists>i. deserialize_call A ar (strip_header (serialize_call A ar fn vs)) = Some (fn, i) \<and>
       deserialize_args A (map tyof vs) i = Some vs) \<and>
    (\<exists>i. deserialize_call A ar (strip_header (serialize_call_result A ar fn r)) = Some (fn, i) \<and>
       deserialize_result A ty i = Some (received_result A ty r)) \<and>
    (\<exists>i. deserialize_call A ar (strip_header (serialize_event A ar fn ev)) = Some (fn, i) \<and>
       deserialize_event A (tyof ev) i = Some ev) \<and>
    (case message_with_header en (serialize_call_result A ar fn r) of
       Inl e \<Rightarrow> length (serialize_call_result A ar fn r) > 2 ^ 32 - 1 - HEADER_SIZE
     | Inr m \<Rightarrow> unat (load_u32 en (take HEADER_SIZE m)) = length (drop HEADER_SIZE m) \<and>
         drop HEADER_SIZE m = strip_header (serialize_call_result A ar fn r))"
proof (intro conjI)
  show "\<exists>i. deserialize_call A ar (strip_header (serialize_call A ar fn vs)) = Some (fn, i) \<and>
      deserialize_args A (map tyof vs) i = Some vs"
    using deserialize_call_items [OF assms(1), of ar fn "map IValue vs"]
    by (auto simp: serialize_call_def serialize_args_def deserialize_args_reads)
  show "\<exists>i. deserialize_call A ar (strip_header (serialize_call_result A ar fn r)) = Some (fn, i) \<and>
      deserialize_result A ty i = Some (received_result A ty r)"
    using deserialize_call_items [OF assms(1), of ar fn "save_result r"] load_result_reads [OF _ assms(2)]
    by (auto simp: serialize_call_result_def)
  show "\<exists>i. deserialize_call A ar (strip_header (serialize_event A ar fn ev)) = Some (fn, i) \<and>
      deserialize_event A (tyof ev) i = Some ev"
    by (rule event_items [OF assms(1)])
  let ?b = "ar_write A ar (IString fn # save_result r)"
  have m: "serialize_call_result A ar fn r = reserve_message_header @ ?b"
    by (simp add: serialize_call_result_def serialize_items_def)
  show "case message_with_header en (serialize_call_result A ar fn r) of
       Inl e \<Rightarrow> length (serialize_call_result A ar fn r) > 2 ^ 32 - 1 - HEADER_SIZE
     | Inr m \<Rightarrow> unat (load_u32 en (take HEADER_SIZE m)) = length (drop HEADER_SIZE m) \<and>
         drop HEADER_SIZE m = strip_header (serialize_call_result A ar fn r)"
  proof (cases "length (serialize_call_result A ar fn r) > 2 ^ 32 - 1 - HEADER_SIZE")
    case False
    then have "body_ok ?b"
      using archive_ok_nonempty [OF assms(1)] by (simp add: m body_ok_def reserve_message_header_def HEADER_SIZE_def)
    then show ?thesis
      using load_frame_header [of ?b en] drop_frame_header [of en ?b "[]"]
      by (simp add: m message_with_header_reserved body_ok_def)
  qed (simp add: message_with_header_too_long)
qed

theorem messages_round_trip_witness:
  "\<exists>i. deserialize_call sample_archive True
       (strip_header (serialize_call_result sample_archive True ''f'' (Result_value 6 Error_none))) = Some (''f'', i) \<and>
     deserialize_result sample_archive (Some ()) i =
       Some (received_result sample_archive (Some ()) (Result_value 6 Error_none))"
  using messages_round_trip [OF sample_archive_ok, of "Some ()" "Result_value 6 Error_none" True "''f''"]
  by (auto simp: result_has_type_def Result_value_def)

end
