(* ===== verification/Network.thy ===== *)
theory Network
  imports Client_Progress
begin

text \<open>
  A service and its connected clients as one system: calls, arriving bytes, answers and
  broadcasts in any order. The bytes on their way are what one end has written and the other
  has not read yet; a read completes when as many bytes as it asked for have arrived. Each
  function of the service answers at once or keeps its result closure and answers later.
\<close>

section \<open>The system\<close>

text \<open>
  The types of the functions with a result, by full name; the answers given at once; what a
  socket has written so far; and the function each closure number is used for. A service keeps
  the closures it has not answered yet and a record of its answers.
\<close>

type_synonym 'v kept = "srv_closure list \<times> (srv_closure \<times> 'v result) list"

record ('k, 'l, 'i, 'ty, 'v, 'a) net =
  nt_cfg :: "('k, 'i, 'ty, 'v) client_cfg"
  nt_scfg :: "('l, 'i, 'ty, 'v, 'a) service_cfg"
  nt_sig :: "string \<rightharpoonup> 'ty list \<times> 'ty option"
  nt_now :: "string \<Rightarrow> 'v list \<Rightarrow> 'v result option"
  nt_type :: "'v \<Rightarrow> 'ty"
  nt_out :: "'k \<Rightarrow> byte list"
  nt_sout :: "'l \<Rightarrow> byte list"
  nt_function :: "nat \<Rightarrow> string"

definition give_answer :: "('k, 'l, 'i, 'ty, 'v, 'a) net \<Rightarrow> srv_closure \<Rightarrow> 'v result \<Rightarrow>
    ('l, 'a, 'v kept) service \<Rightarrow> (unit, ('l, 'a, 'v kept) service) res" where
  "give_answer N c r S =
     run_service_closure (nt_scfg N) c r (S\<lparr>svUser := (fst (svUser S), snd (svUser S) @ [(c, r)])\<rparr>)"

definition net_function :: "('k, 'l, 'i, 'ty, 'v, 'a) net \<Rightarrow> string \<Rightarrow>
    ('v, ('l, 'a, 'v kept) service) service_function" where
  "net_function N fn vs clo S =
     (case clo of
        None \<Rightarrow> Ret () S
      | Some c \<Rightarrow>
          (case nt_now N fn vs of
             Some r \<Rightarrow> give_answer N c r S
           | None \<Rightarrow> Ret () (S\<lparr>svUser := (c # fst (svUser S), snd (svUser S))\<rparr>)))"

definition net_dict :: "('k, 'l, 'i, 'ty, 'v, 'a) net \<Rightarrow> ('l, 'ty, 'v, 'a, 'v kept) service_dict" where
  "net_dict N fn =
     map_option (\<lambda>(ts, ty). \<lparr>de_func = net_function N fn, de_args = ts, de_result = ty, de_one_way = False\<rparr>)
       (nt_sig N fn)"

record ('k, 'l, 'ty, 'v, 'a) net_state =
  ns_clients :: "nat \<Rightarrow> ('k, 'ty, 'v) client"
  ns_service :: "('l, 'a, 'v kept) service"
  ns_read_up :: "nat \<Rightarrow> nat"
  ns_read_down :: "nat \<Rightarrow> nat"
  ns_issued :: "nat \<Rightarrow> nat list"

text \<open>The bytes on their way to the service and to a client.\<close>

definition going_up :: "('k, 'l, 'i, 'ty, 'v, 'a) net \<Rightarrow> ('k, 'l, 'ty, 'v, 'a) net_state \<Rightarrow> nat \<Rightarrow> byte list" where
  "going_up N y p = drop (ns_read_up y p) (nt_out N (mySocket (myTransport (ns_clients y p))))"

definition going_down :: "('k, 'l, 'i, 'ty, 'v, 'a) net \<Rightarrow> ('k, 'l, 'ty, 'v, 'a) net_state \<Rightarrow> nat \<Rightarrow> byte list" where
  "going_down N y p = drop (ns_read_down y p) (nt_sout N (mySocket (svTransports (ns_service y) p)))"

datatype ('ty, 'v) net_op =
    Call nat string "'ty closure" "'v list"
  | ToService nat
  | ToClient nat
  | Reply srv_closure "'v result"
  | Publish 'v

definition asked_up :: "('k, 'l, 'ty, 'v, 'a) net_state \<Rightarrow> nat \<Rightarrow> nat" where
  "asked_up y p = length (myBuffer (svTransports (ns_service y) p))"

definition asked_down :: "('k, 'l, 'ty, 'v, 'a) net_state \<Rightarrow> nat \<Rightarrow> nat" where
  "asked_down y p = length (myBuffer (myTransport (ns_clients y p)))"

text \<open>The outcome of an operation on one part, as an outcome of the system.\<close>

definition at_client :: "('k, 'l, 'ty, 'v, 'a) net_state \<Rightarrow> nat \<Rightarrow> (unit, ('k, 'ty, 'v) client) res \<Rightarrow>
    (unit, ('k, 'l, 'ty, 'v, 'a) net_state) res" where
  "at_client y p r =
     (case r of
        Ret _ s \<Rightarrow> Ret () (y\<lparr>ns_clients := (ns_clients y)(p := s)\<rparr>)
      | Exn e s \<Rightarrow> Exn e (y\<lparr>ns_clients := (ns_clients y)(p := s)\<rparr>))"

definition at_service :: "('k, 'l, 'ty, 'v, 'a) net_state \<Rightarrow> (unit, ('l, 'a, 'v kept) service) res \<Rightarrow>
    (unit, ('k, 'l, 'ty, 'v, 'a) net_state) res" where
  "at_service y r =
     (case r of
        Ret _ S \<Rightarrow> Ret () (y\<lparr>ns_service := S\<rparr>)
      | Exn e S \<Rightarrow> Exn e (y\<lparr>ns_service := S\<rparr>))"

fun net_step :: "('k, 'l, 'i, 'ty, 'v, 'a) net \<Rightarrow> ('ty, 'v) net_op \<Rightarrow> ('k, 'l, 'ty, 'v, 'a) net_state \<Rightarrow>
    (unit, ('k, 'l, 'ty, 'v, 'a) net_state) res" where
  "net_step N (Call p f c vs) y =
     bind_res (at_client y p (send_call passive_user (nt_cfg N) f c vs (ns_clients y p))) (\<lambda>_ y1.
       Ret () (y1\<lparr>ns_issued := (ns_issued y1)(p := ns_issued y1 p @ [the (clo_fun c)])\<rparr>))"
| "net_step N (ToService p) y =
     bind_res (at_service y (service_receive (nt_scfg N) (net_dict N) p
                 (take (asked_up y p) (going_up N y p)) (ns_service y))) (\<lambda>_ y1.
       Ret () (y1\<lparr>ns_read_up := (ns_read_up y1)(p := ns_read_up y1 p + asked_up y p)\<rparr>))"
| "net_step N (ToClient p) y =
     bind_res (at_client y p (client_receive passive_user (nt_cfg N)
                 (take (asked_down y p) (going_down N y p)) (ns_clients y p))) (\<lambda>_ y1.
       Ret () (y1\<lparr>ns_read_down := (ns_read_down y1)(p := ns_read_down y1 p + asked_down y p)\<rparr>))"
| "net_step N (Reply c r) y =
     (let S = ns_service y
      in at_service y (give_answer N c r (S\<lparr>svUser := (remove1 c (fst (svUser S)), snd (svUser S))\<rparr>)))"
| "net_step N (Publish ev) y = at_service y (broadcast (nt_scfg N) ev (ns_service y))"

text \<open>
  When an operation can happen. Programs call with arguments of the declared types and fewer
  than \<open>MaxCallsInProgress\<close> calls outstanding, and answer with results of the declared types;
  messages have a legal size.
\<close>

abbreviation net_arch :: "('k, 'l, 'i, 'ty, 'v, 'a) net \<Rightarrow> ('i, 'ty, 'v) archive" where
  "net_arch N \<equiv> cf_archive (nt_cfg N)"

abbreviation net_endian :: "('k, 'l, 'i, 'ty, 'v, 'a) net \<Rightarrow> endian" where
  "net_endian N \<equiv> cf_endian (nt_cfg N)"

definition call_fits :: "('k, 'l, 'i, 'ty, 'v, 'a) net \<Rightarrow> string \<Rightarrow> 'v list \<Rightarrow> bool" where
  "call_fits N fn vs \<longleftrightarrow> body_ok (call_body (net_arch N) True fn vs) \<and> body_ok (call_body (net_arch N) False fn vs)"

definition result_fits :: "('k, 'l, 'i, 'ty, 'v, 'a) net \<Rightarrow> string \<Rightarrow> 'v result \<Rightarrow> bool" where
  "result_fits N fn r \<longleftrightarrow>
     body_ok (result_body (net_arch N) True fn r) \<and> body_ok (result_body (net_arch N) False fn r) \<and>
     (\<exists>ts ty. nt_sig N fn = Some (ts, ty) \<and> result_has_type (nt_type N) ty r)"

definition event_body :: "('i, 'ty, 'v) archive \<Rightarrow> bool \<Rightarrow> string \<Rightarrow> 'v \<Rightarrow> byte list" where
  "event_body A ar fn ev = strip_header (serialize_event A ar fn ev)"

definition event_fits :: "('k, 'l, 'i, 'ty, 'v, 'a) net \<Rightarrow> 'v \<Rightarrow> bool" where
  "event_fits N ev \<longleftrightarrow>
     body_ok (event_body (net_arch N) True (myBroadcastFuncName (nt_cfg N)) ev) \<and>
     body_ok (event_body (net_arch N) False (myBroadcastFuncName (nt_cfg N)) ev) \<and>
     (case cf_event (nt_cfg N) of None \<Rightarrow> True | Some (ty, _) \<Rightarrow> nt_type N ev = ty)"

fun net_enabled :: "('k, 'l, 'i, 'ty, 'v, 'a) net \<Rightarrow> ('ty, 'v) net_op \<Rightarrow> ('k, 'l, 'ty, 'v, 'a) net_state \<Rightarrow>
    bool" where
  "net_enabled N (Call p f c vs) y \<longleftrightarrow>
     (let fn = full_name (nt_cfg N) f
      in in_keys p (myClients (ns_service y)) \<and> nt_sig N fn = Some (map (nt_type N) vs, clo_type c) \<and>
         (\<exists>n. clo_fun c = Some n \<and> nt_function N n = fn) \<and> call_fits N fn vs \<and>
         length (outstanding fn (ns_clients y p)) < cf_max_calls (nt_cfg N))"
| "net_enabled N (ToService p) y \<longleftrightarrow>
     in_keys p (myClients (ns_service y)) \<and> 0 < asked_up y p \<and> asked_up y p \<le> length (going_up N y p)"
| "net_enabled N (ToClient p) y \<longleftrightarrow>
     in_keys p (myClients (ns_service y)) \<and> 0 < asked_down y p \<and> asked_down y p \<le> length (going_down N y p)"
| "net_enabled N (Reply c r) y \<longleftrightarrow> c \<in> set (fst (svUser (ns_service y))) \<and> result_fits N (sc_name c) r"
| "net_enabled N (Publish ev) y \<longleftrightarrow> event_fits N ev"

text \<open>
  What the system rests on: both ends use one archive library, byte order and interface; the
  archives read back what was written; the sockets take every message and deliver the bytes in
  order; the answers given at once have the declared types.
\<close>

definition lossless :: "'k asio \<Rightarrow> ('k \<Rightarrow> byte list) \<Rightarrow> bool" where
  "lossless io out \<longleftrightarrow>
     (\<forall>m k. ec_ok (fst (io_write io m k)) \<and> out (snd (io_write io m k)) = out k @ m) \<and>
     (\<forall>n k. out (io_async_read io n k) = out k)"

definition net_ok :: "('k, 'l, 'i, 'ty, 'v, 'a) net \<Rightarrow> bool" where
  "net_ok N \<longleftrightarrow>
     sc_arch (nt_scfg N) = net_arch N \<and> sc_endian (nt_scfg N) = net_endian N \<and>
     sc_interface (nt_scfg N) = cf_interface (nt_cfg N) \<and> archive_ok (net_arch N) (nt_type N) \<and>
     lossless (cf_io (nt_cfg N)) (nt_out N) \<and> lossless (sc_io (nt_scfg N)) (nt_sout N) \<and>
     0 < cf_max_calls (nt_cfg N) \<and> nt_sig N (myBroadcastFuncName (nt_cfg N)) = None \<and>
     (\<forall>fn vs r. nt_now N fn vs = Some r \<longrightarrow> nt_sig N fn \<noteq> None \<longrightarrow> result_fits N fn r)"

text \<open>The connected system before the first call, and the states it can reach.\<close>

definition net_start :: "('k, 'l, 'i, 'ty, 'v, 'a) net \<Rightarrow> ('k, 'l, 'ty, 'v, 'a) net_state \<Rightarrow> bool" where
  "net_start N y \<longleftrightarrow>
     service_inv (ns_service y) \<and> myPendingCalls (ns_service y) = [] \<and> svUser (ns_service y) = ([], []) \<and>
     (\<forall>(p, cs) \<in> set (myClients (ns_service y)).
        client_ready (ns_clients y p) \<and> can_receive (ns_clients y p) \<and> at_header (ns_clients y p) \<and>
        myArchives (ns_clients y p) = cs_archives cs \<and> myClosures (ns_clients y p) = [] \<and>
        myCallQueue (ns_clients y p) = empty_queue \<and> callbacks (ns_clients y p) = [] \<and>
        service_at_header p (ns_service y) \<and> ns_issued y p = [] \<and>
        ns_read_up y p = length (nt_out N (mySocket (myTransport (ns_clients y p)))) \<and>
        ns_read_down y p = length (nt_sout N (mySocket (svTransports (ns_service y) p))))"

inductive net_reach :: "('k, 'l, 'i, 'ty, 'v, 'a) net \<Rightarrow> ('k, 'l, 'ty, 'v, 'a) net_state \<Rightarrow> bool"
  for N where
  net_reach_start: "net_start N y \<Longrightarrow> net_reach N y"
| net_reach_step: "net_reach N y \<Longrightarrow> net_enabled N op y \<Longrightarrow> net_step N op y = Ret () y1 \<Longrightarrow> net_reach N y1"

end
