(* ===== verification/Network_Session.thy ===== *)
theory Network_Session
  imports Network
begin

text \<open>
  One connection of the system: the messages on their way between a client and the service, and
  what each operation of either end does to them.
\<close>

section \<open>Messages on their way\<close>

text \<open>
  The reader at one end has asked for \<open>bl\<close> bytes; \<open>bytes\<close> are on their way and hold what it has
  not read yet of these message bodies. The size of the first may have been read already.
\<close>

definition incoming :: "endian \<Rightarrow> messenger \<Rightarrow> nat \<Rightarrow> byte list \<Rightarrow> byte list list \<Rightarrow> bool" where
  "incoming en m bl bytes bodies \<longleftrightarrow>
     (\<forall>b \<in> set bodies. body_ok b) \<and>
     (case myReceiveState m of
        HEADER \<Rightarrow> bl = HEADER_SIZE \<and> bytes = concat (map (frame en) bodies)
      | MESSAGE \<Rightarrow> (case bodies of
            [] \<Rightarrow> False
          | b # bs \<Rightarrow> m = msg_state MESSAGE b \<and> bl = length b \<and> bytes = b @ concat (map (frame en) bs)))"

lemma incoming_append:
  "incoming en m bl bytes bodies \<Longrightarrow> body_ok b \<Longrightarrow> incoming en m bl (bytes @ frame en b) (bodies @ [b])"
  by (auto simp: incoming_def split: recv_state.splits list.splits)

lemma incoming_header:
  assumes "incoming en m bl bytes (b # bs)" and "myReceiveState m = HEADER"
  shows "body_ok b" and "bl = HEADER_SIZE" and "take bl bytes = store_u32 en (word_of_nat (length b))"
    and "incoming en (msg_state MESSAGE b) (length b) (drop bl bytes) (b # bs)"
  using assms by (simp_all add: incoming_def frame_def HEADER_SIZE_def msg_state_def)

lemma incoming_body:
  assumes "incoming en m bl bytes (b # bs)" and "myReceiveState m = MESSAGE"
  shows "body_ok b" and "m = msg_state MESSAGE b" and "take bl bytes = b"
    and "incoming en (msg_state HEADER b) HEADER_SIZE (drop bl bytes) bs"
  using assms by (simp_all add: incoming_def msg_state_def)

lemma incoming_ready: "incoming en m bl bytes bodies \<Longrightarrow> 0 < bl \<and> bl \<le> length bytes \<longleftrightarrow> bodies \<noteq> []"
  by (cases bodies) (auto simp: incoming_def body_ok_def HEADER_SIZE_def split: recv_state.splits)

text \<open>What goes down: results and events.\<close>

datatype 'v down = DResult string "'v result" | DEvent 'v

fun down_body :: "('i, 'ty, 'v) archive \<Rightarrow> bool \<Rightarrow> string \<Rightarrow> 'v down \<Rightarrow> byte list" where
  "down_body A ar bc (DResult fn r) = result_body A ar fn r"
| "down_body A ar bc (DEvent ev) = event_body A ar bc ev"

fun down_results :: "'v down list \<Rightarrow> (string \<times> 'v result) list" where
  "down_results [] = []"
| "down_results (DResult fn r # ds) = (fn, r) # down_results ds"
| "down_results (DEvent ev # ds) = down_results ds"

lemma down_results_append [simp]: "down_results (xs @ ys) = down_results xs @ down_results ys"
  by (induction xs rule: down_results.induct) simp_all

section \<open>The client's end\<close>

definition closure_fits :: "('k, 'l, 'i, 'ty, 'v, 'a) net \<Rightarrow> string \<Rightarrow> 'ty closure \<Rightarrow> bool" where
  "closure_fits N fn c \<longleftrightarrow>
     (\<exists>n. clo_fun c = Some n \<and> nt_function N n = fn) \<and> (\<exists>ts. nt_sig N fn = Some (ts, clo_type c))"

definition waiting_fits :: "('k, 'l, 'i, 'ty, 'v, 'a) net \<Rightarrow> bool \<Rightarrow> string \<Rightarrow> byte list \<times> 'ty closure \<Rightarrow> bool" where
  "waiting_fits N ar fn a \<longleftrightarrow>
     (\<exists>vs. fst a = serialize_call (net_arch N) ar fn vs \<and> nt_sig N fn = Some (map (nt_type N) vs, clo_type (snd a)) \<and>
        call_fits N fn vs)"

definition client_fits :: "('k, 'l, 'i, 'ty, 'v, 'a) net \<Rightarrow> bool \<Rightarrow> ('k, 'ty, 'v) client \<Rightarrow> bool" where
  "client_fits N ar s \<longleftrightarrow>
     cfg_inv (nt_cfg N) s \<and> fifo_ok s \<and> client_ready s \<and> can_receive s \<and> myArchives s = ar \<and>
     (\<forall>fn. \<forall>c \<in> set (outstanding fn s). closure_fits N fn c) \<and>
     (\<forall>fn. \<forall>a \<in> set (waiting (myCallQueue s) fn). waiting_fits N ar fn a)"

lemma client_fits_closure: "client_fits N ar s \<Longrightarrow> c \<in> set (outstanding fn s) \<Longrightarrow> closure_fits N fn c"
  and client_fits_waiting:
    "client_fits N ar s \<Longrightarrow> a \<in> set (waiting (myCallQueue s) fn) \<Longrightarrow> waiting_fits N ar fn a"
  by (simp_all add: client_fits_def)

text \<open>The answers a client's closures have been called with.\<close>

fun answers :: "'v callback list \<Rightarrow> (nat \<times> 'v result) list" where
  "answers [] = []"
| "answers (OnResult n r # cbs) = (n, r) # answers cbs"
| "answers (cb # cbs) = answers cbs"

lemma answers_append [simp]: "answers (xs @ ys) = answers xs @ answers ys"
  by (induction xs rule: answers.induct) simp_all

definition received :: "('k, 'l, 'i, 'ty, 'v, 'a) net \<Rightarrow> string \<Rightarrow> 'v result \<Rightarrow> 'v result" where
  "received N fn r =
     received_result (net_arch N) (case nt_sig N fn of None \<Rightarrow> None | Some (ts, ty) \<Rightarrow> ty) r"

definition of_function :: "string \<Rightarrow> (string \<times> 'b) list \<Rightarrow> 'b list" where
  "of_function fn xs = map snd (filter (\<lambda>x. fst x = fn) xs)"

lemma of_function_simps [simp]:
  "of_function fn [] = []"
  "of_function fn ((g, x) # xs) = (if g = fn then x # of_function fn xs else of_function fn xs)"
  "of_function fn (xs @ ys) = of_function fn xs @ of_function fn ys"
  by (simp_all add: of_function_def)

section \<open>One connection\<close>

text \<open>
  Each call in progress is in one place: its message on its way up, pending at the service, or
  its result on its way down.
\<close>

definition link :: "('k, 'l, 'i, 'ty, 'v, 'a) net \<Rightarrow> ('k, 'ty, 'v) client \<Rightarrow> messenger \<Rightarrow> nat \<Rightarrow> bool \<Rightarrow>
    (string \<Rightarrow> bool) \<Rightarrow> byte list \<Rightarrow> byte list \<Rightarrow> (string \<times> 'v list) list \<Rightarrow> 'v down list \<Rightarrow> bool" where
  "link N s m bl ar pend up dn ups downs \<longleftrightarrow>
     client_fits N ar s \<and>
     incoming (net_endian N) m bl up (map (\<lambda>(fn, vs). call_body (net_arch N) ar fn vs) ups) \<and>
     incoming (net_endian N) (myMessenger s) (length (myBuffer (myTransport s))) dn
       (map (down_body (net_arch N) ar (myBroadcastFuncName (nt_cfg N))) downs) \<and>
     (\<forall>fn. length (of_function fn ups) + (if pend fn then 1 else 0) + length (of_function fn (down_results downs)) =
        (if in_keys fn (myClosures s) then 1 else 0)) \<and>
     (\<forall>(fn, vs) \<in> set ups. \<exists>ty. nt_sig N fn = Some (map (nt_type N) vs, ty)) \<and>
     (\<forall>d \<in> set downs. case d of DResult fn r \<Rightarrow> result_fits N fn r | DEvent ev \<Rightarrow> event_fits N ev)"

text \<open>
  What has happened: of each function, the calls made so far are the answered and the
  outstanding ones, and the results given are those received and those on their way.
\<close>

abbreviation closure_ids :: "('k, 'l, 'i, 'ty, 'v, 'a) net \<Rightarrow> string \<Rightarrow> nat list \<Rightarrow> nat list" where
  "closure_ids N fn \<equiv> filter (\<lambda>n. nt_function N n = fn)"

abbreviation results_for_function :: "('k, 'l, 'i, 'ty, 'v, 'a) net \<Rightarrow> string \<Rightarrow> (nat \<times> 'v result) list \<Rightarrow>
    'v result list" where
  "results_for_function N fn \<equiv> of_function fn \<circ> map (\<lambda>(n, r). (nt_function N n, r))"

definition history :: "('k, 'l, 'i, 'ty, 'v, 'a) net \<Rightarrow> ('k, 'ty, 'v) client \<Rightarrow> nat list \<Rightarrow>
    (string \<times> 'v result) list \<Rightarrow> 'v down list \<Rightarrow> bool" where
  "history N s issued given downs \<longleftrightarrow>
     (\<forall>fn. closure_ids N fn issued =
        closure_ids N fn (map fst (answers (callbacks s))) @ map (the \<circ> clo_fun) (outstanding fn s)) \<and>
     (\<forall>fn. map (received N fn) (of_function fn given) =
        results_for_function N fn (answers (callbacks s)) @ map (received N fn) (of_function fn (down_results downs)))"

definition session :: "('k, 'l, 'i, 'ty, 'v, 'a) net \<Rightarrow> ('k, 'ty, 'v) client \<Rightarrow> messenger \<Rightarrow> nat \<Rightarrow> bool \<Rightarrow>
    (string \<Rightarrow> bool) \<Rightarrow> byte list \<Rightarrow> byte list \<Rightarrow> nat list \<Rightarrow> (string \<times> 'v result) list \<Rightarrow> bool" where
  "session N s m bl ar pend up dn issued given \<longleftrightarrow>
     (\<exists>ups downs. link N s m bl ar pend up dn ups downs \<and> history N s issued given downs)"

lemma link_placed:
  "link N s m bl ar pend up dn ups downs \<Longrightarrow>
   length (of_function fn ups) + (if pend fn then 1 else 0) + length (of_function fn (down_results downs)) =
     (if in_keys fn (myClosures s) then 1 else 0)"
  by (simp add: link_def)

section \<open>Calls\<close>

lemma net_okD:
  assumes "net_ok N"
  shows "sc_arch (nt_scfg N) = net_arch N" and "sc_endian (nt_scfg N) = net_endian N"
    and "bcastFuncName (nt_scfg N) = myBroadcastFuncName (nt_cfg N)"
    and "archive_ok (net_arch N) (nt_type N)"
    and "lossless (cf_io (nt_cfg N)) (nt_out N)" and "lossless (sc_io (nt_scfg N)) (nt_sout N)"
    and "0 < cf_max_calls (nt_cfg N)" and "nt_sig N (myBroadcastFuncName (nt_cfg N)) = None"
    and "nt_now N fn vs = Some r \<Longrightarrow> nt_sig N fn \<noteq> None \<Longrightarrow> result_fits N fn r"
  using assms by (simp_all add: net_ok_def bcastFuncName_def myBroadcastFuncName_def)

lemma call_fits_body: "call_fits N fn vs \<Longrightarrow> body_ok (call_body (net_arch N) ar fn vs)"
  by (cases ar) (simp_all add: call_fits_def)

lemma call_written:
  assumes "net_ok N" and "call_fits N fn vs"
    and msg: "msg = serialize_call (net_arch N) ar fn vs"
  shows "write_succeeds (nt_cfg N) msg s"
    and "nt_out N (mySocket (myTransport (after_write (nt_cfg N) msg s))) =
      nt_out N (mySocket (myTransport s)) @ frame (net_endian N) (call_body (net_arch N) ar fn vs)"
proof -
  have "message_with_header (net_endian N) msg = Inr (frame (net_endian N) (call_body (net_arch N) ar fn vs))"
    unfolding msg by (rule body_frames(3) [OF net_okD(4) [OF assms(1)] call_fits_body [OF assms(2)]])
  then show "write_succeeds (nt_cfg N) msg s"
    and "nt_out N (mySocket (myTransport (after_write (nt_cfg N) msg s))) =
      nt_out N (mySocket (myTransport s)) @ frame (net_endian N) (call_body (net_arch N) ar fn vs)"
    using net_okD(5) [OF assms(1)] by (simp_all add: write_succeeds_def after_write_def lossless_def)
qed

lemma enqueue_closure_fields [simp]:
  "myTransport (enqueue_closure fn c s) = myTransport s"
  "myCallQueue (enqueue_closure fn c s) = myCallQueue s"
  "myMessenger (enqueue_closure fn c s) = myMessenger s"
  "myArchives (enqueue_closure fn c s) = myArchives s"
  "callbacks (enqueue_closure fn c s) = callbacks s"
  "myClosures (enqueue_closure fn c s) = AList.update fn c (myClosures s)"
  "client_ready (enqueue_closure fn c s) = client_ready s"
  "can_receive (enqueue_closure fn c s) = can_receive s"
  by (simp_all add: enqueue_closure_def client_ready_def can_receive_def)

lemma can_receive_after_write [simp]: "can_receive (after_write cfg msg s) = can_receive s"
  by (simp add: can_receive_def)

lemma client_fits_send:
  assumes "client_fits N ar s" and "\<not> in_keys fn (myClosures s)" and "closure_fits N fn c"
  shows "client_fits N ar (enqueue_closure fn c (after_write cfg msg s))"
proof -
  have s: "cfg_inv (nt_cfg N) s" "fifo_ok s"
    using assms(1) by (simp_all add: client_fits_def)
  have "cfg_inv (nt_cfg N) (after_write cfg msg s)"
    using s(1) by (simp add: client_inv_def)
  then show ?thesis
    using assms fifo_ok_enqueue_closure [OF s(2), of fn c cfg msg]
      client_inv_enqueue_closure [of "call_limit (nt_cfg N)" "after_write cfg msg s" fn c]
    by (auto simp: client_fits_def outstanding_enqueue_closure [OF assms(2) s(2)]
        split: if_splits)
qed

lemma client_fits_wait:
  assumes "client_fits N ar s" and "in_keys fn (myClosures s)" and "closure_fits N fn c"
    and "length (outstanding fn s) < cf_max_calls (nt_cfg N)" and "waiting_fits N ar fn (msg, c)"
  shows "client_fits N ar (s\<lparr>myCallQueue := enqueue_call fn (msg, c) (myCallQueue s)\<rparr>)"
proof -
  have "can_enqueue (call_limit (nt_cfg N)) fn (myCallQueue s)"
    using assms(2,4) by (simp add: can_enqueue_iff outstanding_length call_limit_def)
  then show ?thesis
    using assms outstanding_enqueue_call [OF assms(2), where c = c and msg = msg]
      client_inv_enqueue_call [of "call_limit (nt_cfg N)" s fn "(msg, c)"] fifo_ok_enqueue_call [of s fn "(msg, c)"]
    by (simp add: client_fits_def client_ready_def can_receive_def waiting_enqueue)
qed

lemma session_call:
  assumes "net_ok N" and "session N s m bl ar pend up dn issued given"
    and fn: "fn = full_name (nt_cfg N) f" and sig: "nt_sig N fn = Some (map (nt_type N) vs, clo_type c)"
    and n: "clo_fun c = Some n" "nt_function N n = fn" and "call_fits N fn vs"
    and "length (outstanding fn s) < cf_max_calls (nt_cfg N)"
  shows "\<exists>s' sent. send_call passive_user (nt_cfg N) f c vs s = Ret () s' \<and>
    nt_out N (mySocket (myTransport s')) = nt_out N (mySocket (myTransport s)) @ sent \<and>
    length (myBuffer (myTransport s')) = length (myBuffer (myTransport s)) \<and>
    session N s' m bl ar pend (up @ sent) dn (issued @ [n]) given"
proof -
  obtain ups downs where link: "link N s m bl ar pend up dn ups downs" and hist: "history N s issued given downs"
    using assms(2) by (auto simp: session_def)
  have fits: "client_fits N ar s" and ready: "client_ready s" "fifo_ok s" "myArchives s = ar"
    using link by (simp_all add: link_def client_fits_def)
  have c: "closure_fits N fn c"
    using sig n by (simp add: closure_fits_def)
  let ?msg = "serialize_call (net_arch N) ar fn vs"
  show ?thesis
  proof (cases "in_keys fn (myClosures s)")
    case False
    let ?s = "enqueue_closure fn c (after_write (nt_cfg N) ?msg s)"
    let ?sent = "frame (net_endian N) (call_body (net_arch N) ar fn vs)"
    note written = call_written [OF assms(1,7) refl, of ar s]
    note out = outstanding_enqueue_closure [OF False ready(2)]
    have "send_call passive_user (nt_cfg N) f c vs s = Ret () ?s"
      using send_call_direct [OF ready(1), of "nt_cfg N" f vs passive_user c] False written(1) fn ready(3) by simp
    moreover have "length (of_function g (ups @ [(fn, vs)])) + (if pend g then 1 else 0) +
        length (of_function g (down_results downs)) = (if in_keys g (myClosures ?s) then 1 else 0)" for g
      using link_placed [OF link, of g] False by (auto split: if_splits)
    then have "link N ?s m bl ar pend (up @ ?sent) dn (ups @ [(fn, vs)]) downs"
      using link client_fits_send [OF fits False c] incoming_append [OF _ call_fits_body [OF assms(7)]] sig
      by (simp add: link_def)
    moreover have "history N ?s (issued @ [n]) given downs"
      using hist n False ready(2) by (auto simp: history_def out outstanding_Nil_iff)
    ultimately show ?thesis
      using written(2) by (auto simp: session_def)
  next
    case True
    let ?s = "s\<lparr>myCallQueue := enqueue_call fn (?msg, c) (myCallQueue s)\<rparr>"
    have w: "waiting_fits N ar fn (?msg, c)"
      using sig assms(7) by (auto simp: waiting_fits_def)
    have "length (waiting (myCallQueue s) fn) < call_limit (nt_cfg N)"
      using assms(8) True by (simp add: outstanding_length call_limit_def)
    then have "send_call passive_user (nt_cfg N) f c vs s = Ret () ?s"
      using send_call_queued [OF ready(1), of "nt_cfg N" f] True fn ready(3) by simp
    moreover have "link N ?s m bl ar pend (up @ []) dn ups downs"
      using link client_fits_wait [OF fits True c assms(8) w] by (simp add: link_def)
    moreover have "history N ?s (issued @ [n]) given downs"
      using hist n by (auto simp: history_def outstanding_enqueue_call [OF True])
    ultimately show ?thesis
      by (fastforce simp: session_def)
  qed
qed

section \<open>What the service sees of a connection\<close>

lemma session_up_header:
  assumes "session N s m bl ar pend up dn issued given" and "0 < bl" and "bl \<le> length up"
    and "myReceiveState m = HEADER"
  shows "\<exists>b. body_ok b \<and> bl = HEADER_SIZE \<and> take bl up = store_u32 (net_endian N) (word_of_nat (length b)) \<and>
    session N s (msg_state MESSAGE b) (length b) ar pend (drop bl up) dn issued given"
proof -
  obtain ups downs where link: "link N s m bl ar pend up dn ups downs" and hist: "history N s issued given downs"
    using assms(1) by (auto simp: session_def)
  let ?bodies = "map (\<lambda>(fn, vs). call_body (net_arch N) ar fn vs) ups"
  have inc: "incoming (net_endian N) m bl up ?bodies"
    using link by (simp add: link_def)
  then obtain b bs where b: "?bodies = b # bs"
    using incoming_ready assms(2,3) by (cases ?bodies) fast+
  note header = incoming_header [OF inc [unfolded b] assms(4)]
  have "link N s (msg_state MESSAGE b) (length b) ar pend (drop bl up) dn ups downs"
    using link header(4) b by (simp add: link_def)
  with hist header show ?thesis
    by (auto simp: session_def)
qed

lemma session_up_body:
  assumes "session N s m bl ar pend up dn issued given" and "0 < bl" and "bl \<le> length up"
    and "myReceiveState m = MESSAGE"
  shows "\<exists>fn vs ty b. b = call_body (net_arch N) ar fn vs \<and> body_ok b \<and> m = msg_state MESSAGE b \<and>
    take bl up = b \<and> nt_sig N fn = Some (map (nt_type N) vs, ty) \<and> \<not> pend fn \<and>
    session N s (msg_state HEADER b) HEADER_SIZE ar (pend(fn := True)) (drop bl up) dn issued given"
proof -
  obtain ups downs where link: "link N s m bl ar pend up dn ups downs" and hist: "history N s issued given downs"
    using assms(1) by (auto simp: session_def)
  have inc: "incoming (net_endian N) m bl up (map (\<lambda>(fn, vs). call_body (net_arch N) ar fn vs) ups)"
    using link by (simp add: link_def)
  then obtain fn vs ups' where ups: "ups = (fn, vs) # ups'"
    using incoming_ready [OF inc] assms(2,3) by (cases ups) auto
  let ?b = "call_body (net_arch N) ar fn vs"
  have inc': "incoming (net_endian N) m bl up (?b # map (\<lambda>(fn, vs). call_body (net_arch N) ar fn vs) ups')"
    using inc ups by simp
  note body = incoming_body [OF inc' assms(4)]
  obtain ty where ty: "nt_sig N fn = Some (map (nt_type N) vs, ty)"
    using link ups by (auto simp: link_def)
  have placed: "length (of_function g ups') + (if (pend(fn := True)) g then 1 else 0) +
      length (of_function g (down_results downs)) = (if in_keys g (myClosures s) then 1 else 0)" and "\<not> pend fn" for g
    using link_placed [OF link, of g] link_placed [OF link, of fn] ups by (auto split: if_splits)
  then have "link N s (msg_state HEADER ?b) HEADER_SIZE ar (pend(fn := True)) (drop bl up) dn ups' downs"
    using link ups body(4) by (simp add: link_def)
  with hist body ty \<open>\<not> pend fn\<close> show ?thesis
    by (auto simp: session_def)
qed

lemma session_answer:
  assumes "session N s m bl ar pend up dn issued given" and "pend fn" and "result_fits N fn r"
  shows "session N s m bl ar (pend(fn := False)) up
    (dn @ frame (net_endian N) (result_body (net_arch N) ar fn r)) issued (given @ [(fn, r)])"
proof -
  obtain ups downs where link: "link N s m bl ar pend up dn ups downs" and hist: "history N s issued given downs"
    using assms(1) by (auto simp: session_def)
  have ok: "body_ok (result_body (net_arch N) ar fn r)"
    using assms(3) by (cases ar) (simp_all add: result_fits_def)
  have placed: "length (of_function g ups) + (if (pend(fn := False)) g then 1 else 0) +
      length (of_function g (down_results (downs @ [DResult fn r]))) = (if in_keys g (myClosures s) then 1 else 0)" for g
    using link_placed [OF link, of g] assms(2) by (auto split: if_splits)
  then have "link N s m bl ar (pend(fn := False)) up
      (dn @ frame (net_endian N) (result_body (net_arch N) ar fn r)) ups (downs @ [DResult fn r])"
    using link assms(3) incoming_append [OF _ ok] by (simp add: link_def)
  moreover have "history N s issued (given @ [(fn, r)]) (downs @ [DResult fn r])"
    using hist by (simp add: history_def)
  ultimately show ?thesis
    by (auto simp: session_def)
qed

lemma session_event:
  assumes "session N s m bl ar pend up dn issued given" and "event_fits N ev"
  shows "session N s m bl ar pend up
    (dn @ frame (net_endian N) (event_body (net_arch N) ar (myBroadcastFuncName (nt_cfg N)) ev)) issued given"
proof -
  obtain ups downs where link: "link N s m bl ar pend up dn ups downs" and hist: "history N s issued given downs"
    using assms(1) by (auto simp: session_def)
  have ok: "body_ok (event_body (net_arch N) ar (myBroadcastFuncName (nt_cfg N)) ev)"
    using assms(2) by (cases ar) (simp_all add: event_fits_def)
  have "link N s m bl ar pend up (dn @ frame (net_endian N)
      (event_body (net_arch N) ar (myBroadcastFuncName (nt_cfg N)) ev)) ups (downs @ [DEvent ev])"
    using link assms(2) incoming_append [OF _ ok] by (simp add: link_def)
  moreover have "history N s issued given (downs @ [DEvent ev])"
    using hist by (simp add: history_def)
  ultimately show ?thesis
    by (auto simp: session_def)
qed

section \<open>What the client sees of a connection\<close>

lemma client_fits_transport [simp]:
  "myListener t = myListener (myTransport s) \<Longrightarrow> myState t = myState (myTransport s) \<Longrightarrow>
   client_fits N ar (s\<lparr>myTransport := t, myMessenger := m\<rparr>) = client_fits N ar s"
  "myListener t = myListener (myTransport s) \<Longrightarrow> myState t = myState (myTransport s) \<Longrightarrow>
   client_fits N ar (s\<lparr>myTransport := t\<rparr>) = client_fits N ar s"
  "client_fits N ar (s\<lparr>callbacks := cbs\<rparr>) = client_fits N ar s"
  by (simp_all add: client_fits_def client_ready_def tr_is_open_def can_receive_def fifo_ok_def)

lemma client_fits_takes:
  assumes "net_ok N" and "client_fits N ar s"
  shows "takes_waiting (nt_cfg N) fn s"
proof -
  have "case message_with_header (net_endian N) (fst a) of Inl e \<Rightarrow> False
      | Inr m \<Rightarrow> ec_ok (fst (io_write (cf_io (nt_cfg N)) m k))" if a: "a \<in> set (waiting (myCallQueue s) fn)" for a k
  proof -
    obtain vs where "fst a = serialize_call (net_arch N) ar fn vs" "call_fits N fn vs"
      using client_fits_waiting [OF assms(2) a] by (auto simp: waiting_fits_def)
    then show ?thesis
      using body_frames(3) [OF net_okD(4) [OF assms(1)] call_fits_body] net_okD(5) [OF assms(1)]
      by (simp add: lossless_def)
  qed
  then show ?thesis
    by (auto simp: takes_waiting_def)
qed

lemma result_handled_fits:
  assumes "net_ok N" and "client_fits N ar s" and "outstanding fn s = c # cs"
  defines "s' \<equiv> result_handled (nt_cfg N) fn s"
  shows "client_fits N ar s'" and "outstanding g s' = (if g = fn then cs else outstanding g s)"
    and "callbacks s' = callbacks s" and "myMessenger s' = myMessenger s"
    and "myBuffer (myTransport s') = myBuffer (myTransport s)"
    and "g \<noteq> fn \<Longrightarrow> in_keys g (myClosures s') = in_keys g (myClosures s)"
    and "if in_keys fn (myClosures s')
      then \<exists>vs ty. nt_sig N fn = Some (map (nt_type N) vs, ty) \<and> call_fits N fn vs \<and>
        nt_out N (mySocket (myTransport s')) =
          nt_out N (mySocket (myTransport s)) @ frame (net_endian N) (call_body (net_arch N) ar fn vs)
      else nt_out N (mySocket (myTransport s')) = nt_out N (mySocket (myTransport s))"
proof -
  have s: "cfg_inv (nt_cfg N) s" "fifo_ok s" "client_ready s" "can_receive s"
    using assms(2) by (simp_all add: client_fits_def)
  have awaits: "awaits_results (nt_cfg N) fn s"
    using s client_fits_takes [OF assms(1,2)] by (simp add: awaits_results_def)
  note kept = result_handled_keeps [OF awaits assms(3)]
  note first = outstanding_Cons [OF s(2) assms(3)]
  show out: "outstanding g s' = (if g = fn then cs else outstanding g s)" for g
    using first next_call_sent_simps(1) [of s fn, where cfg = "nt_cfg N"]
    by (cases "waiting (myCallQueue s) fn")
       (auto simp: s'_def result_handled_def outstanding_def)
  have queue: "waiting (myCallQueue s') g = (if g = fn then tl (waiting (myCallQueue s) fn) else waiting (myCallQueue s) g)" for g
    by (cases "waiting (myCallQueue s) fn") (simp_all add: s'_def result_handled_def waiting_pop)
  have "\<forall>a \<in> set (waiting (myCallQueue s') g). waiting_fits N ar g a" for g
    using client_fits_waiting [OF assms(2)] queue [of g]
    by (cases "waiting (myCallQueue s) fn") (auto split: if_splits)
  moreover have "\<forall>c \<in> set (outstanding g s'). closure_fits N g c" for g
    using client_fits_closure [OF assms(2)] assms(3) out [of g] by (auto split: if_splits)
  ultimately show "client_fits N ar s'"
    using kept assms(2) by (simp add: client_fits_def awaits_results_def s'_def)
  show "callbacks s' = callbacks s" and "myMessenger s' = myMessenger s"
    and "myBuffer (myTransport s') = myBuffer (myTransport s)"
    and "g \<noteq> fn \<Longrightarrow> in_keys g (myClosures s') = in_keys g (myClosures s)"
    by (simp_all add: s'_def result_handled_def next_call_sent_def Let_def split: list.split)
  show "if in_keys fn (myClosures s')
      then \<exists>vs ty. nt_sig N fn = Some (map (nt_type N) vs, ty) \<and> call_fits N fn vs \<and>
        nt_out N (mySocket (myTransport s')) =
          nt_out N (mySocket (myTransport s)) @ frame (net_endian N) (call_body (net_arch N) ar fn vs)
      else nt_out N (mySocket (myTransport s')) = nt_out N (mySocket (myTransport s))"
  proof (cases "waiting (myCallQueue s) fn")
    case Nil
    then show ?thesis
      by (simp add: s'_def result_handled_def)
  next
    case (Cons a xs)
    then obtain vs where vs: "fst a = serialize_call (net_arch N) ar fn vs"
        "nt_sig N fn = Some (map (nt_type N) vs, clo_type (snd a))" "call_fits N fn vs"
      using client_fits_waiting [OF assms(2), of a fn] by (auto simp: waiting_fits_def)
    have "nt_out N (mySocket (myTransport s')) =
        nt_out N (mySocket (myTransport s)) @ frame (net_endian N) (call_body (net_arch N) ar fn vs)"
      using call_written(2) [OF assms(1) vs(3,1), of s] next_call_sent_simps(4) [OF Cons, of "nt_cfg N"] Cons
      by (simp add: s'_def result_handled_def)
    moreover have "in_keys fn (myClosures s')"
      using Cons by (simp add: s'_def result_handled_def next_call_sent_def Let_def)
    ultimately show ?thesis
      using vs by auto
  qed
qed

lemma session_down_header:
  assumes "session N s m bl ar pend up dn issued given" and "n = length (myBuffer (myTransport s))"
    and "0 < n" and "n \<le> length dn" and "myReceiveState (myMessenger s) = HEADER" and "net_ok N"
  shows "\<exists>s'. client_receive passive_user (nt_cfg N) (take n dn) s = Ret () s' \<and>
    nt_out N (mySocket (myTransport s')) = nt_out N (mySocket (myTransport s)) \<and> callbacks s' = callbacks s \<and>
    session N s' m bl ar pend up (drop n dn) issued given"
proof -
  obtain ups downs where link: "link N s m bl ar pend up dn ups downs" and hist: "history N s issued given downs"
    using assms(1) by (auto simp: session_def)
  let ?bodies = "map (down_body (net_arch N) ar (myBroadcastFuncName (nt_cfg N))) downs"
  have inc: "incoming (net_endian N) (myMessenger s) n dn ?bodies" and recv: "can_receive s"
    using link assms(2) by (simp_all add: link_def client_fits_def)
  then obtain b bs where b: "?bodies = b # bs"
    using incoming_ready assms(3,4) by (cases ?bodies) fast+
  note header = incoming_header [OF inc [unfolded b] assms(5)]
  let ?s = "s\<lparr>myTransport := tr_read (cf_io (nt_cfg N)) (length b)
      ((myTransport s)\<lparr>myBuffer := store_u32 (net_endian N) (word_of_nat (length b))\<rparr>),
      myMessenger := msg_state MESSAGE b\<rparr>"
  have "client_receive passive_user (nt_cfg N) (take n dn) s = Ret () ?s"
    using client_receive_header [OF recv _ header(1), of passive_user "nt_cfg N"] header(2,3) assms(2,5)
    by (simp add: at_header_def)
  moreover have "nt_out N (mySocket (myTransport ?s)) = nt_out N (mySocket (myTransport s))"
    using net_okD(5) [OF assms(6)] by (simp add: tr_read_def lossless_def)
  moreover have "link N ?s m bl ar pend up (drop n dn) ups downs"
    using link header(4) b by (simp add: link_def)
  moreover have "history N ?s issued given downs"
    using hist by (simp add: history_def)
  ultimately show ?thesis
    by (fastforce simp: session_def)
qed

lemma event_handled:
  assumes "net_ok N" and "event_fits N ev" and "myArchives s = ar"
  shows "\<exists>cbs. message_handler passive_user (nt_cfg N)
      (event_body (net_arch N) ar (myBroadcastFuncName (nt_cfg N)) ev) s =
    Ret () (s\<lparr>callbacks := callbacks s @ cbs\<rparr>) \<and> answers cbs = []"
proof -
  let ?bc = "myBroadcastFuncName (nt_cfg N)"
  obtain i where i: "deserialize_call (net_arch N) ar (event_body (net_arch N) ar ?bc ev) = Some (?bc, i)"
      "deserialize_event (net_arch N) (nt_type N ev) i = Some ev"
    using event_items [OF net_okD(4) [OF assms(1)], of ar ?bc ev] by (auto simp: event_body_def)
  have none: "answers (map (\<lambda>l. OnEvent l e) ls) = []" for e ls
    by (induction ls) simp_all
  have handler: "message_handler passive_user (nt_cfg N) (event_body (net_arch N) ar ?bc ev) s =
      dispatch_event passive_user (nt_cfg N) i s"
    using i(1) assms(3) by (simp add: message_handler_def)
  show ?thesis
  proof (cases "cf_event (nt_cfg N)")
    case None
    then show ?thesis
      by (intro exI [of _ "[]"]) (simp add: handler dispatch_event_def)
  next
    case (Some e)
    let ?cbs = "case myEventListeners s of [] \<Rightarrow> []
      | l # ls \<Rightarrow> OnEvent l (Some ev) # map (\<lambda>l. OnEvent l (if snd e then None else Some ev)) ls"
    have "nt_type N ev = fst e"
      using assms(2) Some by (auto simp: event_fits_def)
    then show ?thesis
      using i(2) Some none
      by (intro exI [of _ ?cbs])
         (auto simp: handler dispatch_event_def notify_listeners_passive simp del: notify_listeners.simps
            split: prod.split list.split)
  qed
qed

lemma result_handled_by:
  assumes "net_ok N" and "client_fits N ar s" and "result_fits N fn r" and "in_keys fn (myClosures s)"
  shows "\<exists>c cs n. outstanding fn s = c # cs \<and> clo_fun c = Some n \<and> nt_function N n = fn \<and>
    message_handler passive_user (nt_cfg N) (result_body (net_arch N) ar fn r) s =
      Ret () ((result_handled (nt_cfg N) fn s)\<lparr>callbacks := callbacks s @ [OnResult n (received N fn r)]\<rparr>)"
proof -
  have s: "fifo_ok s" "awaits_results (nt_cfg N) fn s" "myArchives s = ar"
    using assms(2) client_fits_takes [OF assms(1,2)] by (simp_all add: client_fits_def awaits_results_def)
  obtain c cs where out: "outstanding fn s = c # cs"
    using outstanding_Nil_iff [OF s(1)] assms(4) by (cases "outstanding fn s") auto
  then have "closure_fits N fn c"
    using client_fits_closure [OF assms(2)] by simp
  then obtain n ts where n: "clo_fun c = Some n" "nt_function N n = fn" and sig: "nt_sig N fn = Some (ts, clo_type c)"
    by (auto simp: closure_fits_def)
  then have ty: "result_has_type (nt_type N) (clo_type c) r" and bc: "fn \<noteq> myBroadcastFuncName (nt_cfg N)"
    using assms(3) net_okD(8) [OF assms(1)] by (auto simp: result_fits_def)
  obtain i where i: "deserialize_call (net_arch N) ar (result_body (net_arch N) ar fn r) = Some (fn, i)"
      "reads (net_arch N) (nt_type N) i (save_result r)"
    using deserialize_call_items [OF net_okD(4) [OF assms(1)], of ar fn "save_result r"]
    by (auto simp: result_body_def serialize_call_result_def)
  have "deserialize_result (net_arch N) (clo_type c) i = Some (received N fn r)"
    using load_result_reads [OF i(2) ty] sig by (simp add: received_def)
  then show ?thesis
    using dispatch_passive [OF s(2) out n(1)] i(1) bc s(3) out n by (simp add: message_handler_def)
qed

text \<open>A client after a completed body: the message handled, the next header asked for.\<close>

definition body_done :: "('k, 'l, 'i, 'ty, 'v, 'a) net \<Rightarrow> byte list \<Rightarrow> ('k, 'ty, 'v) client \<Rightarrow> ('k, 'ty, 'v) client" where
  "body_done N b s = s\<lparr>myTransport := tr_read (cf_io (nt_cfg N)) HEADER_SIZE (myTransport s),
     myMessenger := msg_state HEADER b\<rparr>"

lemma body_done_simps [simp]:
  "client_fits N ar (body_done N b s) = client_fits N ar s"
  "callbacks (body_done N b s) = callbacks s"
  "myClosures (body_done N b s) = myClosures s"
  "outstanding fn (body_done N b s) = outstanding fn s"
  "myMessenger (body_done N b s) = msg_state HEADER b"
  "length (myBuffer (myTransport (body_done N b s))) = HEADER_SIZE"
  "net_ok N \<Longrightarrow> nt_out N (mySocket (myTransport (body_done N b s))) = nt_out N (mySocket (myTransport s))"
  using net_okD(5) [of N] by (simp_all add: body_done_def tr_read_def outstanding_def lossless_def resize_def)

lemma session_result:
  assumes "net_ok N" and link: "link N s m bl ar pend up dn ups (DResult fn r # downs)"
    and hist: "history N s issued given (DResult fn r # downs)" and "myMessenger s = msg_state MESSAGE b"
    and inc: "incoming (net_endian N) (msg_state HEADER b) HEADER_SIZE dn'
      (map (down_body (net_arch N) ar (myBroadcastFuncName (nt_cfg N))) downs)"
  shows "\<exists>s1 sent. message_handler passive_user (nt_cfg N) (result_body (net_arch N) ar fn r) s = Ret () s1 \<and>
    nt_out N (mySocket (myTransport s1)) = nt_out N (mySocket (myTransport s)) @ sent \<and>
    length (answers (callbacks s1)) = Suc (length (answers (callbacks s))) \<and>
    session N (body_done N b s1) m bl ar pend (up @ sent) dn' issued given"
proof -
  have fits: "client_fits N ar s" and r: "result_fits N fn r"
    using link by (simp_all add: link_def)
  have placed: "length (of_function fn ups) = 0" "\<not> pend fn" "length (of_function fn (down_results downs)) = 0"
      "in_keys fn (myClosures s)"
    using link_placed [OF link, of fn] by (auto split: if_splits)
  obtain c cs n where c: "outstanding fn s = c # cs" "clo_fun c = Some n" "nt_function N n = fn"
      "message_handler passive_user (nt_cfg N) (result_body (net_arch N) ar fn r) s =
        Ret () ((result_handled (nt_cfg N) fn s)\<lparr>callbacks := callbacks s @ [OnResult n (received N fn r)]\<rparr>)"
    using result_handled_by [OF assms(1) fits r placed(4)] by blast
  let ?h = "result_handled (nt_cfg N) fn s"
  let ?s1 = "?h\<lparr>callbacks := callbacks s @ [OnResult n (received N fn r)]\<rparr>"
  note handled = result_handled_fits [OF assms(1) fits c(1)]
  have hist': "history N (body_done N b ?s1) issued given downs"
    using hist c(1-3) by (auto simp: history_def handled(2))
  have ups: "\<exists>ups' sent. nt_out N (mySocket (myTransport ?s1)) = nt_out N (mySocket (myTransport s)) @ sent \<and>
      incoming (net_endian N) m bl (up @ sent) (map (\<lambda>(fn, vs). call_body (net_arch N) ar fn vs) (ups @ ups')) \<and>
      (\<forall>(fn, vs) \<in> set ups'. \<exists>ty. nt_sig N fn = Some (map (nt_type N) vs, ty)) \<and>
      (\<forall>g. length (of_function g ups') = (if g = fn \<and> in_keys fn (myClosures ?h) then 1 else 0))"
  proof (cases "in_keys fn (myClosures ?h)")
    case True
    then obtain vs ty where "nt_sig N fn = Some (map (nt_type N) vs, ty)" and fit: "call_fits N fn vs"
      and "nt_out N (mySocket (myTransport ?h)) =
        nt_out N (mySocket (myTransport s)) @ frame (net_endian N) (call_body (net_arch N) ar fn vs)"
      using handled(7) by auto
    then show ?thesis
      using link True incoming_append [OF _ call_fits_body [OF fit]]
      by (intro exI [of _ "[(fn, vs)]"]) (auto simp: link_def)
  next
    case False
    then show ?thesis
      using link handled(7) by (intro exI [of _ "[]"]) (simp add: link_def)
  qed
  then obtain ups' sent where sent: "nt_out N (mySocket (myTransport ?s1)) = nt_out N (mySocket (myTransport s)) @ sent"
    and up: "incoming (net_endian N) m bl (up @ sent) (map (\<lambda>(fn, vs). call_body (net_arch N) ar fn vs) (ups @ ups'))"
      "\<forall>(fn, vs) \<in> set ups'. \<exists>ty. nt_sig N fn = Some (map (nt_type N) vs, ty)"
      "\<And>g. length (of_function g ups') = (if g = fn \<and> in_keys fn (myClosures ?h) then 1 else 0)"
    by blast
  have "length (of_function g (ups @ ups')) + (if pend g then 1 else 0) + length (of_function g (down_results downs)) =
      (if in_keys g (myClosures (body_done N b ?s1)) then 1 else 0)" for g
    using link_placed [OF link, of g] placed up(3) [of g] handled(6) [of g] by (cases "g = fn") simp_all
  then have "link N (body_done N b ?s1) m bl ar pend (up @ sent) dn' (ups @ ups') downs"
    using link inc up(1,2) handled(1) by (auto simp: link_def)
  then show ?thesis
    using c(4) sent hist' by (auto simp: session_def)
qed

lemma session_down_body:
  assumes "session N s m bl ar pend up dn issued given" and "n = length (myBuffer (myTransport s))"
    and "0 < n" and "n \<le> length dn" and "myReceiveState (myMessenger s) = MESSAGE" and "net_ok N"
  shows "\<exists>s' sent. client_receive passive_user (nt_cfg N) (take n dn) s = Ret () s' \<and>
    nt_out N (mySocket (myTransport s')) = nt_out N (mySocket (myTransport s)) @ sent \<and>
    (sent = [] \<and> length (answers (callbacks s')) = length (answers (callbacks s)) \<or>
     length (answers (callbacks s')) = Suc (length (answers (callbacks s)))) \<and>
    session N s' m bl ar pend (up @ sent) (drop n dn) issued given"
proof -
  let ?bc = "myBroadcastFuncName (nt_cfg N)"
  obtain ups downs where link: "link N s m bl ar pend up dn ups downs" and hist: "history N s issued given downs"
    using assms(1) by (auto simp: session_def)
  have inc: "incoming (net_endian N) (myMessenger s) n dn (map (down_body (net_arch N) ar ?bc) downs)"
    and fits: "client_fits N ar s"
    using link assms(2) by (simp_all add: link_def)
  then obtain d ds where downs: "downs = d # ds"
    using incoming_ready [OF inc] assms(3,4) by (cases downs) auto
  let ?b = "down_body (net_arch N) ar ?bc d"
  note body = incoming_body [OF inc [unfolded downs list.map] assms(5)]
  let ?s0 = "s\<lparr>myTransport := (myTransport s)\<lparr>myBuffer := ?b\<rparr>\<rparr>"
  have "can_receive s"
    using fits by (simp add: client_fits_def)
  then have recv: "client_receive passive_user (nt_cfg N) (take n dn) s =
      (case message_handler passive_user (nt_cfg N) ?b ?s0 of
         Ret _ s1 \<Rightarrow> Ret () (body_done N ?b s1) | Exn e s1 \<Rightarrow> Exn e (s1\<lparr>myMessenger := msg_state MESSAGE ?b\<rparr>))"
    using client_receive_body [OF _ body(2,1)] body(3) by (simp add: body_done_def cong: res.case_cong)
  show ?thesis
  proof (cases d)
    case (DEvent ev)
    then obtain cbs where cbs: "message_handler passive_user (nt_cfg N) ?b ?s0 =
        Ret () (?s0\<lparr>callbacks := callbacks s @ cbs\<rparr>)" "answers cbs = []"
      using event_handled [OF assms(6), of ev ?s0 ar] link downs fits by (auto simp: link_def client_fits_def)
    let ?s1 = "body_done N ?b (?s0\<lparr>callbacks := callbacks s @ cbs\<rparr>)"
    have "link N ?s1 m bl ar pend up (drop n dn) ups ds"
      using link body(4) downs DEvent by (simp add: link_def)
    moreover have "history N ?s1 issued given ds"
      using hist downs DEvent cbs(2) by (simp add: history_def)
    ultimately show ?thesis
      using recv cbs assms(6) by (intro exI [of _ ?s1] exI [of _ "[]"]) (auto simp: session_def)
  next
    case (DResult fn r)
    have "incoming (net_endian N) (myMessenger ?s0) (length (myBuffer (myTransport ?s0))) dn
        (map (down_body (net_arch N) ar ?bc) downs)"
      using inc body(2) by (simp add: incoming_def downs msg_state_def)
    then have "link N ?s0 m bl ar pend up dn ups (DResult fn r # ds)" "history N ?s0 issued given (DResult fn r # ds)"
      using link hist downs DResult by (simp_all add: link_def history_def)
    then obtain s1 sent where s1: "message_handler passive_user (nt_cfg N) ?b ?s0 = Ret () s1"
        "nt_out N (mySocket (myTransport s1)) = nt_out N (mySocket (myTransport s)) @ sent"
        "length (answers (callbacks s1)) = Suc (length (answers (callbacks s)))"
        "session N (body_done N ?b s1) m bl ar pend (up @ sent) (drop n dn) issued given"
      using session_result [OF assms(6), of ?s0 m bl ar pend up dn ups fn r ds issued given ?b "drop n dn"]
        body(2,4) DResult by auto
    then show ?thesis
      using recv assms(6) by (intro exI [of _ "body_done N ?b s1"] exI [of _ sent]) simp
  qed
qed

end
