(* ===== verification/Sample_Network.thy ===== *)
theory Sample_Network
  imports Network_Session
begin

text \<open>
  A concrete system for the theorems that say hypotheses can be met: the sample client at two
  addresses, on sockets that refuse nothing, and a service whose addition answers at once or,
  for three zeros, later.
\<close>

abbreviation add_name :: string where
  "add_name \<equiv> ''CalculatorInterface::add''"

definition sample_net :: "(sample_socket, sample_socket, byte list, unit, cint, sample_acceptor) net" where
  "sample_net =
     \<lparr>nt_cfg = steady_cfg,
      nt_scfg = sample_service_cfg\<lparr>sc_io := cf_io steady_cfg\<rparr>,
      nt_sig = [add_name \<mapsto> ([(), (), ()], Some ())],
      nt_now = (\<lambda>fn vs. if vs = [0, 0, 0] then None else Some (Result_value (sum_list vs) Error_none)),
      nt_type = (\<lambda>_. ()), nt_out = sent, nt_sout = sent, nt_function = (\<lambda>_. add_name)\<rparr>"

definition sample_start :: "(sample_socket, sample_socket, unit, cint, sample_acceptor) net_state" where
  "sample_start =
     \<lparr>ns_clients = (\<lambda>_. sample_client),
      ns_service =
        \<lparr>svTransports = (\<lambda>p. sample_peer False),
         myClients = [(1, \<lparr>cs_messenger = new_messenger, cs_archives = True\<rparr>),
                      (2, \<lparr>cs_messenger = new_messenger, cs_archives = True\<rparr>)],
         myPendingCalls = [],
         myAcceptor = \<lparr>ac_socket = \<lparr>listening = True, port_taken = False, accepting = 1\<rparr>,
           ac_listener = True, ac_alive = True\<rparr>,
         svThreadId = 1, svRunningThread = 1, svUser = ([], [])\<rparr>,
      ns_read_up = (\<lambda>_. 0), ns_read_down = (\<lambda>_. 0), ns_issued = (\<lambda>_. [])\<rparr>"

lemma sample_net_simps [simp]:
  "nt_cfg sample_net = steady_cfg" "sc_arch (nt_scfg sample_net) = sample_archive"
  "sc_endian (nt_scfg sample_net) = LittleEndian" "sc_interface (nt_scfg sample_net) = ''CalculatorInterface''"
  "sc_io (nt_scfg sample_net) = cf_io steady_cfg"
  "nt_sig sample_net = [add_name \<mapsto> ([(), (), ()], Some ())]"
  "nt_type sample_net v = ()" "nt_out sample_net = sent" "nt_sout sample_net = sent"
  "nt_function sample_net n = add_name"
  by (simp_all add: sample_net_def)

lemma sample_result_fits: "result_fits sample_net add_name (Result_value v Error_none)"
proof -
  have "length (result_body sample_archive b add_name (Result_value v Error_none)) = 58" for b
    by (simp add: result_body_def serialize_call_result_def serialize_items_def sample_message_length
        save_result_def save_error_def Result_value_def Error_none_def u32_bytes_def)
  then show ?thesis
    by (auto simp: result_fits_def body_ok_def HEADER_SIZE_def result_has_type_def Result_value_def
        Error_none_def simp flip: length_greater_0_conv)
qed

lemma sample_call_fits: "call_fits sample_net add_name [a, b, c]"
proof -
  have size: "0 < length (call_body sample_archive ar add_name [a, b, c])"
      "length (call_body sample_archive ar add_name [a, b, c]) \<le> 100" for ar
    by (simp_all add: call_body_def serialize_call_def serialize_args_def serialize_items_def
        sample_message_length u32_bytes_def)
  have "body_ok (call_body sample_archive ar add_name [a, b, c])" for ar
    using size [of ar] by (simp add: body_ok_def HEADER_SIZE_def)
  then show ?thesis
    by (simp add: call_fits_def)
qed

lemma steady_lossless: "lossless (cf_io steady_cfg) sent"
  by (simp add: lossless_def ec_samples ec_ok_def) (simp add: steady_cfg_def sample_cfg_def sample_io_def)

lemma sample_net_ok: "net_ok sample_net"
proof -
  have "nt_sig sample_net (myBroadcastFuncName steady_cfg) = None"
    by (simp add: myBroadcastFuncName_def)
  moreover have "result_fits sample_net fn r"
    if "nt_now sample_net fn vs = Some r" "nt_sig sample_net fn \<noteq> None" for fn vs r
    using that sample_result_fits by (auto simp: sample_net_def split: if_splits)
  moreover have "archive_ok sample_archive (nt_type sample_net)"
    using sample_archive_ok by (simp add: sample_net_def)
  ultimately show ?thesis
    using steady_lossless by (auto simp: net_ok_def)
qed

lemma sample_net_start: "net_start sample_net sample_start"
  by (auto simp: net_start_def sample_start_def service_inv_def client_open_at_def sample_peer_def
      client_ready_def tr_is_open_def can_receive_def at_header_def service_at_header_def sample_client_eq
      new_messenger_def HEADER_SIZE_def sample_sock_def)

abbreviation sample_add :: "(unit, cint) net_op" where
  "sample_add \<equiv> Call 1 ''add'' (sample_closure 7) [1, 2, 3]"

lemma sample_add_enabled: "net_enabled sample_net sample_add sample_start"
proof -
  have "full_name steady_cfg ''add'' = add_name"
    by (simp add: myFuncPrefix_def)
  then show ?thesis
    using sample_call_fits
    by (simp add: Let_def sample_start_def sample_closure_def outstanding_def sample_client_eq empty_queue_def)
qed

text \<open>A call is recorded as issued; it does not change who is connected.\<close>

lemma call_issued:
  assumes "net_step N (Call p f c vs) y = Ret () y'"
  shows "ns_issued y' = (ns_issued y)(p := ns_issued y p @ [the (clo_fun c)])" and "ns_service y' = ns_service y"
  using assms by (auto simp: bind_res_eq_Ret at_client_def split: res.splits)

end
