(* ===== verification/Network_Spec.thy ===== *)
theory Network_Spec
  imports Sample_Network "HOL-Library.Multiset"
begin

text \<open>
  What a service and its clients do together, whatever the order of events: no operation fails,
  every call is answered once, in order, with the result the service gave for it, and the system
  comes to rest with nothing outstanding.
\<close>

section \<open>The whole system\<close>

definition given_to :: "nat \<Rightarrow> (srv_closure \<times> 'v result) list \<Rightarrow> (string \<times> 'v result) list" where
  "given_to p log = map (\<lambda>(c, r). (sc_name c, r)) (filter (\<lambda>(c, r). sc_client c = p) log)"

lemma given_to_simps [simp]:
  "given_to p [] = []"
  "given_to p (log @ [(c, r)]) = given_to p log @ (if sc_client c = p then [(sc_name c, r)] else [])"
  by (simp_all add: given_to_def)

definition connection_ok :: "('k, 'l, 'i, 'ty, 'v, 'a) net \<Rightarrow> ('k, 'l, 'ty, 'v, 'a) net_state \<Rightarrow> nat \<Rightarrow>
    client_state \<Rightarrow> bool" where
  "connection_ok N y p cs \<longleftrightarrow>
     ns_read_up y p \<le> length (nt_out N (mySocket (myTransport (ns_clients y p)))) \<and>
     ns_read_down y p \<le> length (nt_sout N (mySocket (svTransports (ns_service y) p))) \<and>
     session N (ns_clients y p) (cs_messenger cs) (asked_up y p) (cs_archives cs)
       (\<lambda>fn. (fn, p) \<in> set (myPendingCalls (ns_service y))) (going_up N y p) (going_down N y p)
       (ns_issued y p) (given_to p (snd (svUser (ns_service y))))"

definition kept_ok :: "('l, 'a, 'v kept) service \<Rightarrow> bool" where
  "kept_ok S \<longleftrightarrow> map (\<lambda>c. (sc_name c, sc_client c)) (fst (svUser S)) = myPendingCalls S \<and>
     (\<forall>c \<in> set (fst (svUser S)). \<exists>cs. map_of (myClients S) (sc_client c) = Some cs \<and> sc_archive c = cs_archives cs)"

definition net_inv :: "('k, 'l, 'i, 'ty, 'v, 'a) net \<Rightarrow> ('k, 'l, 'ty, 'v, 'a) net_state \<Rightarrow> bool" where
  "net_inv N y \<longleftrightarrow> service_inv (ns_service y) \<and> kept_ok (ns_service y) \<and>
     (\<forall>p cs. map_of (myClients (ns_service y)) p = Some cs \<longrightarrow> connection_ok N y p cs)"

lemma net_invD:
  assumes "net_inv N y"
  shows "service_inv (ns_service y)" and "kept_ok (ns_service y)"
    and "map_of (myClients (ns_service y)) p = Some cs \<Longrightarrow> connection_ok N y p cs"
  using assms by (simp_all add: net_inv_def)

text \<open>A connection does not notice what happens on the others.\<close>

lemma connection_ok_cong:
  assumes "ns_clients y' q = ns_clients y q"
    and "svTransports (ns_service y') q = svTransports (ns_service y) q"
    and "\<And>fn. (fn, q) \<in> set (myPendingCalls (ns_service y')) \<longleftrightarrow> (fn, q) \<in> set (myPendingCalls (ns_service y))"
    and "given_to q (snd (svUser (ns_service y'))) = given_to q (snd (svUser (ns_service y)))"
    and "ns_read_up y' q = ns_read_up y q" and "ns_read_down y' q = ns_read_down y q"
    and "ns_issued y' q = ns_issued y q"
  shows "connection_ok N y' q cs = connection_ok N y q cs"
  using assms by (simp add: connection_ok_def going_up_def going_down_def asked_up_def)

lemma net_inv_at:
  assumes "net_inv N y" and "service_inv (ns_service y')" and "kept_ok (ns_service y')"
    and "map_of (myClients (ns_service y')) p = Some cs" and "connection_ok N y' p cs"
    and "\<And>q. q \<noteq> p \<Longrightarrow> map_of (myClients (ns_service y')) q = map_of (myClients (ns_service y)) q"
    and "\<And>q cs. q \<noteq> p \<Longrightarrow> connection_ok N y' q cs = connection_ok N y q cs"
  shows "net_inv N y'"
proof -
  have "connection_ok N y' q cs'" if "map_of (myClients (ns_service y')) q = Some cs'" for q cs'
    using that assms(4-7) net_invD(3) [OF assms(1), of q cs'] by (cases "q = p") simp_all
  with assms(2,3) show ?thesis
    by (simp add: net_inv_def)
qed

lemma net_start_inv:
  assumes "net_start N y"
  shows "net_inv N y"
proof -
  have "connection_ok N y p cs" if "map_of (myClients (ns_service y)) p = Some cs" for p cs
  proof -
    let ?s = "ns_clients y p"
    have s: "client_ready ?s" "can_receive ?s" "at_header ?s" "myArchives ?s = cs_archives cs" "myClosures ?s = []"
        "myCallQueue ?s = empty_queue" "callbacks ?s = []" "service_at_header p (ns_service y)" "ns_issued y p = []"
        "ns_read_up y p = length (nt_out N (mySocket (myTransport ?s)))"
        "ns_read_down y p = length (nt_sout N (mySocket (svTransports (ns_service y) p)))"
        "myPendingCalls (ns_service y) = []" "svUser (ns_service y) = ([], [])"
      using assms map_of_SomeD [OF that] by (auto simp: net_start_def)
    have out: "outstanding fn ?s = []" "waiting (myCallQueue ?s) fn = []" for fn
      using s by (simp_all add: outstanding_def empty_queue_def)
    have "link N ?s (cs_messenger cs) (asked_up y p) (cs_archives cs) (\<lambda>fn. False) [] [] [] []"
      using s out that
      by (simp add: link_def client_fits_def client_inv_def queue_ok_def fifo_ok_def incoming_def at_header_def
          service_at_header_def asked_up_def)
    then have "session N ?s (cs_messenger cs) (asked_up y p) (cs_archives cs) (\<lambda>fn. False) [] [] [] []"
      using s out unfolding session_def by (intro exI [of _ "[]"]) (simp add: history_def)
    then show ?thesis
      using s by (simp add: connection_ok_def going_up_def going_down_def)
  qed
  then show ?thesis
    using assms by (auto simp: net_inv_def net_start_def kept_ok_def)
qed

subsection \<open>Calls\<close>

lemma net_call:
  assumes "net_ok N" and "net_inv N y" and "net_enabled N (Call p f c vs) y"
  shows "\<exists>y'. net_step N (Call p f c vs) y = Ret () y' \<and> net_inv N y'"
proof -
  let ?fn = "full_name (nt_cfg N) f"
  obtain cs where cs: "map_of (myClients (ns_service y)) p = Some cs"
    using assms(3) by (auto simp: in_keys_map_of Let_def)
  obtain n where n: "clo_fun c = Some n" "nt_function N n = ?fn"
    using assms(3) by (auto simp: Let_def)
  have con: "connection_ok N y p cs"
    by (rule net_invD(3) [OF assms(2) cs])
  then obtain s' sent where s': "send_call passive_user (nt_cfg N) f c vs (ns_clients y p) = Ret () s'"
      "nt_out N (mySocket (myTransport s')) = nt_out N (mySocket (myTransport (ns_clients y p))) @ sent"
      "session N s' (cs_messenger cs) (asked_up y p) (cs_archives cs)
         (\<lambda>fn. (fn, p) \<in> set (myPendingCalls (ns_service y))) (going_up N y p @ sent) (going_down N y p)
         (ns_issued y p @ [n]) (given_to p (snd (svUser (ns_service y))))"
    using session_call [OF assms(1) _ refl _ n, of "ns_clients y p"] assms(3)
    by (fastforce simp: connection_ok_def Let_def)
  let ?y = "y\<lparr>ns_clients := (ns_clients y)(p := s'), ns_issued := (ns_issued y)(p := ns_issued y p @ [n])\<rparr>"
  have step: "net_step N (Call p f c vs) y = Ret () ?y"
    using s'(1) n by (simp add: at_client_def)
  have "connection_ok N ?y p cs"
    using con s'(2,3) by (simp add: connection_ok_def going_up_def going_down_def asked_up_def)
  then have "net_inv N ?y"
    using net_invD(1,2) [OF assms(2)] cs by (intro net_inv_at [OF assms(2)] connection_ok_cong) simp_all
  with step show ?thesis
    by blast
qed

subsection \<open>Bytes that reach a client\<close>

lemma session_down:
  assumes "session N s m bl ar pend up dn issued given" and "n = length (myBuffer (myTransport s))"
    and "0 < n" and "n \<le> length dn" and "net_ok N"
  shows "\<exists>s' sent. client_receive passive_user (nt_cfg N) (take n dn) s = Ret () s' \<and>
    nt_out N (mySocket (myTransport s')) = nt_out N (mySocket (myTransport s)) @ sent \<and>
    (sent = [] \<and> length (answers (callbacks s')) = length (answers (callbacks s)) \<or>
     length (answers (callbacks s')) = Suc (length (answers (callbacks s)))) \<and>
    session N s' m bl ar pend (up @ sent) (drop n dn) issued given"
proof (cases "myReceiveState (myMessenger s)")
  case HEADER
  then obtain s' where "client_receive passive_user (nt_cfg N) (take n dn) s = Ret () s'"
      "nt_out N (mySocket (myTransport s')) = nt_out N (mySocket (myTransport s))" "callbacks s' = callbacks s"
      "session N s' m bl ar pend up (drop n dn) issued given"
    using session_down_header [OF assms(1-4) _ assms(5)] by blast
  then show ?thesis
    by (intro exI [of _ s'] exI [of _ "[]"]) simp
next
  case MESSAGE
  then show ?thesis
    using session_down_body [OF assms(1-4) _ assms(5)] by blast
qed

lemma net_to_client:
  assumes "net_ok N" and "net_inv N y" and "net_enabled N (ToClient p) y"
  shows "\<exists>s' y'. net_step N (ToClient p) y = Ret () y' \<and> net_inv N y' \<and>
    y' = y\<lparr>ns_clients := (ns_clients y)(p := s'),
           ns_read_down := (ns_read_down y)(p := ns_read_down y p + asked_down y p)\<rparr> \<and>
    (going_up N y' p = going_up N y p \<and>
       length (answers (callbacks s')) = length (answers (callbacks (ns_clients y p))) \<or>
     length (answers (callbacks s')) = Suc (length (answers (callbacks (ns_clients y p)))))"
proof -
  let ?n = "asked_down y p" and ?s = "ns_clients y p"
  obtain cs where cs: "map_of (myClients (ns_service y)) p = Some cs"
    using assms(3) by (auto simp: in_keys_map_of)
  have con: "connection_ok N y p cs"
    by (rule net_invD(3) [OF assms(2) cs])
  then obtain s' sent where s': "client_receive passive_user (nt_cfg N) (take ?n (going_down N y p)) ?s = Ret () s'"
      "nt_out N (mySocket (myTransport s')) = nt_out N (mySocket (myTransport ?s)) @ sent"
      "sent = [] \<and> length (answers (callbacks s')) = length (answers (callbacks ?s)) \<or>
       length (answers (callbacks s')) = Suc (length (answers (callbacks ?s)))"
      "session N s' (cs_messenger cs) (asked_up y p) (cs_archives cs)
         (\<lambda>fn. (fn, p) \<in> set (myPendingCalls (ns_service y))) (going_up N y p @ sent) (drop ?n (going_down N y p))
         (ns_issued y p) (given_to p (snd (svUser (ns_service y))))"
    using session_down [of N ?s "cs_messenger cs" _ _ _ _ "going_down N y p", OF _ _ _ _ assms(1)] assms(3)
    by (fastforce simp: connection_ok_def asked_down_def)
  let ?y = "y\<lparr>ns_clients := (ns_clients y)(p := s'),
      ns_read_down := (ns_read_down y)(p := ns_read_down y p + ?n)\<rparr>"
  have step: "net_step N (ToClient p) y = Ret () ?y"
    using s'(1) by (simp add: at_client_def)
  have up: "going_up N ?y p = going_up N y p @ sent"
    using con s'(2) by (simp add: going_up_def connection_ok_def)
  have "drop ?n (going_down N y p) = going_down N ?y p"
    by (simp add: going_down_def add.commute)
  moreover have "ns_read_down y p + ?n \<le> length (nt_sout N (mySocket (svTransports (ns_service y) p)))"
    using con assms(3) by (auto simp: connection_ok_def going_down_def)
  ultimately have "connection_ok N ?y p cs"
    using con s'(2,4) up by (simp add: connection_ok_def asked_up_def)
  then have "net_inv N ?y"
    using net_invD(1,2) [OF assms(2)] cs by (intro net_inv_at [OF assms(2)] connection_ok_cong) auto
  with step s'(3) up show ?thesis
    by (intro exI [of _ s'] exI [of _ ?y]) auto
qed

subsection \<open>Answers\<close>

lemma service_message_written:
  assumes "net_ok N" and "service_inv S" and "in_keys p (myClients S)"
    and "message_with_header (net_endian N) msg = Inr m"
  shows "peer_writes (nt_scfg N) p msg S"
    and "nt_sout N (mySocket (svTransports (peer_written (nt_scfg N) p msg S) p)) =
      nt_sout N (mySocket (svTransports S p)) @ m"
    and "myBuffer (svTransports (peer_written (nt_scfg N) p msg S) q) = myBuffer (svTransports S q)"
    and "service_inv (peer_written (nt_scfg N) p msg S)"
  using assms(2-4) net_okD(2,6) [OF assms(1)]
  by (auto simp: peer_writes_def peer_written_def service_inv_def client_open_at_def lossless_def)

lemma answer_given:
  assumes "net_ok N" and "service_inv S" and "map_of (myClients S) p = Some cs"
    and "sc_client c = p" and "sc_archive c = cs_archives cs" and "(sc_name c, p) \<in> set (myPendingCalls S)"
    and "result_fits N (sc_name c) r"
  shows "\<exists>S'. give_answer N c r S = Ret () S' \<and> service_inv S' \<and> myClients S' = myClients S \<and>
    myPendingCalls S' = remove1 (sc_name c, p) (myPendingCalls S) \<and>
    svUser S' = (fst (svUser S), snd (svUser S) @ [(c, r)]) \<and>
    (\<forall>q. q \<noteq> p \<longrightarrow> svTransports S' q = svTransports S q) \<and>
    myBuffer (svTransports S' p) = myBuffer (svTransports S p) \<and>
    nt_sout N (mySocket (svTransports S' p)) = nt_sout N (mySocket (svTransports S p)) @
      frame (net_endian N) (result_body (net_arch N) (cs_archives cs) (sc_name c) r)"
proof -
  let ?S = "S\<lparr>svUser := (fst (svUser S), snd (svUser S) @ [(c, r)])\<rparr>"
  let ?msg = "serialize_call_result (net_arch N) (cs_archives cs) (sc_name c) r"
  let ?frame = "frame (net_endian N) (result_body (net_arch N) (cs_archives cs) (sc_name c) r)"
  let ?S' = "(peer_written (nt_scfg N) p ?msg ?S)\<lparr>myPendingCalls := remove1 (sc_name c, p) (myPendingCalls S)\<rparr>"
  have ok: "body_ok (result_body (net_arch N) (cs_archives cs) (sc_name c) r)"
    using assms(7) by (cases "cs_archives cs") (simp_all add: result_fits_def)
  have msg: "message_with_header (net_endian N) ?msg = Inr ?frame"
    by (rule body_frames(4) [OF net_okD(4) [OF assms(1)] ok])
  have keys: "in_keys p (myClients ?S)" and inv: "service_inv ?S"
    using assms(2,3) by (simp_all add: in_keys_map_of)
  note written = service_message_written [OF assms(1) inv keys msg]
  have "give_answer N c r S = Ret () ?S'"
    using run_service_closure_sends [of ?S c "nt_scfg N" r] written(1) keys assms(2,4-6) net_okD(1) [OF assms(1)]
    by (simp add: give_answer_def service_inv_def)
  moreover have "service_inv ?S'"
    using service_inv_pending(1) [OF written(4), of "(sc_name c, p)"] by simp
  ultimately show ?thesis
    using written(2,3) by auto
qed

lemma map_remove1_inj:
  "inj_on f (set xs) \<Longrightarrow> x \<in> set xs \<Longrightarrow> map f (remove1 x xs) = remove1 (f x) (map f xs)"
  by (induction xs) (auto simp: inj_on_def)

lemma net_answer:
  assumes "net_ok N" and "net_inv N y" and "net_enabled N (Reply c r) y"
  shows "\<exists>S' y'. net_step N (Reply c r) y = Ret () y' \<and> net_inv N y' \<and> y' = y\<lparr>ns_service := S'\<rparr> \<and>
    myClients S' = myClients (ns_service y) \<and> fst (svUser S') = remove1 c (fst (svUser (ns_service y)))"
proof -
  let ?S = "ns_service y" and ?fn = "sc_name c" and ?p = "sc_client c"
  let ?kept = "fst (svUser ?S)"
  let ?taken = "?S\<lparr>svUser := (remove1 c ?kept, snd (svUser ?S))\<rparr>"
  have c: "c \<in> set ?kept" and r: "result_fits N ?fn r"
    using assms(3) by simp_all
  have inv: "service_inv ?S" and kept: "map (\<lambda>c. (sc_name c, sc_client c)) ?kept = myPendingCalls ?S"
    and held: "\<forall>c \<in> set ?kept. \<exists>cs. map_of (myClients ?S) (sc_client c) = Some cs \<and> sc_archive c = cs_archives cs"
    using net_invD(1,2) [OF assms(2)] by (simp_all add: kept_ok_def)
  obtain cs where cs: "map_of (myClients ?S) ?p = Some cs" "sc_archive c = cs_archives cs"
    using held c by blast
  have pend: "(?fn, ?p) \<in> set (myPendingCalls ?S)"
    unfolding kept [symmetric] using c by auto
  obtain S' where S': "give_answer N c r ?taken = Ret () S'" "service_inv S'" "myClients S' = myClients ?S"
      "myPendingCalls S' = remove1 (?fn, ?p) (myPendingCalls ?S)"
      "svUser S' = (remove1 c ?kept, snd (svUser ?S) @ [(c, r)])"
      "\<And>q. q \<noteq> ?p \<Longrightarrow> svTransports S' q = svTransports ?S q"
      "myBuffer (svTransports S' ?p) = myBuffer (svTransports ?S ?p)"
      "nt_sout N (mySocket (svTransports S' ?p)) = nt_sout N (mySocket (svTransports ?S ?p)) @
        frame (net_endian N) (result_body (net_arch N) (cs_archives cs) ?fn r)"
    using answer_given [OF assms(1), of ?taken ?p cs c r] inv cs pend r by auto
  let ?y = "y\<lparr>ns_service := S'\<rparr>"
  have step: "net_step N (Reply c r) y = Ret () ?y"
    using S'(1) by (simp add: at_service_def Let_def)
  have d: "distinct (myPendingCalls ?S)"
    using inv by (simp add: service_inv_def)
  have inj: "inj_on (\<lambda>c. (sc_name c, sc_client c)) (set ?kept)"
    using d unfolding kept [symmetric] by (simp add: distinct_map)
  have "map (\<lambda>c. (sc_name c, sc_client c)) (remove1 c ?kept) = remove1 (?fn, ?p) (myPendingCalls ?S)"
    unfolding kept [symmetric] by (rule map_remove1_inj [OF inj c])
  then have kept': "kept_ok S'"
    using held S'(3-5) set_remove1_subset [of c ?kept] by (auto simp: kept_ok_def)
  have con: "connection_ok N y ?p cs"
    by (rule net_invD(3) [OF assms(2) cs(1)])
  then have "session N (ns_clients y ?p) (cs_messenger cs) (asked_up y ?p) (cs_archives cs)
      ((\<lambda>fn. (fn, ?p) \<in> set (myPendingCalls ?S))(?fn := False)) (going_up N y ?p)
      (going_down N y ?p @ frame (net_endian N) (result_body (net_arch N) (cs_archives cs) ?fn r))
      (ns_issued y ?p) (given_to ?p (snd (svUser ?S)) @ [(?fn, r)])"
    using pend r by (intro session_answer) (simp_all add: connection_ok_def)
  moreover have "(\<lambda>fn. (fn, ?p) \<in> set (myPendingCalls S')) = (\<lambda>fn. (fn, ?p) \<in> set (myPendingCalls ?S))(?fn := False)"
    using d S'(4) by (auto simp: fun_eq_iff)
  moreover have "going_down N ?y ?p =
      going_down N y ?p @ frame (net_endian N) (result_body (net_arch N) (cs_archives cs) ?fn r)"
    using con S'(8) by (simp add: connection_ok_def going_down_def)
  ultimately have "connection_ok N ?y ?p cs"
    using con S'(5,7,8) by (simp add: connection_ok_def asked_up_def going_up_def)
  then have "net_inv N ?y"
    using S'(2-6) kept' cs(1) d by (intro net_inv_at [OF assms(2)] connection_ok_cong) auto
  with step S'(3,5) show ?thesis
    by auto
qed

subsection \<open>Broadcasts\<close>

lemma net_broadcast:
  assumes "net_ok N" and "net_inv N y" and "net_enabled N (Publish ev) y"
  shows "\<exists>y'. net_step N (Publish ev) y = Ret () y' \<and> net_inv N y'"
proof -
  let ?S = "ns_service y"
  let ?S' = "everybody_written (nt_scfg N) ev (myClients ?S) ?S"
  let ?body = "\<lambda>cs. event_body (net_arch N) (cs_archives cs) (myBroadcastFuncName (nt_cfg N)) ev"
  have inv: "service_inv ?S"
    by (rule net_invD(1) [OF assms(2)])
  have ok: "body_ok (?body cs)" for cs
    using assms(3) by (cases "cs_archives cs") (simp_all add: event_fits_def)
  have msg: "message_with_header (net_endian N) (event_message (nt_scfg N) cs ev) =
      Inr (frame (net_endian N) (?body cs))" for cs
    using ok [of cs] net_okD(1,3) [OF assms(1)] archive_ok_nonempty [OF net_okD(4) [OF assms(1)]]
    by (simp add: event_body_def serialize_defs message_with_header_reserved body_ok_def)
  note written = service_message_written [OF assms(1) inv _ msg]
  have "\<forall>(p, cs) \<in> set (myClients ?S). peer_writes (nt_scfg N) p (event_message (nt_scfg N) cs ev) ?S"
    by (force intro!: written(1) simp: in_keys_def)
  note sent = broadcast_writes [OF inv this]
  let ?y = "y\<lparr>ns_service := ?S'\<rparr>"
  have step: "net_step N (Publish ev) y = Ret () ?y"
    using sent(1) by (simp add: at_service_def)
  have at: "svTransports ?S' q = svTransports (peer_written (nt_scfg N) q (event_message (nt_scfg N) cs ev) ?S) q"
      if "map_of (myClients ?S) q = Some cs" for q cs
    using sent(2) [of q] that by simp
  have "connection_ok N ?y q cs" if q: "map_of (myClients ?S) q = Some cs" for q cs
  proof -
    have con: "connection_ok N y q cs" and key: "in_keys q (myClients ?S)"
      using net_invD(3) [OF assms(2) q] q by (simp_all add: in_keys_map_of)
    then have "session N (ns_clients y q) (cs_messenger cs) (asked_up y q) (cs_archives cs)
        (\<lambda>fn. (fn, q) \<in> set (myPendingCalls ?S)) (going_up N y q)
        (going_down N y q @ frame (net_endian N) (?body cs)) (ns_issued y q) (given_to q (snd (svUser ?S)))"
      using assms(3) by (intro session_event) (simp_all add: connection_ok_def)
    moreover have "going_down N ?y q = going_down N y q @ frame (net_endian N) (?body cs)"
      using con written(2) [OF key] at [OF q] by (simp add: connection_ok_def going_down_def)
    ultimately show ?thesis
      using con written(2,3) [OF key] at [OF q] by (simp add: connection_ok_def asked_up_def going_up_def)
  qed
  moreover have "service_inv ?S'"
    by (rule everybody_written_inv [OF inv])
  ultimately have "net_inv N ?y"
    using net_invD(2) [OF assms(2)] by (simp add: net_inv_def kept_ok_def)
  with step show ?thesis
    by blast
qed

subsection \<open>Bytes that reach the service\<close>

text \<open>The function of a call that has just been read answers at once or keeps the closure.\<close>

lemma function_runs:
  assumes "net_ok N" and "service_inv S" and "kept_ok S" and "map_of (myClients S) p = Some cs"
    and "nt_sig N fn \<noteq> None" and "(fn, p) \<notin> set (myPendingCalls S)"
    and "session N s m bl (cs_archives cs) ((\<lambda>g. (g, p) \<in> set (myPendingCalls S))(fn := True)) up dn issued
           (given_to p (snd (svUser S)))"
  shows "\<exists>S' sent. net_function N fn vs (Some (call_closure_of fn p cs))
      (S\<lparr>myPendingCalls := (fn, p) # myPendingCalls S\<rparr>) = Ret () S' \<and>
    service_inv S' \<and> kept_ok S' \<and> myClients S' = myClients S \<and>
    (\<forall>q. q \<noteq> p \<longrightarrow> svTransports S' q = svTransports S q \<and>
       (\<forall>g. (g, q) \<in> set (myPendingCalls S') \<longleftrightarrow> (g, q) \<in> set (myPendingCalls S)) \<and>
       given_to q (snd (svUser S')) = given_to q (snd (svUser S))) \<and>
    nt_sout N (mySocket (svTransports S' p)) = nt_sout N (mySocket (svTransports S p)) @ sent \<and>
    session N s m bl (cs_archives cs) (\<lambda>g. (g, p) \<in> set (myPendingCalls S')) up (dn @ sent) issued
      (given_to p (snd (svUser S')))"
proof -
  let ?c = "call_closure_of fn p cs"
  let ?called = "S\<lparr>myPendingCalls := (fn, p) # myPendingCalls S\<rparr>"
  have inv: "service_inv ?called"
    by (rule service_inv_pending(2) [OF assms(2,6)])
  have pend: "(\<lambda>g. (g, p) \<in> set (myPendingCalls ?called)) = (\<lambda>g. (g, p) \<in> set (myPendingCalls S))(fn := True)"
    by (auto simp: fun_eq_iff)
  show ?thesis
  proof (cases "nt_now N fn vs")
    case None
    let ?S' = "?called\<lparr>svUser := (?c # fst (svUser S), snd (svUser S))\<rparr>"
    have "kept_ok ?S'"
      using assms(3,4) by (simp add: kept_ok_def)
    then show ?thesis
      using None inv assms(7) pend
      by (intro exI [of _ ?S'] exI [of _ "[]"]) (simp add: net_function_def)
  next
    case (Some r)
    then have r: "result_fits N fn r"
      using net_okD(9) [OF assms(1)] assms(5) by blast
    obtain S' where S': "give_answer N ?c r ?called = Ret () S'" "service_inv S'" "myClients S' = myClients S"
        "myPendingCalls S' = myPendingCalls S" "svUser S' = (fst (svUser S), snd (svUser S) @ [(?c, r)])"
        "\<And>q. q \<noteq> p \<Longrightarrow> svTransports S' q = svTransports S q"
        "nt_sout N (mySocket (svTransports S' p)) = nt_sout N (mySocket (svTransports S p)) @
          frame (net_endian N) (result_body (net_arch N) (cs_archives cs) fn r)"
      using answer_given [OF assms(1) inv, of p cs ?c r] assms(4) r by auto
    have "kept_ok S'"
      using assms(3) S'(3-5) by (simp add: kept_ok_def)
    moreover have "((\<lambda>g. (g, p) \<in> set (myPendingCalls S))(fn := True))(fn := False) =
        (\<lambda>g. (g, p) \<in> set (myPendingCalls S'))"
      using assms(6) S'(4) by (auto simp: fun_eq_iff)
    then have "session N s m bl (cs_archives cs) (\<lambda>g. (g, p) \<in> set (myPendingCalls S')) up
        (dn @ frame (net_endian N) (result_body (net_arch N) (cs_archives cs) fn r)) issued
        (given_to p (snd (svUser S')))"
      using session_answer [OF assms(7) _ r] S'(5) by simp
    ultimately show ?thesis
      using Some S' by (intro exI [of _ S']) (auto simp: net_function_def)
  qed
qed

lemma kept_ok_store: "kept_ok S \<Longrightarrow> kept_ok (store_messenger p m (S\<lparr>svTransports := t\<rparr>))"
  unfolding kept_ok_def
proof (elim conjE, intro conjI ballI)
  fix c
  assume "\<forall>c \<in> set (fst (svUser S)). \<exists>cs. map_of (myClients S) (sc_client c) = Some cs \<and> sc_archive c = cs_archives cs"
    and "c \<in> set (fst (svUser (store_messenger p m (S\<lparr>svTransports := t\<rparr>))))"
  then obtain cs where "map_of (myClients S) (sc_client c) = Some cs" "sc_archive c = cs_archives cs"
    by auto
  then show "\<exists>cs. map_of (myClients (store_messenger p m (S\<lparr>svTransports := t\<rparr>))) (sc_client c) = Some cs \<and>
      sc_archive c = cs_archives cs"
    by simp
qed simp

lemma net_to_service_header:
  assumes "net_ok N" and "net_inv N y" and "net_enabled N (ToService p) y"
    and cs: "map_of (myClients (ns_service y)) p = Some cs" and "myReceiveState (cs_messenger cs) = HEADER"
  shows "\<exists>S' y'. net_step N (ToService p) y = Ret () y' \<and> net_inv N y' \<and>
    y' = y\<lparr>ns_service := S', ns_read_up := (ns_read_up y)(p := ns_read_up y p + asked_up y p)\<rparr> \<and>
    map fst (myClients S') = map fst (myClients (ns_service y)) \<and> svUser S' = svUser (ns_service y)"
proof -
  let ?S = "ns_service y" and ?n = "asked_up y p"
  have con: "connection_ok N y p cs" and inv: "service_inv ?S"
    using net_invD(1,3) [OF assms(2)] cs by simp_all
  obtain b where b: "body_ok b" "take ?n (going_up N y p) = store_u32 (net_endian N) (word_of_nat (length b))"
    and ses: "session N (ns_clients y p) (msg_state MESSAGE b) (length b) (cs_archives cs)
      (\<lambda>fn. (fn, p) \<in> set (myPendingCalls ?S)) (drop ?n (going_up N y p)) (going_down N y p) (ns_issued y p)
      (given_to p (snd (svUser ?S)))"
    using session_up_header [OF _ _ _ assms(5), of N "ns_clients y p" ?n] con assms(3)
    by (fastforce simp: connection_ok_def)
  let ?t = "tr_read (sc_io (nt_scfg N)) (length b) ((svTransports ?S p)
      \<lparr>myBuffer := store_u32 (net_endian N) (word_of_nat (length b))\<rparr>)"
  let ?R = "store_messenger p (msg_state MESSAGE b) (?S\<lparr>svTransports := (svTransports ?S)(p := ?t)\<rparr>)"
  let ?y = "y\<lparr>ns_service := ?R, ns_read_up := (ns_read_up y)(p := ns_read_up y p + ?n)\<rparr>"
  have step: "net_step N (ToService p) y = Ret () ?y"
    using service_receive_header [OF inv cs assms(5) b(1), of "nt_scfg N" "net_dict N"] b(2) net_okD(2) [OF assms(1)]
    by (simp add: at_service_def)
  have "service_inv ?R"
    by (intro service_inv_store service_inv_transport inv) simp_all
  moreover have "kept_ok ?R"
    by (rule kept_ok_store [OF net_invD(2) [OF assms(2)]])
  moreover have "connection_ok N ?y p (cs\<lparr>cs_messenger := msg_state MESSAGE b\<rparr>)"
  proof -
    have "drop ?n (going_up N y p) = going_up N ?y p"
      by (simp add: going_up_def add.commute)
    moreover have "ns_read_up y p + ?n \<le> length (nt_out N (mySocket (myTransport (ns_clients y p))))"
      using con assms(3) by (auto simp: connection_ok_def going_up_def)
    moreover have "nt_sout N (mySocket ?t) = nt_sout N (mySocket (svTransports ?S p))"
      using net_okD(6) [OF assms(1)] by (simp add: tr_read_def lossless_def)
    ultimately show ?thesis
      using con ses by (simp add: connection_ok_def asked_up_def going_down_def)
  qed
  ultimately have "net_inv N ?y"
    using cs by (intro net_inv_at [OF assms(2), of ?y p] connection_ok_cong) (auto simp: option.map_ident)
  with step show ?thesis
    by (intro exI [of _ ?R] exI [of _ ?y]) simp
qed

lemma net_to_service_body:
  assumes "net_ok N" and "net_inv N y" and "net_enabled N (ToService p) y"
    and cs: "map_of (myClients (ns_service y)) p = Some cs" and "myReceiveState (cs_messenger cs) = MESSAGE"
  shows "\<exists>S' y'. net_step N (ToService p) y = Ret () y' \<and> net_inv N y' \<and>
    y' = y\<lparr>ns_service := S', ns_read_up := (ns_read_up y)(p := ns_read_up y p + asked_up y p)\<rparr> \<and>
    map fst (myClients S') = map fst (myClients (ns_service y))"
proof -
  let ?S = "ns_service y" and ?n = "asked_up y p"
  have con: "connection_ok N y p cs" and inv: "service_inv ?S" and kept: "kept_ok ?S"
    using net_invD [OF assms(2)] cs by simp_all
  obtain fn vs ty b where b: "b = call_body (net_arch N) (cs_archives cs) fn vs" "body_ok b"
      "cs_messenger cs = msg_state MESSAGE b" "take ?n (going_up N y p) = b"
    and sig: "nt_sig N fn = Some (map (nt_type N) vs, ty)" and idle: "(fn, p) \<notin> set (myPendingCalls ?S)"
    and ses: "session N (ns_clients y p) (msg_state HEADER b) HEADER_SIZE (cs_archives cs)
      ((\<lambda>fn. (fn, p) \<in> set (myPendingCalls ?S))(fn := True)) (drop ?n (going_up N y p)) (going_down N y p)
      (ns_issued y p) (given_to p (snd (svUser ?S)))"
    using session_up_body [OF _ _ _ assms(5), of N "ns_clients y p" ?n] con assms(3)
    by (fastforce simp: connection_ok_def)
  let ?B = "?S\<lparr>svTransports := (svTransports ?S)(p := (svTransports ?S p)\<lparr>myBuffer := b\<rparr>)\<rparr>"
  have invB: "service_inv ?B" and keptB: "kept_ok ?B"
    using kept by (simp_all add: service_inv_transport inv kept_ok_def)
  obtain R sent where R: "net_function N fn vs (Some (call_closure_of fn p cs))
        (?B\<lparr>myPendingCalls := (fn, p) # myPendingCalls ?S\<rparr>) = Ret () R"
      "service_inv R" "kept_ok R" "myClients R = myClients ?S"
      "\<And>q. q \<noteq> p \<Longrightarrow> svTransports R q = svTransports ?S q \<and>
         (\<forall>g. (g, q) \<in> set (myPendingCalls R) \<longleftrightarrow> (g, q) \<in> set (myPendingCalls ?S)) \<and>
         given_to q (snd (svUser R)) = given_to q (snd (svUser ?S))"
      "nt_sout N (mySocket (svTransports R p)) = nt_sout N (mySocket (svTransports ?S p)) @ sent"
      "session N (ns_clients y p) (msg_state HEADER b) HEADER_SIZE (cs_archives cs)
         (\<lambda>g. (g, p) \<in> set (myPendingCalls R)) (drop ?n (going_up N y p)) (going_down N y p @ sent)
         (ns_issued y p) (given_to p (snd (svUser R)))"
    using function_runs [OF assms(1) invB keptB, of p cs fn "ns_clients y p" "msg_state HEADER b" HEADER_SIZE] cs sig idle ses
    by fastforce
  let ?t = "tr_read (sc_io (nt_scfg N)) HEADER_SIZE (svTransports R p)"
  let ?R = "store_messenger p (msg_state HEADER b) (R\<lparr>svTransports := (svTransports R)(p := ?t)\<rparr>)"
  let ?y = "y\<lparr>ns_service := ?R, ns_read_up := (ns_read_up y)(p := ns_read_up y p + ?n)\<rparr>"
  have "service_message_handler (nt_scfg N) (net_dict N) p b ?B = Ret () R"
    using service_handler_calls [of "nt_scfg N" "nt_type N" ?B p cs "net_dict N" fn
        "\<lparr>de_func = net_function N fn, de_args = map (nt_type N) vs, de_result = ty, de_one_way = False\<rparr>" vs] net_okD(1,4) [OF assms(1)]
      cs sig idle b(1) R(1) by (simp add: net_dict_def call_body_def)
  moreover have size: "unat (myIncomingMsgSize (cs_messenger cs)) = length b"
    using b(2,3) by (simp add: msg_state_def body_ok_def HEADER_SIZE_def unat_of_nat)
  moreover have "in_keys p (myClients R)"
    using cs R(4) by (simp add: in_keys_map_of)
  ultimately have "service_receive (nt_scfg N) (net_dict N) p b ?S = Ret () ?R"
    using service_receive_message [OF inv cs assms(5), of b "nt_scfg N" "net_dict N"] b(3)
    by (simp add: Let_def msg_state_def)
  then have step: "net_step N (ToService p) y = Ret () ?y"
    using b(4) by (simp add: at_service_def)
  have "service_inv ?R"
    by (intro service_inv_store service_inv_transport R(2)) simp_all
  moreover have "kept_ok ?R"
    by (rule kept_ok_store [OF R(3)])
  moreover have "connection_ok N ?y p (cs\<lparr>cs_messenger := msg_state HEADER b\<rparr>)"
  proof -
    have "drop ?n (going_up N y p) = going_up N ?y p"
      by (simp add: going_up_def add.commute)
    moreover have "ns_read_up y p + ?n \<le> length (nt_out N (mySocket (myTransport (ns_clients y p))))"
      using con assms(3) by (auto simp: connection_ok_def going_up_def)
    moreover have "nt_sout N (mySocket ?t) = nt_sout N (mySocket (svTransports ?S p)) @ sent"
      using net_okD(6) [OF assms(1)] R(6) by (simp add: tr_read_def lossless_def)
    ultimately show ?thesis
      using con R(7) by (simp add: connection_ok_def asked_up_def going_down_def)
  qed
  ultimately have "net_inv N ?y"
    using cs R(4,5) by (intro net_inv_at [OF assms(2), of ?y p] connection_ok_cong) (auto simp: option.map_ident)
  with step R(4) show ?thesis
    by (intro exI [of _ ?R] exI [of _ ?y]) simp
qed

section \<open>Every reachable state\<close>

lemma net_step_ok:
  assumes "net_ok N" and "net_inv N y" and "net_enabled N op y"
  shows "\<exists>y'. net_step N op y = Ret () y' \<and> net_inv N y'"
proof (cases op)
  case (Call p f c vs)
  show ?thesis
    unfolding Call by (rule net_call [OF assms(1,2) assms(3) [unfolded Call]])
next
  case (ToService p)
  then obtain cs where cs: "map_of (myClients (ns_service y)) p = Some cs"
    using assms(3) by (auto simp: in_keys_map_of)
  then show ?thesis
    using net_to_service_header [OF assms(1,2)] net_to_service_body [OF assms(1,2)] assms(3) ToService
    by (cases "myReceiveState (cs_messenger cs)") blast+
next
  case (ToClient p)
  then show ?thesis using net_to_client [OF assms(1,2)] assms(3) by blast
next
  case (Reply c r)
  then show ?thesis using net_answer [OF assms(1,2)] assms(3) by blast
next
  case (Publish ev)
  show ?thesis
    unfolding Publish by (rule net_broadcast [OF assms(1,2) assms(3) [unfolded Publish]])
qed

lemma net_reach_inv:
  assumes "net_ok N"
  shows "net_reach N y \<Longrightarrow> net_inv N y"
proof (induction rule: net_reach.induct)
  case (net_reach_start y)
  then show ?case by (rule net_start_inv)
next
  case (net_reach_step y op y1)
  then show ?case using net_step_ok [OF assms, of y op] by auto
qed

lemma net_reach_session:
  assumes "net_ok N" and "net_reach N y" and "in_keys p (myClients (ns_service y))"
  obtains cs :: client_state and ups downs where "link N (ns_clients y p) (cs_messenger cs) (asked_up y p) (cs_archives cs)
      (\<lambda>fn. (fn, p) \<in> set (myPendingCalls (ns_service y))) (going_up N y p) (going_down N y p) ups downs"
    and "history N (ns_clients y p) (ns_issued y p) (given_to p (snd (svUser (ns_service y)))) downs"
proof -
  obtain cs where cs: "map_of (myClients (ns_service y)) p = Some cs"
    using assms(3) by (auto simp: in_keys_map_of)
  then have "connection_ok N y p cs"
    by (rule net_invD(3) [OF net_reach_inv [OF assms(1,2)]])
  then obtain ups downs where "link N (ns_clients y p) (cs_messenger cs) (asked_up y p) (cs_archives cs)
      (\<lambda>fn. (fn, p) \<in> set (myPendingCalls (ns_service y))) (going_up N y p) (going_down N y p) ups downs"
      "history N (ns_clients y p) (ns_issued y p) (given_to p (snd (svUser (ns_service y)))) downs"
    unfolding connection_ok_def session_def by blast
  then show thesis
    by (rule that)
qed

section \<open>Coming to rest\<close>

text \<open>The operations that only go on with what has been begun.\<close>

fun internal :: "('ty, 'v) net_op \<Rightarrow> bool" where
  "internal (Call p f c vs) = False"
| "internal (Publish ev) = False"
| "internal op = True"

definition net_goes_on :: "('k, 'l, 'i, 'ty, 'v, 'a) net \<Rightarrow> ('k, 'l, 'ty, 'v, 'a) net_state \<Rightarrow>
    ('k, 'l, 'ty, 'v, 'a) net_state \<Rightarrow> bool" where
  "net_goes_on N y y' \<longleftrightarrow> (\<exists>op. internal op \<and> net_enabled N op y \<and> net_step N op y = Ret () y')"

definition unanswered :: "('k, 'l, 'ty, 'v, 'a) net_state \<Rightarrow> nat \<Rightarrow> nat" where
  "unanswered y p = length (ns_issued y p) - length (answers (callbacks (ns_clients y p)))"

definition over_clients :: "(('k, 'l, 'ty, 'v, 'a) net_state \<Rightarrow> nat \<Rightarrow> nat) \<Rightarrow>
    ('k, 'l, 'ty, 'v, 'a) net_state \<Rightarrow> nat" where
  "over_clients f y = sum_list (map (f y) (get_clients (ns_service y)))"

definition net_rank :: "('k, 'l, 'i, 'ty, 'v, 'a) net \<Rightarrow> ('k, 'l, 'ty, 'v, 'a) net_state \<Rightarrow> nat \<times> nat \<times> nat \<times> nat" where
  "net_rank N y =
     (over_clients unanswered y, over_clients (\<lambda>y p. length (going_up N y p)) y,
      length (fst (svUser (ns_service y))), over_clients (\<lambda>y p. length (going_down N y p)) y)"

abbreviation rank_order :: "((nat \<times> nat \<times> nat \<times> nat) \<times> (nat \<times> nat \<times> nat \<times> nat)) set" where
  "rank_order \<equiv> less_than <*lex*> less_than <*lex*> less_than <*lex*> less_than"

lemma over_clients_same:
  assumes "get_clients (ns_service y') = get_clients (ns_service y)" and "\<And>p. f y' p = f y p"
  shows "over_clients f y' = over_clients f y"
proof -
  have "f y' = f y"
    using assms(2) by (simp add: fun_eq_iff)
  with assms(1) show ?thesis
    by (simp add: over_clients_def)
qed

lemma over_clients_less:
  assumes "get_clients (ns_service y') = get_clients (ns_service y)" and "in_keys p (myClients (ns_service y))"
    and "\<And>q. q \<noteq> p \<Longrightarrow> f y' q = f y q" and "f y' p < f y p"
  shows "over_clients f y' < over_clients f y"
proof -
  have "sum_list (map (f y') ps) < sum_list (map (f y) ps)" if "p \<in> set ps" for ps
    using that
  proof (induction ps)
    case (Cons q ps)
    have "f y' r \<le> f y r" for r
      using assms(3) [of r] assms(4) by (cases "r = p") auto
    then have "sum_list (map (f y') ps) \<le> sum_list (map (f y) ps)"
      by (intro sum_list_mono)
    with Cons assms(3,4) show ?case
      by (cases "q = p") auto
  qed simp
  moreover have "p \<in> set (get_clients (ns_service y))"
    using assms(2) by (simp add: get_clients_def in_keys_def)
  ultimately show ?thesis
    unfolding over_clients_def assms(1) .
qed

lemma history_answers:
  assumes "history N s issued given downs"
  shows "length (answers (callbacks s)) \<le> length issued"
proof -
  let ?ids = "map fst (answers (callbacks s))"
  have "count (mset ?ids) n \<le> count (mset issued) n" for n
  proof -
    let ?sel = "filter (\<lambda>m. nt_function N m = nt_function N n)"
    have "count (mset (?sel ?ids)) n \<le> count (mset (?sel issued)) n"
      using assms by (simp add: history_def del: mset_filter)
    then show ?thesis
      by simp
  qed
  then have "mset ?ids \<subseteq># mset issued"
    by (simp add: subseteq_mset_def)
  then show ?thesis
    using size_mset_mono by fastforce
qed

lemma net_goes_on_rank:
  assumes "net_ok N" and "net_inv N y" and "net_goes_on N y y'"
  shows "(net_rank N y', net_rank N y) \<in> rank_order"
proof -
  obtain op where "internal op" and en: "net_enabled N op y" and step: "net_step N op y = Ret () y'"
    using assms(3) by (auto simp: net_goes_on_def)
  then consider (service) p where "op = ToService p" | (client) p where "op = ToClient p"
    | (answer) c r where "op = Reply c r"
    by (cases op) auto
  then show ?thesis
  proof cases
    case service
    then obtain cs where cs: "map_of (myClients (ns_service y)) p = Some cs"
      using en by (auto simp: in_keys_map_of)
    obtain S' where y': "y' = y\<lparr>ns_service := S', ns_read_up := (ns_read_up y)(p := ns_read_up y p + asked_up y p)\<rparr>"
      and keys: "map fst (myClients S') = map fst (myClients (ns_service y))"
      using net_to_service_header [OF assms(1,2) _ cs] net_to_service_body [OF assms(1,2) _ cs] en step service
      by (cases "myReceiveState (cs_messenger cs)") fastforce+
    have same: "over_clients unanswered y' = over_clients unanswered y"
      by (rule over_clients_same) (simp_all add: y' keys get_clients_def unanswered_def)
    have "over_clients (\<lambda>y p. length (going_up N y p)) y' < over_clients (\<lambda>y p. length (going_up N y p)) y"
    proof (rule over_clients_less)
      show "in_keys p (myClients (ns_service y))"
        using cs by (simp add: in_keys_map_of)
    qed (use en service in \<open>auto simp: y' keys get_clients_def going_up_def\<close>)
    with same show ?thesis
      by (simp add: net_rank_def)
  next
    case client
    have key: "in_keys p (myClients (ns_service y))"
      using en client by simp
    obtain s' where inv: "net_inv N y'" and y': "y' = y\<lparr>ns_clients := (ns_clients y)(p := s'),
           ns_read_down := (ns_read_down y)(p := ns_read_down y p + asked_down y p)\<rparr>"
      and outcome: "going_up N y' p = going_up N y p \<and>
        length (answers (callbacks s')) = length (answers (callbacks (ns_clients y p))) \<or>
        length (answers (callbacks s')) = Suc (length (answers (callbacks (ns_clients y p))))"
      using net_to_client [OF assms(1,2)] en step client by fastforce
    have keys: "get_clients (ns_service y') = get_clients (ns_service y)"
      by (simp add: y')
    show ?thesis
    proof (cases "length (answers (callbacks s')) = Suc (length (answers (callbacks (ns_clients y p))))")
      case True
      obtain cs where "connection_ok N y' p cs"
        using net_invD(3) [OF inv] key by (auto simp: y' in_keys_map_of)
      then have "length (answers (callbacks s')) \<le> length (ns_issued y p)"
        using history_answers by (fastforce simp: connection_ok_def session_def y')
      then have "over_clients unanswered y' < over_clients unanswered y"
        using True by (intro over_clients_less [OF keys key]) (simp_all add: y' unanswered_def)
      then show ?thesis
        by (simp add: net_rank_def)
    next
      case False
      with outcome have up: "going_up N y' p = going_up N y p"
        and same: "length (answers (callbacks s')) = length (answers (callbacks (ns_clients y p)))"
        by auto
      have "over_clients unanswered y' = over_clients unanswered y"
        using same by (intro over_clients_same [OF keys]) (simp add: y' unanswered_def)
      moreover have "going_up N y' q = going_up N y q" for q
        using up by (cases "q = p") (simp_all add: y' going_up_def)
      then have "over_clients (\<lambda>y p. length (going_up N y p)) y' = over_clients (\<lambda>y p. length (going_up N y p)) y"
        by (intro over_clients_same [OF keys]) simp
      moreover have "over_clients (\<lambda>y p. length (going_down N y p)) y' < over_clients (\<lambda>y p. length (going_down N y p)) y"
        using en client by (intro over_clients_less [OF keys key]) (auto simp: y' going_down_def)
      ultimately show ?thesis
        by (simp add: net_rank_def y')
    qed
  next
    case answer
    obtain S' where y': "y' = y\<lparr>ns_service := S'\<rparr>" and keys: "myClients S' = myClients (ns_service y)"
      and held: "fst (svUser S') = remove1 c (fst (svUser (ns_service y)))"
      using net_answer [OF assms(1,2)] en step answer by fastforce
    have keys': "get_clients (ns_service y') = get_clients (ns_service y)"
      by (simp add: y' keys get_clients_def)
    have "over_clients unanswered y' = over_clients unanswered y"
        "over_clients (\<lambda>y p. length (going_up N y p)) y' = over_clients (\<lambda>y p. length (going_up N y p)) y"
      by (intro over_clients_same [OF keys']; simp add: y' unanswered_def going_up_def)+
    moreover have "length (fst (svUser S')) < length (fst (svUser (ns_service y)))"
      using en answer length_pos_if_in_set by (fastforce simp: held length_remove1)
    ultimately show ?thesis
      by (simp add: net_rank_def y')
  qed
qed

text \<open>A system at rest: nothing is on its way and every call has been answered.\<close>

definition at_rest :: "('k, 'l, 'i, 'ty, 'v, 'a) net \<Rightarrow> ('k, 'l, 'ty, 'v, 'a) net_state \<Rightarrow> bool" where
  "at_rest N y \<longleftrightarrow>
     (\<forall>p \<in> set (get_clients (ns_service y)). going_up N y p = [] \<and> going_down N y p = [] \<and>
        (\<forall>fn. outstanding fn (ns_clients y p) = [] \<and>
           closure_ids N fn (map fst (answers (callbacks (ns_clients y p)))) = closure_ids N fn (ns_issued y p)))"

lemma incoming_nothing: "incoming en m bl bytes [] \<Longrightarrow> bytes = []"
  by (simp add: incoming_def split: recv_state.splits)

lemma pending_is_kept:
  assumes "net_inv N y" and "(fn, p) \<in> set (myPendingCalls (ns_service y))"
  shows "\<exists>c \<in> set (fst (svUser (ns_service y))). sc_name c = fn \<and> sc_client c = p"
proof -
  have "map (\<lambda>c. (sc_name c, sc_client c)) (fst (svUser (ns_service y))) = myPendingCalls (ns_service y)"
    using net_invD(2) [OF assms(1)] by (simp add: kept_ok_def)
  then show ?thesis
    using assms(2) by (auto simp flip: \<open>_ = myPendingCalls _\<close>)
qed

lemma stuck_at_rest:
  assumes "net_ok N" and "net_reach N y" and "\<And>fn. nt_sig N fn \<noteq> None \<Longrightarrow> \<exists>r. result_fits N fn r"
    and stuck: "\<And>y'. \<not> net_goes_on N y y'"
  shows "at_rest N y"
proof -
  have inv: "net_inv N y"
    by (rule net_reach_inv [OF assms(1,2)])
  have disabled: "\<not> net_enabled N op y" if "internal op" for op
    using stuck net_step_ok [OF assms(1) inv, of op] that by (auto simp: net_goes_on_def)
  have "going_up N y p = [] \<and> going_down N y p = [] \<and> outstanding fn (ns_clients y p) = [] \<and>
      closure_ids N fn (map fst (answers (callbacks (ns_clients y p)))) = closure_ids N fn (ns_issued y p)"
    if key: "in_keys p (myClients (ns_service y))" for p fn
  proof -
    obtain cs :: client_state and ups downs where
        link: "link N (ns_clients y p) (cs_messenger cs) (asked_up y p) (cs_archives cs)
          (\<lambda>fn. (fn, p) \<in> set (myPendingCalls (ns_service y))) (going_up N y p) (going_down N y p) ups downs"
      and hist: "history N (ns_clients y p) (ns_issued y p) (given_to p (snd (svUser (ns_service y)))) downs"
      by (rule net_reach_session [OF assms(1,2) key])
    have up: "incoming (net_endian N) (cs_messenger cs) (asked_up y p) (going_up N y p)
          (map (\<lambda>(fn, vs). call_body (net_arch N) (cs_archives cs) fn vs) ups)"
      and down: "incoming (net_endian N) (myMessenger (ns_clients y p)) (asked_down y p) (going_down N y p)
          (map (down_body (net_arch N) (cs_archives cs) (myBroadcastFuncName (nt_cfg N))) downs)"
      and fits: "client_fits N (cs_archives cs) (ns_clients y p)"
      using link by (simp_all add: link_def asked_down_def)
    have empty: "ups = []" "downs = []"
      using incoming_ready [OF up] incoming_ready [OF down] disabled [of "ToService p"] disabled [of "ToClient p"] key
      by auto
    have fifo: "fifo_ok (ns_clients y p)"
      using fits by (simp add: client_fits_def)
    have idle: "\<not> in_keys fn (myClosures (ns_clients y p))"
    proof
      assume "in_keys fn (myClosures (ns_clients y p))"
      then obtain c where "c \<in> set (outstanding fn (ns_clients y p))"
        using outstanding_Nil_iff [OF fifo, of fn] by (cases "outstanding fn (ns_clients y p)") auto
      then have "closure_fits N fn c"
        by (rule client_fits_closure [OF fits])
      then have "nt_sig N fn \<noteq> None"
        by (auto simp: closure_fits_def)
      then obtain r where r: "result_fits N fn r"
        using assms(3) by blast
      have "(fn, p) \<in> set (myPendingCalls (ns_service y))"
        using link_placed [OF link, of fn] empty \<open>in_keys fn _\<close> by (auto split: if_splits)
      then obtain c where "c \<in> set (fst (svUser (ns_service y)))" "sc_name c = fn"
        using pending_is_kept [OF inv] by blast
      then show False
        using disabled [of "Reply c r"] r by simp
    qed
    then have "outstanding fn (ns_clients y p) = []"
      by (simp add: outstanding_Nil_iff [OF fifo])
    then show ?thesis
      using hist up down empty incoming_nothing by (auto simp: history_def)
  qed
  then show ?thesis
    by (auto simp: at_rest_def get_clients_def in_keys_def)
qed

lemma net_goes_on_ends:
  assumes "net_ok N"
  shows "wfp (\<lambda>y' y. net_reach N y \<and> net_goes_on N y y')"
proof -
  have "wf (inv_image rank_order (net_rank N))"
    by (intro wf_inv_image wf_lex_prod wf_less_than)
  moreover have "{(y', y). net_reach N y \<and> net_goes_on N y y'} \<subseteq> inv_image rank_order (net_rank N)"
    using net_goes_on_rank [OF assms net_reach_inv [OF assms]] by auto
  ultimately show ?thesis
    unfolding wfp_def by (rule wf_subset)
qed

lemma net_goes_on_reach: "net_reach N y \<Longrightarrow> net_goes_on N y y' \<Longrightarrow> net_reach N y'"
  by (auto simp: net_goes_on_def intro: net_reach_step)

lemma net_runs_to_rest:
  assumes "net_ok N" and "\<And>fn. nt_sig N fn \<noteq> None \<Longrightarrow> \<exists>r. result_fits N fn r"
  shows "net_reach N y \<Longrightarrow> \<exists>y'. (net_goes_on N)\<^sup>*\<^sup>* y y' \<and> at_rest N y'"
proof (induction y rule: wfp_induct_rule [OF net_goes_on_ends [OF assms(1)]])
  case (1 y)
  show ?case
  proof (cases "\<exists>y'. net_goes_on N y y'")
    case True
    then obtain y' where "net_goes_on N y y'" by blast
    then show ?thesis
      using 1 net_goes_on_reach by (meson converse_rtranclp_into_rtranclp)
  next
    case False
    then show ?thesis
      using stuck_at_rest [OF assms(1) "1.prems" assms(2)] by blast
  qed
qed

section \<open>What holds of every system\<close>

text \<open>
  C2: Nothing fails. A service and any number of clients on sockets that lose nothing, whose
  programs keep to the declared types and the limit of outstanding calls: in every state they
  can reach, by calls, answers given at once or later, broadcasts and deliveries of bytes in any
  order and in any pieces, every operation that is possible returns - no exception, no failed
  assertion, no undefined behaviour.
\<close>

theorem no_operation_fails:
  assumes "net_ok N" and "net_reach N y" and "net_enabled N op y"
  shows "\<exists>y'. net_step N op y = Ret () y'"
  using net_step_ok [OF assms(1) net_reach_inv [OF assms(1,2)] assms(3)] by blast

theorem no_operation_fails_witness:
  "\<exists>y'. net_step sample_net sample_add sample_start = Ret () y'"
  using no_operation_fails [OF sample_net_ok net_reach_start [OF sample_net_start] sample_add_enabled] .

text \<open>The sample system after one call.\<close>

lemma sample_called:
  obtains y where "net_reach sample_net y" and "ns_issued y 1 = [7]"
    and "get_clients (ns_service y) = [1, 2]"
proof -
  obtain y where y: "net_step sample_net sample_add sample_start = Ret () y"
    using net_step_ok [OF sample_net_ok net_start_inv [OF sample_net_start] sample_add_enabled] by blast
  have "net_reach sample_net y"
    by (rule net_reach_step [OF net_reach_start [OF sample_net_start] sample_add_enabled y])
  moreover have "ns_issued y 1 = [7]" "get_clients (ns_service y) = [1, 2]"
    using call_issued [OF y] by (simp_all add: sample_start_def sample_closure_def get_clients_def)
  ultimately show thesis
    by (rule that)
qed

text \<open>
  C3: Calls are answered in order. In every reachable state of such a system, for each client
  and function, the calls made so far are those whose closures have been called, in this order
  and each once, followed by the outstanding ones; and the results these closures got are the
  results the service gave for the calls of this client, in this order, of which at most one is
  still on its way.
\<close>

theorem calls_answered_in_order:
  assumes "net_ok N" and "net_reach N y" and "p \<in> set (get_clients (ns_service y))"
  shows "closure_ids N fn (ns_issued y p) =
      closure_ids N fn (map fst (answers (callbacks (ns_clients y p)))) @
      map (the \<circ> clo_fun) (outstanding fn (ns_clients y p)) \<and>
    (\<exists>rest. map (received N fn) (of_function fn (given_to p (snd (svUser (ns_service y))))) =
      results_for_function N fn (answers (callbacks (ns_clients y p))) @ rest \<and> length rest \<le> 1)"
proof -
  have "in_keys p (myClients (ns_service y))"
    using assms(3) by (simp add: get_clients_def in_keys_def)
  then obtain cs :: client_state and ups downs where
      link: "link N (ns_clients y p) (cs_messenger cs) (asked_up y p) (cs_archives cs)
        (\<lambda>fn. (fn, p) \<in> set (myPendingCalls (ns_service y))) (going_up N y p) (going_down N y p) ups downs"
    and hist: "history N (ns_clients y p) (ns_issued y p) (given_to p (snd (svUser (ns_service y)))) downs"
    by (rule net_reach_session [OF assms(1,2)])
  have "length (of_function fn (down_results downs)) \<le> 1"
    using link_placed [OF link, of fn] by (auto split: if_splits)
  with hist show ?thesis
    by (auto simp: history_def)
qed

theorem calls_answered_in_order_witness:
  "\<exists>y. net_reach sample_net y \<and>
     [7] = map fst (answers (callbacks (ns_clients y 1))) @ map (the \<circ> clo_fun) (outstanding add_name (ns_clients y 1))"
proof -
  obtain y where "net_reach sample_net y" "ns_issued y 1 = [7]" "get_clients (ns_service y) = [1, 2]"
    by (rule sample_called)
  then show ?thesis
    using calls_answered_in_order [OF sample_net_ok, of y 1 add_name] by auto
qed

text \<open>
  C4: The system comes to rest. If every function has a result it could answer with, there is
  no infinite run of deliveries and answers from any reachable state; a run that cannot go on
  has reached a state in which no byte is on its way, nothing is outstanding and every call ever
  made has been answered; and such a state is always reached.
\<close>

theorem system_comes_to_rest:
  assumes "net_ok N" and "\<And>fn. nt_sig N fn \<noteq> None \<Longrightarrow> \<exists>r. result_fits N fn r" and "net_reach N y"
  shows "wfp (\<lambda>y2 y1. net_reach N y1 \<and> net_goes_on N y1 y2) \<and>
    ((\<nexists>y'. net_goes_on N y y') \<longrightarrow> at_rest N y) \<and>
    (\<exists>y'. (net_goes_on N)\<^sup>*\<^sup>* y y' \<and> at_rest N y')"
  using net_goes_on_ends [OF assms(1)] stuck_at_rest [OF assms(1,3,2)] net_runs_to_rest [OF assms(1,2,3)]
  by blast

theorem system_comes_to_rest_witness:
  "\<exists>y y'. net_reach sample_net y \<and> ns_issued y 1 = [7] \<and> (net_goes_on sample_net)\<^sup>*\<^sup>* y y' \<and> at_rest sample_net y'"
proof -
  obtain y where y: "net_reach sample_net y" "ns_issued y 1 = [7]"
    by (rule sample_called)
  have "\<exists>r. result_fits sample_net fn r" if "nt_sig sample_net fn \<noteq> None" for fn
    using that sample_result_fits by (auto split: if_splits)
  then show ?thesis
    using system_comes_to_rest [OF sample_net_ok _ y(1)] y by blast
qed

end
