(* ===== verification/Client_Once.thy ===== *)
theory Client_Once
  imports Client_Faults
begin

text \<open>
  The books a client keeps about the closures it was given: a closure is with the client, in
  progress or waiting, or it has been called; no closure is called more often than it was
  given to the client. This holds for every sequence of program calls and completions, with
  lost connections, failing writes, malformed messages and exceptions included.
\<close>

section \<open>Where a closure is\<close>

text \<open>How often the closure \<open>n\<close> was called, is in progress, and is waiting in the queue.\<close>

fun times_called :: "nat \<Rightarrow> 'v callback list \<Rightarrow> nat" where
  "times_called n [] = 0"
| "times_called n (OnResult k r # cbs) = (if k = n then 1 else 0) + times_called n cbs"
| "times_called n (cb # cbs) = times_called n cbs"

definition is_closure :: "nat \<Rightarrow> 'ty closure \<Rightarrow> nat" where
  "is_closure n c = (if clo_fun c = Some n then 1 else 0)"

definition in_progress :: "nat \<Rightarrow> (string \<times> 'ty closure) list \<Rightarrow> nat" where
  "in_progress n cs = (\<Sum>p\<leftarrow>cs. is_closure n (snd p))"

definition queued :: "nat \<Rightarrow> (byte list \<times> 'ty closure) call_queue \<Rightarrow> nat" where
  "queued n q = (\<Sum>fn\<in>dom q. \<Sum>a\<leftarrow>waiting q fn. is_closure n (snd a))"

text \<open>How often a program gives the closure \<open>n\<close> to \<open>send_call\<close> in a list of events.\<close>

fun times_given :: "nat \<Rightarrow> ('ty, 'v) client_event list \<Rightarrow> nat" where
  "times_given n [] = 0"
| "times_given n (Program (SendCall fn c args) # evs) = is_closure n c + times_given n evs"
| "times_given n (ev # evs) = times_given n evs"

text \<open>The closures a program gives to the client are not empty functions.\<close>

fun given_callable :: "('ty, 'v) client_event \<Rightarrow> bool" where
  "given_callable (Program (SendCall fn c args)) \<longleftrightarrow> clo_fun c \<noteq> None"
| "given_callable ev \<longleftrightarrow> True"

lemma times_called_append [simp]:
  "times_called n (xs @ ys) = times_called n xs + times_called n ys"
  by (induction n xs rule: times_called.induct) simp_all

lemma times_called_events [simp]:
  "\<not> is_result cb \<Longrightarrow> times_called n [cb] = 0"
  by (cases cb) simp_all

lemma in_progress_simps [simp]:
  "in_progress n [] = 0"
  "in_progress n (p # cs) = is_closure n (snd p) + in_progress n cs"
  by (simp_all add: in_progress_def)

lemma in_progress_update: "in_progress n (AList.update fn c cs) \<le> in_progress n cs + is_closure n c"
  by (induction cs) auto

lemma in_progress_delete_le: "in_progress n (AList.delete fn cs) \<le> in_progress n cs"
  by (induction cs) auto

lemma in_progress_delete:
  "map_of cs fn = Some c \<Longrightarrow> in_progress n (AList.delete fn cs) + is_closure n c \<le> in_progress n cs"
proof (induction cs)
  case (Cons p cs)
  then show ?case
    using in_progress_delete_le [of n fn cs] by (cases p) (auto split: if_splits)
qed simp

lemma times_called_told:
  "\<forall>(fn, c) \<in> set cs. clo_fun c \<noteq> None \<Longrightarrow>
   times_called n (map (\<lambda>(fn, c). OnResult (the (clo_fun c)) (r c)) cs) = in_progress n cs"
  by (induction cs) (auto simp: is_closure_def)

text \<open>The sum over the queue may range over any finite set of names that holds its domain.\<close>

lemma queued_on:
  assumes "finite A" and "dom q \<subseteq> A"
  shows "queued n q = (\<Sum>fn\<in>A. \<Sum>a\<leftarrow>waiting q fn. is_closure n (snd a))"
  unfolding queued_def using assms
  by (intro sum.mono_neutral_left) (auto simp: waiting_def split: option.splits)

lemma dom_enqueue: "dom (enqueue_call fn a q) = insert fn (dom q)"
  by (auto simp: enqueue_call_def Let_def split: option.splits if_splits)

lemma dom_pop: "dom (pop_front fn q) = dom q"
  by (auto simp: pop_front_def split: option.splits if_splits)

lemma queued_upd:
  assumes "finite (dom q)" and "dom q' = insert fn (dom q)" and "waiting q' = (waiting q)(fn := xs)"
  shows "queued n q' + (\<Sum>a\<leftarrow>waiting q fn. is_closure n (snd a)) =
         queued n q + (\<Sum>a\<leftarrow>xs. is_closure n (snd a))"
proof -
  have "queued n q = (\<Sum>g\<in>insert fn (dom q). \<Sum>a\<leftarrow>waiting q g. is_closure n (snd a))"
    and "queued n q' = (\<Sum>g\<in>insert fn (dom q). \<Sum>a\<leftarrow>waiting q' g. is_closure n (snd a))"
    using assms(1,2) by (intro queued_on; auto)+
  moreover have "(\<Sum>g\<in>dom q - {fn}. \<Sum>a\<leftarrow>waiting q' g. is_closure n (snd a)) =
      (\<Sum>g\<in>dom q - {fn}. \<Sum>a\<leftarrow>waiting q g. is_closure n (snd a))"
    by (rule sum.cong) (simp_all add: assms(3))
  moreover have "waiting q' fn = xs"
    by (simp add: assms(3))
  ultimately show ?thesis
    using assms(1) by (simp add: sum.insert_remove)
qed

lemma queued_enqueue:
  "finite (dom q) \<Longrightarrow> queued n (enqueue_call fn a q) = queued n q + is_closure n (snd a)"
  using queued_upd [OF _ dom_enqueue waiting_enqueue, of q n fn a] by simp

lemma queued_pop:
  assumes "finite (dom q)" and "waiting q fn = a # xs"
  shows "queued n (pop_front fn q) + is_closure n (snd a) = queued n q"
proof -
  have "dom (pop_front fn q) = insert fn (dom q)"
    using assms(2) by (auto simp: dom_pop waiting_Some)
  with queued_upd [OF assms(1) this waiting_pop, of n] assms(2) show ?thesis
    by simp
qed

section \<open>The books of a client\<close>

definition callable_queue :: "(byte list \<times> 'ty closure) call_queue \<Rightarrow> bool" where
  "callable_queue q \<longleftrightarrow> (\<forall>fn. \<forall>a \<in> set (waiting q fn). fn \<noteq> '''' \<and> clo_fun (snd a) \<noteq> None)"

definition accounted :: "nat \<Rightarrow> nat \<Rightarrow> ('k, 'ty, 'v) client \<Rightarrow> bool" where
  "accounted n k s \<longleftrightarrow> finite (dom (myCallQueue s)) \<and> closures_callable s \<and>
     callable_queue (myCallQueue s) \<and>
     times_called n (callbacks s) + in_progress n (myClosures s) + queued n (myCallQueue s) \<le> k"

lemma accounted_upd [simp]:
  "accounted n k (s\<lparr>myTransport := t\<rparr>) = accounted n k s"
  "accounted n k (s\<lparr>myArchives := b\<rparr>) = accounted n k s"
  "accounted n k (s\<lparr>myMessenger := m\<rparr>) = accounted n k s"
  "accounted n k (s\<lparr>myEventListeners := ls\<rparr>) = accounted n k s"
  "accounted n k (s\<lparr>runningThread := th\<rparr>) = accounted n k s"
  "\<not> is_result cb \<Longrightarrow> accounted n k (s\<lparr>callbacks := callbacks s @ [cb]\<rparr>) = accounted n k s"
  by (simp_all add: accounted_def closures_callable_def)

lemma accounted_new: "accounted n 0 (new_client t thread)"
  by (simp add: accounted_def new_client_def closures_callable_def callable_queue_def empty_queue_def
      queued_def)

lemma accounted_mono: "accounted n k s \<Longrightarrow> k \<le> k' \<Longrightarrow> accounted n k' s"
  by (simp add: accounted_def)

lemma set_update_subset: "set (AList.update k v al) \<subseteq> insert (k, v) (set al)"
  by (induction al) auto

lemma callable_update:
  "closures_callable s \<Longrightarrow> fn \<noteq> '''' \<Longrightarrow> clo_fun c \<noteq> None \<Longrightarrow> closures_callable (enqueue_closure fn c s)"
  using set_update_subset [of fn c "myClosures s"]
  by (auto simp: closures_callable_def enqueue_closure_def)

lemma callable_delete:
  "closures_callable s \<Longrightarrow> closures_callable (s\<lparr>myClosures := AList.delete fn (myClosures s)\<rparr>)"
  by (auto simp: closures_callable_def AList.delete_eq)

lemma in_set_tl: "x \<in> set (tl xs) \<Longrightarrow> x \<in> set xs"
  by (cases xs) simp_all

lemma callable_queue_simps:
  "callable_queue q \<Longrightarrow> callable_queue (pop_front fn q)"
  "callable_queue q \<Longrightarrow> fn \<noteq> '''' \<Longrightarrow> clo_fun (snd a) \<noteq> None \<Longrightarrow> callable_queue (enqueue_call fn a q)"
  by (auto simp: callable_queue_def queue_simps dest: in_set_tl)

text \<open>A closure given to the client: it is called, started, or queued.\<close>

lemma accounted_called:
  "accounted n k s \<Longrightarrow> clo_fun c = Some i \<Longrightarrow>
   accounted n (k + is_closure n c) (s\<lparr>callbacks := callbacks s @ [OnResult i r]\<rparr>)"
  by (simp add: accounted_def closures_callable_def is_closure_def)

lemma accounted_started:
  "accounted n k s \<Longrightarrow> fn \<noteq> '''' \<Longrightarrow> clo_fun c \<noteq> None \<Longrightarrow>
   accounted n (k + is_closure n c) (enqueue_closure fn c s)"
  using in_progress_update [of n fn c "myClosures s"]
  by (simp add: accounted_def callable_update) (simp add: enqueue_closure_def)

lemma accounted_queued:
  "accounted n k s \<Longrightarrow> fn \<noteq> '''' \<Longrightarrow> clo_fun c \<noteq> None \<Longrightarrow>
   accounted n (k + is_closure n c) (s\<lparr>myCallQueue := enqueue_call fn (m, c) (myCallQueue s)\<rparr>)"
  by (simp add: accounted_def callable_queue_simps queued_enqueue dom_enqueue closures_callable_def)

text \<open>A queued call that is started, a call that is taken out, and a lost connection.\<close>

lemma accounted_dequeued:
  assumes "accounted n k s" and "waiting (myCallQueue s) fn = a # xs"
  shows "accounted n k ((enqueue_closure fn (snd a) s)\<lparr>myCallQueue := pop_front fn (myCallQueue s)\<rparr>)"
proof -
  have "a \<in> set (waiting (myCallQueue s) fn)"
    by (simp add: assms(2))
  then have "fn \<noteq> ''''" "clo_fun (snd a) \<noteq> None"
    using assms(1) unfolding accounted_def callable_queue_def by blast+
  then have "closures_callable (enqueue_closure fn (snd a) s)"
    using assms(1) by (simp add: accounted_def callable_update)
  then show ?thesis
    using assms queued_pop [of "myCallQueue s" fn a xs n]
      in_progress_update [of n fn "snd a" "myClosures s"]
    by (simp add: accounted_def callable_queue_simps dom_pop closures_callable_def enqueue_closure_def)
qed

lemma accounted_taken:
  assumes "accounted n k s" and "map_of (myClosures s) fn = Some c"
  obtains j where "accounted n j (s\<lparr>myClosures := AList.delete fn (myClosures s)\<rparr>)"
    and "k = j + is_closure n c"
proof
  have "is_closure n c \<le> k"
    using assms in_progress_delete [of "myClosures s" fn c n] by (simp add: accounted_def)
  then show "k = (k - is_closure n c) + is_closure n c" by simp
  show "accounted n (k - is_closure n c) (s\<lparr>myClosures := AList.delete fn (myClosures s)\<rparr>)"
    using assms in_progress_delete [of "myClosures s" fn c n] callable_delete [of s fn]
    by (simp add: accounted_def) linarith
qed

lemma accounted_told: "accounted n k s \<Longrightarrow> accounted n k (told_error cfg e s)"
  by (auto simp: accounted_def told_error_def closures_callable_def times_called_told
      split_beta)

section \<open>Every operation keeps the books\<close>

lemma accounted_write: "accounted n k s \<Longrightarrow> always (accounted n k) (client_write cfg msg s)"
  using client_write_frame [of cfg msg s] by (auto simp: always_def)

lemma accounted_dequeue:
  assumes "accounted n k s" and "is_enqueued limit fn (myCallQueue s)"
  shows "always (accounted n k)
     (dequeue_call myCallQueue (\<lambda>f s. s\<lparr>myCallQueue := f (myCallQueue s)\<rparr>) (run_queued_call cfg) fn s)"
proof -
  obtain a xs where w: "waiting (myCallQueue s) fn = a # xs"
    using assms(2) by (auto simp: is_enqueued_def waiting_def neq_Nil_conv split: if_splits option.splits)
  obtain t where t: "res_state (client_write cfg (fst a) s) = s\<lparr>myTransport := t\<rparr>"
    using client_write_frame by blast
  have "accounted n k (enqueue_closure fn (snd a) (s\<lparr>myTransport := t\<rparr>)
      \<lparr>myCallQueue := pop_front fn (myCallQueue s)\<rparr>)"
    using accounted_dequeued [of n k "s\<lparr>myTransport := t\<rparr>" fn a xs] assms(1) w by simp
  then show ?thesis
    using assms(1) t w
    by (cases "client_write cfg (fst a) s")
       (auto simp: dequeue_call_waiting [where get = myCallQueue and s = s, OF w] run_queued_call_def waiting_Some enqueue_closure_def)
qed

lemma accounted_call_closure:
  "accounted n k s \<Longrightarrow> always (accounted n (k + is_closure n c)) (call_closure passive_user c r s)"
  by (auto simp: call_closure_def notify_def passive_user_def accounted_called
      intro: accounted_mono split: option.split)

lemma accounted_run_closure:
  "accounted n k s \<Longrightarrow> always (accounted n (k + is_closure n c)) (run_closure passive_user cfg c i s)"
  by (auto simp: run_closure_def accounted_call_closure intro: accounted_mono split: option.split)

lemma accounted_dispatch_result:
  assumes "accounted n k s"
  shows "always (accounted n k) (dispatch_result passive_user cfg fn i s)"
proof (cases "map_of (myClosures s) fn")
  case (Some c)
  let ?s1 = "s\<lparr>myClosures := AList.delete fn (myClosures s)\<rparr>"
  obtain j where j: "accounted n j ?s1" "k = j + is_closure n c"
    using accounted_taken [OF assms Some] .
  let ?d = "if is_enqueued (call_limit cfg) fn (myCallQueue ?s1)
    then dequeue_call myCallQueue (\<lambda>f s. s\<lparr>myCallQueue := f (myCallQueue s)\<rparr>) (run_queued_call cfg) fn ?s1
    else Ret () ?s1"
  have "always (accounted n j) ?d"
    using accounted_dequeue [OF j(1), of "call_limit cfg" fn cfg] j(1) by auto
  then have "always (accounted n k) (bind_res ?d (\<lambda>_. run_closure passive_user cfg c i))"
    unfolding j(2)
    by (cases ?d) (auto intro: accounted_run_closure accounted_mono)
  with Some show ?thesis
    by (simp add: dispatch_result_def Let_def)
qed (use assms in \<open>simp add: dispatch_result_def\<close>)

lemma accounted_listeners:
  "accounted n k s \<Longrightarrow> always (accounted n k) (notify_listeners passive_user poly ls ev s)"
  by (induction ls arbitrary: ev s) (auto simp: notify_def passive_user_def)

lemma accounted_handler:
  "accounted n k s \<Longrightarrow> always (accounted n k) (message_handler passive_user cfg msg s)"
  by (auto simp: message_handler_def dispatch_event_def accounted_listeners accounted_dispatch_result
      split: option.split)

interpretation books: reader_owner "client_reader passive_user cfg" "accounted n k" for cfg n k
  by unfold_locales (simp_all add: client_reader_def accounted_handler)

lemma accounted_incoming:
  assumes "accounted n k s"
  shows "always (accounted n k) (client_on_incoming_data passive_user cfg b s)"
proof -
  have "always (accounted n k)
      (case messenger_read (cf_endian cfg) (client_reader passive_user cfg) b 0 (s, myMessenger s) of
         Ret b (s2, m) \<Rightarrow> Ret b (s2\<lparr>myMessenger := m\<rparr>)
       | Exn e (s2, m) \<Rightarrow> Exn e (s2\<lparr>myMessenger := m\<rparr>))"
    using books.messenger_read_keeps [of n k "(s, myMessenger s)" "cf_endian cfg" cfg b 0] assms
    by (auto split: res.split prod.split)
  with assms show ?thesis
    by (simp add: client_on_incoming_data_def check_thread_id_def)
qed

lemma accounted_error:
  assumes "archive_ok (cf_archive cfg) tyof" and "Error_bool e" and "accounted n k s"
  shows "always (accounted n k) (client_on_connection_error passive_user cfg e s)"
proof (cases "runningThread s = myThreadId s")
  case True
  have "\<forall>(fn, c) \<in> set (myClosures s). fn \<noteq> '''' \<and> clo_fun c \<noteq> None"
    using assms(3) by (simp add: accounted_def closures_callable_def)
  with True assms show ?thesis
    by (simp add: connection_error_passive accounted_told)
qed (use assms(3) in \<open>simp add: client_on_connection_error_def check_thread_id_def\<close>)

text \<open>A client over an archive that reads what it writes owns its transport and keeps its books.\<close>

lemma books_owner:
  assumes "archive_ok (cf_archive cfg) tyof"
  shows "transport_owner client_lens (client_listener passive_user cfg) (accounted n k)"
  by unfold_locales
     (simp_all add: client_listener_def accounted_error [OF assms] keeps_on_disconnected
        accounted_incoming client_on_connected_def Let_def books.init_transport_keeps)

lemma prepared_name:
  "prepare_call_message cfg fn args s = Ret (full, msg) s1 \<Longrightarrow> full \<noteq> '''' \<and> s1 = s"
  by (auto simp: prepare_call_message_def check_thread_id_def myFuncPrefix_def Let_def split: if_splits)

lemma accounted_send_call:
  assumes "accounted n k s" and "clo_fun c \<noteq> None"
  shows "always (accounted n (k + is_closure n c)) (send_call passive_user cfg fn c args s)"
proof -
  have weaker: "accounted n (k + is_closure n c) s'" if "accounted n k s'" for s' :: "('a, 'b, 'c) client"
    using that by (rule accounted_mono) simp
  have "always (accounted n (k + is_closure n c))
      (bind_res (client_write cfg msg s) (\<lambda>err s2.
         if Error_bool err
         then call_closure passive_user c
           (Result_error (map_option (value_init (cf_archive cfg)) (clo_type c)) err) s2
         else Ret () (enqueue_closure full c s2)))" if "full \<noteq> ''''" for full msg
    using that assms accounted_write [OF assms(1), of cfg msg]
    by (cases "client_write cfg msg s") (auto simp: accounted_call_closure accounted_started weaker)
  then show ?thesis
    using assms keeps_prepare [of "accounted n k" s cfg fn args]
    by (cases "prepare_call_message cfg fn args s")
       (auto simp: send_call_def accounted_queued weaker dest!: prepared_name)
qed

lemma accounted_one_way:
  "accounted n k s \<Longrightarrow> always (accounted n k) (send_call_one_way cfg fn args s)"
  unfolding send_call_one_way_def
  by (auto intro!: always_bind keeps_prepare accounted_write)

lemma accounted_notify_open:
  "accounted n k s \<Longrightarrow> always (accounted n k) (notify passive_user (OnOpen cl r) s)"
  by (simp add: notify_def passive_user_def)

lemma accounted_do:
  assumes "archive_ok (cf_archive cfg) tyof" and "accounted n k s" and "given_callable (Program op)"
  shows "always (accounted n (k + times_given n [Program op])) (client_do passive_user cfg op s)"
  using assms(2,3)
proof (cases op)
  case OpenClient
  then show ?thesis
    using assms(2) by (auto simp: open_client_def always_ignore
        intro!: always_bind keeps_check_thread
          transport_owner.client_open_keeps [OF books_owner [OF assms(1)]])
next
  case (OpenAsync cl)
  then show ?thesis
    using assms(2) by (auto simp: open_client_async_def
        intro!: always_bind keeps_check_thread accounted_notify_open
          transport_owner.open_async_keeps [OF books_owner [OF assms(1)]])
next
  case CloseClient
  have "always (accounted n k) (tr_close (cf_io cfg) client_lens client_on_disconnected s)"
    using tr_close_frame [of "cf_io cfg" s] assms(2) by (auto simp: always_def)
  then show ?thesis
    using CloseClient assms(2) by (simp add: close_client_def check_thread_id_def)
qed (auto simp: accounted_send_call accounted_one_way add_listener_def remove_listener_def
      is_call_in_progress_def always_ignore check_thread_id_def)

lemma accounted_step:
  assumes "archive_ok (cf_archive cfg) tyof" and "accounted n k s" and "given_callable ev"
  shows "always (accounted n (k + times_given n [ev])) (client_step passive_user cfg ev s)"
proof -
  note owner = books_owner [OF assms(1), of n k]
  show ?thesis
    using assms(2,3) accounted_do [OF assms(1,2)]
    by (cases ev)
       (auto simp: client_step_def client_receive_def client_handle_recv_def
          intro!: transport_owner.recv_completed_keeps [OF owner] transport_owner.handle_recv_keeps [OF owner]
            transport_owner.handle_resolve_keeps [OF owner] transport_owner.handle_connect_keeps [OF owner]
            accounted_notify_open)
qed

lemma times_given_Cons: "times_given n (ev # evs) = times_given n [ev] + times_given n evs"
  by (cases "(n, ev # evs)" rule: times_given.cases) simp_all

lemma accounted_run:
  assumes "archive_ok (cf_archive cfg) tyof" and "list_all given_callable evs" and "accounted n k s"
  shows "accounted n (k + times_given n evs) (client_run passive_user cfg evs s)"
  using assms(2,3)
proof (induction evs arbitrary: k s)
  case (Cons ev evs)
  then have "accounted n (k + times_given n [ev]) (res_state (client_step passive_user cfg ev s))"
    using accounted_step [OF assms(1), of n k s ev] by (simp add: always_def)
  with Cons.IH [OF _ this] Cons.prems(1) show ?case
    by (simp add: times_given_Cons [of n ev evs] add.assoc)
qed simp

text \<open>
  C8: A closure is never called more often than the program gave it to \<open>send_call\<close>: for every
  sequence of calls and completions, the number of times a closure was called, together with
  the number of times it is still in progress or waiting, is at most the number of times it
  was given. Failing writes, lost and reopened connections, calls from foreign threads, results
  nobody asked for and malformed messages are all among the sequences; the closures are not
  empty functions and do nothing to the client.
\<close>

theorem closures_called_at_most_once:
  assumes "archive_ok (cf_archive cfg) tyof" and "list_all given_callable evs"
    and "s = client_run passive_user cfg evs (new_client t thread)"
  shows "times_called n (callbacks s) + in_progress n (myClosures s) + queued n (myCallQueue s)
         \<le> times_given n evs"
  using accounted_run [OF assms(1,2) accounted_new] assms(3) by (simp add: accounted_def)

text \<open>A call whose connection is reset: the closure was called, and the client holds it no more.\<close>

definition lost_call :: "(unit, cint) client_event list" where
  "lost_call = [Program OpenClient, Program (SendCall ''add'' (sample_closure 7) [1, 2]), ReceiveError ec_reset]"

lemma res_state_ignore: "res_state (ignore r) = res_state r"
  by (cases r) (simp_all add: ignore_def)

lemma lost_call_called:
  "times_called 7 (callbacks (client_run passive_user sample_cfg lost_call
     (new_client (new_transport sample_sock) 1))) = 1"
proof -
  have name: "full_name sample_cfg ''add'' = ''CalculatorInterface::add''"
    by (simp add: myFuncPrefix_def sample_cfg_def)
  let ?m = "call_message sample_cfg sample_client ''add'' [1, 2]"
  let ?s = "enqueue_closure ''CalculatorInterface::add'' (sample_closure 7) (after_write sample_cfg ?m sample_client)"
  have len: "length ?m \<le> 1000" "4 \<le> length ?m"
    by (simp_all add: serialize_defs sample_archive_def myFuncPrefix_def sample_cfg_def HEADER_SIZE_def)
  have ready: "client_ready sample_client"
    by (simp add: client_ready_def tr_is_open_def sample_client_eq)
  moreover have "write_succeeds sample_cfg ?m sample_client"
    using len by (simp add: write_succeeds_def message_with_header_def sample_io_def sample_client_eq
        HEADER_SIZE_def ec_samples ec_ok_def sample_sock_def)
  ultimately have sent: "send_call passive_user sample_cfg ''add'' (sample_closure 7) [1, 2] sample_client = Ret () ?s"
    using send_call_direct [of sample_client sample_cfg "''add''" "[1, 2]" passive_user "sample_closure 7"]
    unfolding name by (simp add: sample_client_eq)
  have "client_ready ?s" "myListener (myTransport ?s)" "closures_callable ?s"
    using ready by (simp_all add: client_ready_def closures_callable_def sample_closure_def enqueue_closure_def
        sample_client_eq after_write_def tr_is_open_def message_with_header_def split: sum.split)
  then have "client_handle_recv passive_user sample_cfg ec_reset 0 ?s =
      tr_close sample_io client_lens client_on_disconnected (told_error sample_cfg (Error_of_code ec_reset) ?s)"
    using handle_recv_error_passive [of sample_cfg "\<lambda>_. ()" ?s ec_reset 0] sample_archive_ok
    by (simp add: ec_samples ec_ok_def is_recoverable_def errno_defs)
  then have "callbacks (res_state (client_handle_recv passive_user sample_cfg ec_reset 0 ?s)) =
      [OnResult 7 (error_result sample_cfg (Error_of_code ec_reset) (sample_closure 7))]"
    using tr_close_frame [of sample_io "told_error sample_cfg (Error_of_code ec_reset) ?s"]
    by (auto simp: told_error_def enqueue_closure_def sample_closure_def sample_client_eq)
  moreover have "res_state (client_step passive_user sample_cfg (Program OpenClient)
      (new_client (new_transport sample_sock) 1)) = sample_client"
    by (simp add: client_step_def sample_client_def res_state_ignore)
  ultimately show ?thesis
    by (simp add: lost_call_def) (simp add: client_step_def sent)
qed

theorem closures_called_at_most_once_witness:
  "let s = client_run passive_user sample_cfg lost_call (new_client (new_transport sample_sock) 1)
   in times_called 7 (callbacks s) = 1 \<and> in_progress 7 (myClosures s) = 0 \<and> queued 7 (myCallQueue s) = 0"
  using closures_called_at_most_once [of sample_cfg "\<lambda>_. ()" lost_call _ "new_transport sample_sock" 1 7]
    sample_archive_ok lost_call_called
  by (simp add: Let_def) (simp add: lost_call_def sample_closure_def is_closure_def)

end
