(* ===== verification/Calculator.thy ===== *)
theory Calculator
  imports Rpc
begin

text \<open>
  The calculator of the unit tests (\<open>unittests/calculatorinterface.h\<close>, \<open>calculatorservice.h\<close>,
  \<open>calculatorclient.h\<close>): a complete program on the library, with arguments at their C++ widths.
  The timer of the delayed addition is third-party code: an abstract state and its operations.
\<close>

section \<open>Values\<close>

text \<open>\<open>Ptr32\<close> is a \<open>unique_ptr<int32_t>\<close>, which can be null.\<close>

datatype calc_value =
    I8 "8 word"
  | I16 "16 word"
  | I32 "32 word"
  | Vec32 "32 word list"
  | Vec64 "64 word list"
  | Ptr32 "32 word option"
  | SizeT "64 word"

datatype calc_type = TI8 | TI16 | TI32 | TVec32 | TVec64 | TPtr32 | TSizeT

primrec calc_type_of :: "calc_value \<Rightarrow> calc_type" where
  "calc_type_of (I8 _) = TI8"
| "calc_type_of (I16 _) = TI16"
| "calc_type_of (I32 _) = TI32"
| "calc_type_of (Vec32 _) = TVec32"
| "calc_type_of (Vec64 _) = TVec64"
| "calc_type_of (Ptr32 _) = TPtr32"
| "calc_type_of (SizeT _) = TSizeT"

definition INT32_MAX :: int where "INT32_MAX = 2147483647"
definition INT32_MIN :: int where "INT32_MIN = - 2147483648"

definition value_too_large :: cerror where
  "value_too_large = Error_of_code \<lparr>ec_value = 75, ec_category = ''generic'',
     ec_message = ''Value too large for defined data type''\<rparr>"

text \<open>Addition of two \<open>int32_t\<close>: an overflow is undefined.\<close>

definition add_int32 :: "32 word \<Rightarrow> 32 word \<Rightarrow> 32 word option" where
  "add_int32 a b =
     (let tot = sint a + sint b
      in if tot < INT32_MIN \<or> tot > INT32_MAX then None else Some (word_of_int tot))"

section \<open>The service\<close>

text \<open>
  The operations of the timer library the service calls; a wait that is pending carries the
  arguments and the closure its handler captured. \<open>cd_closed\<close> counts the calls of the close
  action.
\<close>

type_synonym calc_wait = "32 word \<times> 32 word \<times> srv_closure"

record 't calc_timer_lib =
  ct_expires_from_now :: "nat \<Rightarrow> 't \<Rightarrow> 't"
  ct_async_wait :: "calc_wait \<Rightarrow> 't \<Rightarrow> 't"

record 't calc_data =
  myResultTimer :: 't
  cd_closed :: nat

type_synonym ('k, 'a, 't) calc_service = "('k, 'a, 't calc_data) service"

type_synonym ('k, 'a, 't) calc_function =
  "(calc_value, ('k, 'a, 't) calc_service) service_function"

text \<open>
  The dictionary calls a function with arguments of its parameter types; the last branch of
  each definition is for lists the deserialization cannot produce.
\<close>

abbreviation ill_typed :: "'s \<Rightarrow> (unit, 's) res" where
  "ill_typed s \<equiv> Exn (Undefined ''arguments of other types'') s"

definition calc_add :: "('k, 'i, calc_type, calc_value, 'a) service_cfg \<Rightarrow> ('k, 'a, 't) calc_function" where
  "calc_add cfg args cl s =
     (case (args, cl) of
        ([I8 a, I16 b, I32 c], Some cl) \<Rightarrow>
          let tot = sint a + sint b + sint c
          in if tot > INT32_MAX
             then run_service_closure cfg cl (Result_error (Some (I32 0)) value_too_large) s
             else run_service_closure cfg cl (Result_value (I32 (word_of_int tot)) Error_none) s
      | _ \<Rightarrow> ill_typed s)"

definition calc_add_and_delay_result :: "'t calc_timer_lib \<Rightarrow> ('k, 'a, 't) calc_function" where
  "calc_add_and_delay_result T args cl s =
     (case (args, cl) of
        ([I32 a, I32 b], Some cl) \<Rightarrow>
          let t = ct_expires_from_now T 1 (myResultTimer (svUser s));
              t = ct_async_wait T (a, b, cl) t
          in Ret () (s\<lparr>svUser := (svUser s)\<lparr>myResultTimer := t\<rparr>\<rparr>)
      | _ \<Rightarrow> ill_typed s)"

text \<open>
  The handler of the wait. It does not look at its error code, so a wait that is cancelled by
  the next delayed call answers as well.
\<close>

definition calc_delay_elapsed :: "('k, 'i, calc_type, calc_value, 'a) service_cfg \<Rightarrow> calc_wait \<Rightarrow>
    error_code \<Rightarrow> ('k, 'a, 't) calc_service \<Rightarrow> (unit, ('k, 'a, 't) calc_service) res" where
  "calc_delay_elapsed cfg w ec s =
     (case w of (a, b, cl) \<Rightarrow>
        (case add_int32 a b of
           None \<Rightarrow> Exn (Undefined ''signed integer overflow'') s
         | Some tot \<Rightarrow> run_service_closure cfg cl (Result_value (I32 tot) Error_none) s))"

definition calc_add_vector :: "('k, 'i, calc_type, calc_value, 'a) service_cfg \<Rightarrow> ('k, 'a, 't) calc_function" where
  "calc_add_vector cfg args cl s =
     (case (args, cl) of
        ([Vec32 a, Vec32 b], Some cl) \<Rightarrow>
          let result = (if length a = length b
                then map2 (\<lambda>x y. word_of_int (sint x + sint y) :: 64 word) a b else [])
          in run_service_closure cfg cl (Result_value (Vec64 result) Error_none) s
      | _ \<Rightarrow> ill_typed s)"

definition calc_add_by_pointers :: "('k, 'i, calc_type, calc_value, 'a) service_cfg \<Rightarrow> ('k, 'a, 't) calc_function" where
  "calc_add_by_pointers cfg args cl s =
     (case (args, cl) of
        ([Ptr32 a, Ptr32 b], Some cl) \<Rightarrow>
          (case (a, b) of
             (Some x, Some y) \<Rightarrow>
               (case add_int32 x y of
                  None \<Rightarrow> Exn (Undefined ''signed integer overflow'') s
                | Some tot \<Rightarrow> run_service_closure cfg cl (Result_value (I32 tot) Error_none) s)
           | _ \<Rightarrow> Exn (Undefined ''null pointer'') s)
      | _ \<Rightarrow> ill_typed s)"

definition calc_close_service :: "('k, 'a, 't) calc_function" where
  "calc_close_service args cl s =
     (case args of
        [] \<Rightarrow> Ret () (s\<lparr>svUser := (svUser s)\<lparr>cd_closed := cd_closed (svUser s) + 1\<rparr>\<rparr>)
      | _ \<Rightarrow> ill_typed s)"

definition calc_get_connected_clients_count ::
  "('k, 'i, calc_type, calc_value, 'a) service_cfg \<Rightarrow> ('k, 'a, 't) calc_function" where
  "calc_get_connected_clients_count cfg args cl s =
     (case (args, cl) of
        ([], Some cl) \<Rightarrow>
          run_service_closure cfg cl
            (Result_value (SizeT (word_of_nat (length (get_clients s)))) Error_none) s
      | _ \<Rightarrow> ill_typed s)"

text \<open>The constructor's registrations, in the order of the code.\<close>

definition calc_register :: "('k, 'i, calc_type, calc_value, 'a) service_cfg \<Rightarrow> 't calc_timer_lib \<Rightarrow>
    ('k, 'a, 't) calc_service \<Rightarrow>
    (('k, calc_type, calc_value, 'a, 't calc_data) service_dict, ('k, 'a, 't) calc_service) res option" where
  "calc_register cfg T s =
     (case add_functions cfg False [''add'', ''add_vector'', ''add_and_delay_result'']
             [([PValue TI8, PValue TI16, PValue TI32, PClosure (Some TI32)], calc_add cfg),
              ([PValue TVec32, PValue TVec32, PClosure (Some TVec64)], calc_add_vector cfg),
              ([PValue TI32, PValue TI32, PClosure (Some TI32)], calc_add_and_delay_result T)]
             Map.empty s of
        Some (Ret D1 s1) \<Rightarrow>
          (case add_functions cfg False [''get_connected_clients_count'']
                  [([PClosure (Some TSizeT)], calc_get_connected_clients_count cfg)] D1 s1 of
             Some (Ret D2 s2) \<Rightarrow>
               (case add_functions cfg False [''add_by_pointers'']
                       [([PValue TPtr32, PValue TPtr32, PClosure (Some TI32)], calc_add_by_pointers cfg)] D2 s2 of
                  Some (Ret D3 s3) \<Rightarrow>
                    add_functions cfg True [''close_service''] [([], calc_close_service)] D3 s3
                | r \<Rightarrow> r)
           | r \<Rightarrow> r)
      | r \<Rightarrow> r)"

section \<open>The client\<close>

definition calc_client_add :: "('k, calc_type, calc_value) user \<Rightarrow>
    ('k, 'i, calc_type, calc_value) client_cfg \<Rightarrow> 8 word \<Rightarrow> 16 word \<Rightarrow> 32 word \<Rightarrow> calc_type closure \<Rightarrow>
    ('k, calc_type, calc_value) client \<Rightarrow> (unit, ('k, calc_type, calc_value) client) res" where
  "calc_client_add U cfg a b c cl s = send_call U cfg ''add'' cl [I8 a, I16 b, I32 c] s"

definition calc_client_add_and_delay_result :: "('k, calc_type, calc_value) user \<Rightarrow>
    ('k, 'i, calc_type, calc_value) client_cfg \<Rightarrow> 32 word \<Rightarrow> 32 word \<Rightarrow> calc_type closure \<Rightarrow>
    ('k, calc_type, calc_value) client \<Rightarrow> (unit, ('k, calc_type, calc_value) client) res" where
  "calc_client_add_and_delay_result U cfg a b cl s =
     send_call U cfg ''add_and_delay_result'' cl [I32 a, I32 b] s"

definition calc_client_add_vector :: "('k, calc_type, calc_value) user \<Rightarrow>
    ('k, 'i, calc_type, calc_value) client_cfg \<Rightarrow> 32 word list \<Rightarrow> 32 word list \<Rightarrow> calc_type closure \<Rightarrow>
    ('k, calc_type, calc_value) client \<Rightarrow> (unit, ('k, calc_type, calc_value) client) res" where
  "calc_client_add_vector U cfg a b cl s = send_call U cfg ''add_vector'' cl [Vec32 a, Vec32 b] s"

definition calc_client_add_by_pointers :: "('k, calc_type, calc_value) user \<Rightarrow>
    ('k, 'i, calc_type, calc_value) client_cfg \<Rightarrow> 32 word option \<Rightarrow> 32 word option \<Rightarrow> calc_type closure \<Rightarrow>
    ('k, calc_type, calc_value) client \<Rightarrow> (unit, ('k, calc_type, calc_value) client) res" where
  "calc_client_add_by_pointers U cfg a b cl s = send_call U cfg ''add_by_pointers'' cl [Ptr32 a, Ptr32 b] s"

definition calc_client_close_service ::
  "('k, 'i, calc_type, calc_value) client_cfg \<Rightarrow> ('k, calc_type, calc_value) client \<Rightarrow>
   (unit, ('k, calc_type, calc_value) client) res" where
  "calc_client_close_service cfg s = send_call_one_way cfg ''close_service'' [] s"

definition calc_client_get_connected_clients_count :: "('k, calc_type, calc_value) user \<Rightarrow>
    ('k, 'i, calc_type, calc_value) client_cfg \<Rightarrow> calc_type closure \<Rightarrow>
    ('k, calc_type, calc_value) client \<Rightarrow> (unit, ('k, calc_type, calc_value) client) res" where
  "calc_client_get_connected_clients_count U cfg cl s =
     send_call U cfg ''get_connected_clients_count'' cl [] s"

end
