(* ===== verification/Sample_Calculator.thy ===== *)
theory Sample_Calculator
  imports Calculator
begin

text \<open>
  An archive for all value types of the calculator and one client and service that use it, for
  the theorems that say hypotheses can be met. Integers take four or eight bytes, lists carry a
  mark before each element and one at their end.
\<close>

primrec put_list :: "('x \<Rightarrow> byte list) \<Rightarrow> 'x list \<Rightarrow> byte list" where
  "put_list f [] = [0]"
| "put_list f (x # xs) = 1 # f x @ put_list f xs"

primrec take_list :: "(byte list \<Rightarrow> ('x \<times> byte list) option) \<Rightarrow> nat \<Rightarrow> byte list \<Rightarrow>
    ('x list \<times> byte list) option" where
  "take_list g 0 bs = None"
| "take_list g (Suc n) bs =
     (case bs of
        [] \<Rightarrow> None
      | b # r \<Rightarrow>
          if b = 0 then Some ([], r)
          else Option.bind (g r) (\<lambda>(x, r1). map_option (apfst ((#) x)) (take_list g n r1)))"

definition u64_bytes :: "64 word \<Rightarrow> byte list" where
  "u64_bytes w = u32_bytes (ucast w) @ u32_bytes (ucast (drop_bit 32 w))"

definition take_u64 :: "byte list \<Rightarrow> (64 word \<times> byte list) option" where
  "take_u64 bs = Option.bind (take_u32 bs) (\<lambda>(lo, r).
     map_option (\<lambda>(hi, r'). (or (ucast lo) (push_bit 32 (ucast hi)), r')) (take_u32 r))"

lemma take_put_list:
  assumes "\<And>x r. g (f x @ r) = Some (x, r)" and "length xs < n"
  shows "take_list g n (put_list f xs @ r) = Some (xs, r)"
  using assms(2)
proof (induction xs arbitrary: n)
  case (Cons x xs)
  then show ?case by (cases n) (simp_all add: assms(1))
qed (simp add: gr0_conv_Suc, force)

lemma put_list_nonempty [simp]: "put_list f xs \<noteq> []"
  by (cases xs) simp_all

lemma put_list_length: "length xs < length (put_list f xs @ r)"
  by (induction xs) simp_all

lemma take_put_u64: "take_u64 (u64_bytes w @ r) = Some (w, r)"
proof -
  have "or (ucast (ucast w :: u32)) (push_bit 32 (ucast (ucast (drop_bit 32 w) :: u32))) = w"
    by (rule bit_word_eqI) (auto simp: bit_simps)
  then show ?thesis
    by (simp add: take_u64_def u64_bytes_def take_put_u32)
qed

definition take_all :: "(byte list \<Rightarrow> ('x \<times> byte list) option) \<Rightarrow> byte list \<Rightarrow> ('x list \<times> byte list) option" where
  "take_all g bs = take_list g (length bs) bs"

lemma take_all_put:
  "(\<And>x r. g (f x @ r) = Some (x, r)) \<Longrightarrow> take_all g (put_list f xs @ r) = Some (xs, r)"
  unfolding take_all_def using take_put_list put_list_length by blast

primrec put_calc :: "calc_value \<Rightarrow> byte list" where
  "put_calc (I8 w) = u32_bytes (ucast w)"
| "put_calc (I16 w) = u32_bytes (ucast w)"
| "put_calc (I32 w) = u32_bytes w"
| "put_calc (Vec32 ws) = put_list u32_bytes ws"
| "put_calc (Vec64 ws) = put_list u64_bytes ws"
| "put_calc (Ptr32 q) = put_list u32_bytes (case q of None \<Rightarrow> [] | Some w \<Rightarrow> [w])"
| "put_calc (SizeT w) = u64_bytes w"

primrec take_calc :: "calc_type \<Rightarrow> byte list \<Rightarrow> (calc_value \<times> byte list) option" where
  "take_calc TI8 bs = map_option (apfst (\<lambda>w. I8 (ucast w))) (take_u32 bs)"
| "take_calc TI16 bs = map_option (apfst (\<lambda>w. I16 (ucast w))) (take_u32 bs)"
| "take_calc TI32 bs = map_option (apfst I32) (take_u32 bs)"
| "take_calc TVec32 bs = map_option (apfst Vec32) (take_all take_u32 bs)"
| "take_calc TVec64 bs = map_option (apfst Vec64) (take_all take_u64 bs)"
| "take_calc TPtr32 bs = map_option (apfst (\<lambda>ws. Ptr32 (case ws of [] \<Rightarrow> None | w # _ \<Rightarrow> Some w)))
     (take_all take_u32 bs)"
| "take_calc TSizeT bs = map_option (apfst SizeT) (take_u64 bs)"

lemma take_put_calc: "take_calc (calc_type_of v) (put_calc v @ r) = Some (v, r)"
proof (cases v)
  case (I8 w)
  have "ucast (ucast w :: u32) = w" by (rule bit_word_eqI) (auto simp: bit_simps)
  then show ?thesis using I8 by (simp add: take_put_u32)
next
  case (I16 w)
  have "ucast (ucast w :: u32) = w" by (rule bit_word_eqI) (auto simp: bit_simps)
  then show ?thesis using I16 by (simp add: take_put_u32)
qed (simp_all add: take_put_u32 take_put_u64 take_all_put split: option.split)

primrec put_calc_item :: "calc_value item \<Rightarrow> byte list" where
  "put_calc_item (IString s) = put_string s"
| "put_calc_item (IInt n) = u32_bytes n"
| "put_calc_item (IValue v) = put_calc v"

definition calc_archive :: "(byte list, calc_type, calc_value) archive" where
  "calc_archive =
     \<lparr>ar_write = (\<lambda>_ xs. concat (map put_calc_item xs)), ar_open = (\<lambda>_ bs. Some bs),
      get_string = take_string, get_int = take_u32, get_value = take_calc,
      value_init = (\<lambda>_. I32 0)\<rparr>"

lemma put_calc_nonempty [simp]: "put_calc v \<noteq> []"
  by (cases v) (simp_all add: u32_bytes_def u64_bytes_def)

lemma reads_calc: "reads calc_archive calc_type_of (concat (map put_calc_item xs)) xs"
proof (induction xs)
  case (Cons x xs)
  then show ?case
    by (cases x) (auto simp: calc_archive_def take_put_string take_put_u32 take_put_calc)
qed simp

lemma calc_archive_ok: "archive_ok calc_archive calc_type_of"
proof -
  have "concat (map put_calc_item xs) \<noteq> []" if "xs \<noteq> []" for xs
  proof -
    have "put_calc_item x \<noteq> []" for x
      by (cases x) (simp_all add: u32_bytes_def)
    then show ?thesis using that by auto
  qed
  moreover have "ar_write calc_archive b xs = concat (map put_calc_item xs)"
    "ar_open calc_archive b bs = Some bs" for b xs bs
    by (simp_all add: calc_archive_def)
  ultimately show ?thesis
    using reads_calc by (simp add: archive_ok_def)
qed

section \<open>A client and a service\<close>

definition calc_cfg :: "(sample_socket, byte list, calc_type, calc_value) client_cfg" where
  "calc_cfg =
     \<lparr>cf_io = sample_io, cf_archive = calc_archive, cf_reusable = True, cf_endian = LittleEndian,
      cf_interface = ''CalculatorInterface'', cf_event = None, cf_max_calls = 3,
      cf_host = ''127.0.0.1'', cf_service = ''56789''\<rparr>"

definition calc_service_cfg ::
  "(sample_socket, byte list, calc_type, calc_value, sample_acceptor) service_cfg" where
  "calc_service_cfg =
     \<lparr>sc_io = sample_io, sc_accept = sample_accept_io, sc_arch = calc_archive,
      sc_reusable = True, sc_endian = LittleEndian, sc_interface = ''CalculatorInterface'',
      sc_what = (\<lambda>e. [])\<rparr>"

lemma calc_cfg_simps [simp]:
  "cf_io calc_cfg = sample_io" "cf_archive calc_cfg = calc_archive"
  "cf_endian calc_cfg = LittleEndian" "cf_interface calc_cfg = ''CalculatorInterface''"
  "sc_io calc_service_cfg = sample_io" "sc_arch calc_service_cfg = calc_archive"
  "sc_endian calc_service_cfg = LittleEndian" "sc_interface calc_service_cfg = ''CalculatorInterface''"
  by (simp_all add: calc_cfg_def calc_service_cfg_def)

text \<open>A timer that only remembers the waits; setting it anew takes them off.\<close>

definition calc_timer :: "calc_wait list calc_timer_lib" where
  "calc_timer = \<lparr>ct_expires_from_now = (\<lambda>_ _. []), ct_async_wait = (\<lambda>w t. t @ [w])\<rparr>"

definition calc_client :: "(sample_socket, calc_type, calc_value) client" where
  "calc_client =
     \<lparr>myTransport = sample_peer False, myArchives = True, myMessenger = new_messenger,
      myCallQueue = empty_queue, myClosures = [], myEventListeners = [], myThreadId = 1,
      runningThread = 1, callbacks = []\<rparr>"

definition calc_state :: "(sample_socket, sample_acceptor, calc_wait list) calc_service" where
  "calc_state =
     \<lparr>svTransports = (\<lambda>_. sample_peer False),
      myClients = [(1, \<lparr>cs_messenger = new_messenger, cs_archives = True\<rparr>)], myPendingCalls = [],
      myAcceptor = \<lparr>ac_socket = \<lparr>listening = True, port_taken = False, accepting = 1\<rparr>,
        ac_listener = True, ac_alive = True\<rparr>,
      svThreadId = 1, svRunningThread = 1, svUser = \<lparr>myResultTimer = [], cd_closed = 0\<rparr>\<rparr>"

lemma calc_connected:
  "connected calc_cfg calc_client calc_service_cfg 1 \<lparr>cs_messenger = new_messenger, cs_archives = True\<rparr> calc_state"
  by (auto simp: connected_def calc_client_def calc_state_def sample_peer_def client_ready_def
      can_receive_def at_header_def fifo_ok_def tr_is_open_def new_messenger_def HEADER_SIZE_def
      empty_queue_def service_inv_def client_open_at_def service_at_header_def)

end
