(* ===== verification/Calculator_Spec.thy ===== *)
theory Calculator_Spec
  imports Sample_Calculator
begin

text \<open>
  What the calculator promises: the dictionary its constructor builds, the answers of its
  functions at the widths of the arguments, and an addition from the client's stub to the
  client's closure.
\<close>

section \<open>The dictionary\<close>

definition calc_entry :: "calc_type list \<Rightarrow> calc_type option \<Rightarrow> ('k, 'a, 't) calc_function \<Rightarrow>
    (calc_type, calc_value, ('k, 'a, 't) calc_service) dict_entry" where
  "calc_entry ts r f = \<lparr>de_func = f, de_args = ts, de_result = r, de_one_way = (r = None)\<rparr>"

definition calc_dict :: "('k, 'i, calc_type, calc_value, 'a) service_cfg \<Rightarrow> 't calc_timer_lib \<Rightarrow>
    ('k, calc_type, calc_value, 'a, 't calc_data) service_dict" where
  "calc_dict cfg T = [
     make_fully_qualified_name cfg ''add'' \<mapsto> calc_entry [TI8, TI16, TI32] (Some TI32) (calc_add cfg),
     make_fully_qualified_name cfg ''add_vector'' \<mapsto>
       calc_entry [TVec32, TVec32] (Some TVec64) (calc_add_vector cfg),
     make_fully_qualified_name cfg ''add_and_delay_result'' \<mapsto>
       calc_entry [TI32, TI32] (Some TI32) (calc_add_and_delay_result T),
     make_fully_qualified_name cfg ''get_connected_clients_count'' \<mapsto>
       calc_entry [] (Some TSizeT) (calc_get_connected_clients_count cfg),
     make_fully_qualified_name cfg ''add_by_pointers'' \<mapsto>
       calc_entry [TPtr32, TPtr32] (Some TI32) (calc_add_by_pointers cfg),
     make_fully_qualified_name cfg ''close_service'' \<mapsto> calc_entry [] None calc_close_service]"

lemma calc_register_dict:
  "svRunningThread s = svThreadId s \<Longrightarrow> calc_register cfg T s = Some (Ret (calc_dict cfg T) s)"
  by (simp add: calc_register_def service_check_thread_def add_function_def result_type_traits_def
      remove_last_type_of_def calc_dict_def calc_entry_def)

lemma calc_registerD:
  "calc_register cfg T s = Some (Ret D s') \<Longrightarrow> D = calc_dict cfg T \<and> s' = s"
  by (cases "svRunningThread s = svThreadId s")
     (simp_all add: calc_register_dict, simp_all add: calc_register_def service_check_thread_def)

lemma calc_dict_add:
  "calc_dict cfg T (make_fully_qualified_name cfg ''add'') =
   Some (calc_entry [TI8, TI16, TI32] (Some TI32) (calc_add cfg))"
  by (simp add: calc_dict_def make_fully_qualified_name_def)

section \<open>Answers\<close>

definition calc_sum_result :: "8 word \<Rightarrow> 16 word \<Rightarrow> 32 word \<Rightarrow> calc_value result" where
  "calc_sum_result a b c =
     (let t = sint a + sint b + sint c
      in if t > INT32_MAX then Result_error (Some (I32 0)) value_too_large
         else Result_value (I32 (word_of_int t)) Error_none)"

lemma calc_add_answers:
  "calc_add cfg [I8 a, I16 b, I32 c] (Some cl) s = run_service_closure cfg cl (calc_sum_result a b c) s"
  by (simp add: calc_add_def calc_sum_result_def Let_def)

lemma sint_add_bounds:
  fixes a :: "8 word" and b :: "16 word" and c :: "32 word"
  shows "- 2147516544 \<le> sint a + sint b + sint c" and "sint a + sint b + sint c \<le> 2147516541"
  using sint_range_size [of a] sint_range_size [of b] sint_range_size [of c]
  by (simp_all add: word_size)

lemma sint_of_int32: "INT32_MIN \<le> t \<Longrightarrow> t \<le> INT32_MAX \<Longrightarrow> sint (word_of_int t :: 32 word) = t"
  by (simp add: INT32_MIN_def INT32_MAX_def sint_sbintrunc' signed_take_bit_int_eq_self)

lemma sint_of_int64:
  "- 9223372036854775808 \<le> t \<Longrightarrow> t < 9223372036854775808 \<Longrightarrow> sint (word_of_int t :: 64 word) = t"
  by (simp add: sint_sbintrunc' signed_take_bit_int_eq_self)

lemma sint_of_int32_low:
  assumes "- 2147516544 \<le> t" and "t < INT32_MIN"
  shows "sint (word_of_int t :: 32 word) = t + 4294967296"
proof -
  have "(word_of_int t :: 32 word) = word_of_int (t + 4294967296)"
    by (simp add: word_of_int_eq_iff take_bit_eq_mod)
  also have "sint \<dots> = t + 4294967296"
    using assms by (intro sint_of_int32) (simp_all add: INT32_MIN_def INT32_MAX_def)
  finally show ?thesis .
qed

text \<open>The value and the code a client reads, by the range of the sum.\<close>

lemma calc_sum_received:
  assumes "t = sint a + sint b + sint c" and "r = received_result A (Some TI32) (calc_sum_result a b c)"
  shows "(t > INT32_MAX \<longrightarrow> myNetLibCode (myError r) = 75) \<and>
    (t \<le> INT32_MAX \<longrightarrow> myNetLibCode (myError r) = 0 \<and>
       (\<exists>w. res_value r = Some (I32 w) \<and> sint w = (if t < INT32_MIN then t + 4294967296 else t)))"
proof (cases "t > INT32_MAX")
  case True
  then show ?thesis
    using assms by (simp add: received_result_def calc_sum_result_def result_defs
        value_too_large_def Error_of_code_def Error_of_message_def)
next
  case False
  then have "sint (word_of_int t :: 32 word) = (if t < INT32_MIN then t + 4294967296 else t)"
    using sint_of_int32 [of t] sint_of_int32_low [of t] sint_add_bounds [of a b c] assms(1) by auto
  then show ?thesis
    using assms False by (simp add: received_result_def calc_sum_result_def result_defs Error_none_def Error_of_message_def)
qed

section \<open>From the client to the service and back\<close>

lemma calculator_add:
  fixes S S0 S0' :: "('l, 'a, 't) calc_service"
  assumes "connected cfg s scfg p cs S" and "archive_ok (sc_arch scfg) calc_type_of"
    and "calc_register scfg T S0 = Some (Ret D S0')"
    and "fn = full_name cfg ''add''" and "outstanding fn s = []"
    and "(fn, p) \<notin> set (myPendingCalls S)" and "clo_fun cl = Some n" and "clo_type cl = Some TI32"
    and "t = sint a + sint b + sint c"
    and "cb = call_body (sc_arch scfg) (cs_archives cs) fn [I8 a, I16 b, I32 c]"
    and "rb = result_body (sc_arch scfg) (cs_archives cs) fn (calc_sum_result a b c)"
    and "carries (cf_io cfg) (cf_endian cfg) cb (mySocket (myTransport s)) k"
    and "carries (sc_io scfg) (sc_endian scfg) rb
           (io_async_read (sc_io scfg) (length cb) (mySocket (svTransports S p))) k'"
    and "concat pieces = frame (sc_endian scfg) rb"
  shows "\<exists>s1 S1 s2 r.
     calc_client_add passive_user cfg a b c cl s = Ret () s1 \<and>
     service_pump scfg D p (frame (cf_endian cfg) cb) S = Ret [] S1 \<and>
     client_feed passive_user cfg pieces s1 = Ret [] s2 \<and>
     callbacks s2 = callbacks s @ [OnResult n r] \<and> outstanding fn s2 = [] \<and>
     (t > INT32_MAX \<longrightarrow> myNetLibCode (myError r) = 75) \<and>
     (t \<le> INT32_MAX \<longrightarrow> myNetLibCode (myError r) = 0 \<and>
        (\<exists>w. res_value r = Some (I32 w) \<and> sint w = (if t < INT32_MIN then t + 4294967296 else t)))"
proof -
  let ?r = "calc_sum_result a b c"
  let ?e = "calc_entry [TI8, TI16, TI32] (Some TI32) (calc_add scfg :: ('l, 'a, 't) calc_function)"
  have con: "sc_interface scfg = cf_interface cfg"
    using assms(1) by (simp add: connected_def)
  have D: "D fn = Some ?e"
    using calc_registerD [OF assms(3)] calc_dict_add [of scfg T] con assms(4)
    by (simp add: make_fully_qualified_name_def myFuncPrefix_def)
  have e: "\<not> de_one_way ?e" "map calc_type_of [I8 a, I16 b, I32 c] = de_args ?e"
      "\<And>c' s'. de_func ?e [I8 a, I16 b, I32 c] (Some c') s' = run_service_closure scfg c' ?r s'"
    by (simp_all add: calc_entry_def calc_add_answers)
  have names: "fn \<noteq> myBroadcastFuncName cfg"
    using assms(4) by (simp add: myFuncPrefix_def myBroadcastFuncName_def)
  have ty: "result_has_type calc_type_of (clo_type cl) ?r"
    using assms(8) by (simp add: calc_sum_result_def result_has_type_def result_defs Let_def
        value_too_large_def Error_of_code_def)
  obtain s1 S1 s2 where "calc_client_add passive_user cfg a b c cl s = Ret () s1"
      "service_pump scfg D p (frame (cf_endian cfg) cb) S = Ret [] S1"
      "client_feed passive_user cfg pieces s1 = Ret [] s2" "outstanding fn s2 = []"
      "callbacks s2 = callbacks s @ [OnResult n (received_result (sc_arch scfg) (clo_type cl) ?r)]"
    using remote_call [of cfg s scfg p cs S calc_type_of fn "''add''" cl n ?r D ?e "[I8 a, I16 b, I32 c]"
        cb rb k k' pieces, OF assms(1,2,4) names assms(5-7) ty D e assms(10-14)]
    by (auto simp: calc_client_add_def)
  then show ?thesis
    using calc_sum_received [OF assms(9) refl, of "sc_arch scfg"] assms(8) by fastforce
qed

text \<open>
  C29: Adding three numbers over the connection. The client's stub sends the call, the service
  that registered the calculator's functions answers it, and the closure is called once: with
  the exact sum if it fits into 32 bits, with the error \<open>EOVERFLOW\<close> if it is too large - and
  with the sum plus $2^{32}$ and no error if it is too small, a case the code does not look at.
\<close>

theorem calculator_add_returns:
  fixes S S0 S0' :: "('l, 'a, 't) calc_service"
  assumes "connected cfg s scfg p cs S" and "archive_ok (sc_arch scfg) calc_type_of"
    and "calc_register scfg T S0 = Some (Ret D S0')"
    and "fn = full_name cfg ''add''" and "outstanding fn s = []"
    and "(fn, p) \<notin> set (myPendingCalls S)" and "clo_fun cl = Some n" and "clo_type cl = Some TI32"
    and "t = sint a + sint b + sint c"
    and "cb = call_body (sc_arch scfg) (cs_archives cs) fn [I8 a, I16 b, I32 c]"
    and "rb = result_body (sc_arch scfg) (cs_archives cs) fn (calc_sum_result a b c)"
    and "carries (cf_io cfg) (cf_endian cfg) cb (mySocket (myTransport s)) k"
    and "carries (sc_io scfg) (sc_endian scfg) rb
           (io_async_read (sc_io scfg) (length cb) (mySocket (svTransports S p))) k'"
    and "concat pieces = frame (sc_endian scfg) rb"
  shows "\<exists>s1 S1 s2 r.
     calc_client_add passive_user cfg a b c cl s = Ret () s1 \<and>
     service_pump scfg D p (frame (cf_endian cfg) cb) S = Ret [] S1 \<and>
     client_feed passive_user cfg pieces s1 = Ret [] s2 \<and>
     callbacks s2 = callbacks s @ [OnResult n r] \<and> outstanding fn s2 = [] \<and>
     (t > INT32_MAX \<longrightarrow> myNetLibCode (myError r) = 75) \<and>
     (t \<le> INT32_MAX \<longrightarrow> myNetLibCode (myError r) = 0 \<and>
        (\<exists>w. res_value r = Some (I32 w) \<and> sint w = (if t < INT32_MIN then t + 4294967296 else t)))"
  using assms by (rule calculator_add)

theorem calculator_add_returns_witness:
  "\<exists>s1 S1 s2 r bs.
     calc_client_add passive_user calc_cfg 1 2 2147483647 \<lparr>clo_fun = Some 7, clo_type = Some TI32\<rparr> calc_client = Ret () s1 \<and>
     service_pump calc_service_cfg (calc_dict calc_service_cfg calc_timer) 1
       (frame LittleEndian (call_body calc_archive True ''CalculatorInterface::add'' [I8 1, I16 2, I32 2147483647]))
       calc_state = Ret [] S1 \<and>
     client_feed passive_user calc_cfg [frame LittleEndian bs] s1 = Ret [] s2 \<and>
     callbacks s2 = [OnResult 7 r] \<and> myNetLibCode (myError r) = 75"
proof -
  let ?fn = "''CalculatorInterface::add''"
  let ?cl = "\<lparr>clo_fun = Some 7, clo_type = Some TI32\<rparr> :: calc_type closure"
  let ?cb = "call_body calc_archive True ?fn [I8 1, I16 2, I32 2147483647]"
  let ?rb = "result_body calc_archive True ?fn (calc_sum_result 1 2 2147483647)"
  have reg: "calc_register calc_service_cfg calc_timer calc_state =
      Some (Ret (calc_dict calc_service_cfg calc_timer) calc_state)"
    by (simp add: calc_register_dict calc_state_def)
  have r: "calc_sum_result 1 2 2147483647 = Result_error (Some (I32 0)) value_too_large"
    by (simp add: calc_sum_result_def INT32_MAX_def)
  have "length ?cb = 61" "length ?rb = 128"
    unfolding r by (simp_all add: call_body_def result_body_def serialize_defs calc_archive_def u32_bytes_def
        save_result_def save_error_def result_defs value_too_large_def Error_of_code_def)
  then have ok: "body_ok ?cb" "body_ok ?rb"
    by (auto simp: body_ok_def HEADER_SIZE_def)
  let ?k = "(mySocket (myTransport calc_client))\<lparr>sent := sent (mySocket (myTransport calc_client)) @ frame LittleEndian ?cb\<rparr>"
  let ?r0 = "io_async_read (sc_io calc_service_cfg) (length ?cb) (mySocket (svTransports calc_state 1))"
  have carr: "carries (cf_io calc_cfg) (cf_endian calc_cfg) ?cb (mySocket (myTransport calc_client)) ?k"
      "carries (sc_io calc_service_cfg) (sc_endian calc_service_cfg) ?rb ?r0
         (?r0\<lparr>sent := sent ?r0 @ frame LittleEndian ?rb\<rparr>)"
    using ok by (simp_all add: carries_def sample_io_def ec_samples ec_ok_def
        calc_state_def calc_client_def sample_peer_def)
  have start: "?fn = full_name calc_cfg ''add''" "outstanding ?fn calc_client = []"
      "(?fn, 1) \<notin> set (myPendingCalls calc_state)" "archive_ok (sc_arch calc_service_cfg) calc_type_of"
    by (simp_all add: myFuncPrefix_def calc_cfg_def outstanding_def calc_client_def calc_state_def
        empty_queue_def) (simp add: calc_service_cfg_def calc_archive_ok)
  note add = calculator_add_returns [OF calc_connected start(4) reg start(1-3) _ _ refl _ _ carr,
      of ?cl 7 1 2 2147483647 "[frame LittleEndian ?rb]"]
  obtain s1 S1 s2 r where "calc_client_add passive_user calc_cfg 1 2 2147483647 ?cl calc_client = Ret () s1"
      "service_pump calc_service_cfg (calc_dict calc_service_cfg calc_timer) 1 (frame LittleEndian ?cb) calc_state =
         Ret [] S1"
      "client_feed passive_user calc_cfg [frame LittleEndian ?rb] s1 = Ret [] s2"
      "callbacks s2 = callbacks calc_client @ [OnResult 7 r]" "myNetLibCode (myError r) = 75"
    using add by (simp add: INT32_MAX_def) blast
  moreover have "callbacks calc_client = []"
    by (simp add: calc_client_def)
  ultimately show ?thesis
    by fastforce
qed

text \<open>
  Adding vectors answers with the sums of the components, none of which can overflow in 64
  bits, or with an empty vector if the lengths differ.
\<close>

lemma add_vector_exact:
  "\<exists>r. calc_add_vector cfg [Vec32 a, Vec32 b] (Some cl) s =
         run_service_closure cfg cl (Result_value (Vec64 r) Error_none) s \<and>
       map sint r = (if length a = length b then map2 (\<lambda>x y. sint x + sint y) a b else [])"
proof -
  have "sint (word_of_int (sint x + sint y) :: 64 word) = sint x + sint y" for x y :: "32 word"
    using sint_range_size [of x] sint_range_size [of y] by (intro sint_of_int64) (simp_all add: word_size)
  then show ?thesis
    by (auto simp: calc_add_vector_def Let_def split_def simp del: of_int_add)
qed

end
