(* ===== verification/Boost_Adapter.thy ===== *)
theory Boost_Adapter
  imports Serialization
begin

text \<open>
  The Boost.Serialization adapter (\<open>boost/serialization.h\<close>, \<open>boost/types.h\<close>), definition by
  definition as the code has it, and its agreement with the adapter of Cereal: the same items
  in the same order, so that every fact about messages holds for both. An archive operation
  \<open>ar & x\<close> appends an item on output and reads one on input.
\<close>

section \<open>Errors and results\<close>

definition boost_save_error :: "cerror \<Rightarrow> 'v item list" where
  "boost_save_error e =
     (let errCode = myNetLibCode e in [IInt errCode] @ [IString (myErrorMessage e)])"

definition boost_load_error :: "('i, 'ty, 'v) archive \<Rightarrow> 'i \<Rightarrow> (cerror \<times> 'i) option" where
  "boost_load_error A i =
     Option.bind (get_int A i) (\<lambda>(errCode, i1).
     Option.bind (get_string A i1) (\<lambda>(errMsg, i2).
       Some (Error_of_message errCode errMsg, i2)))"

definition boost_save_value_result :: "'v \<Rightarrow> cerror \<Rightarrow> 'v item list" where
  "boost_save_value_result v e =
     boost_save_error e @ (if myNetLibCode e = 0 then [IValue v] else [])"

definition boost_save_void_result :: "cerror \<Rightarrow> 'v item list" where
  "boost_save_void_result e = boost_save_error e"

text \<open>The value type of a result decides which of the overloads is taken.\<close>

definition boost_save_result :: "'v result \<Rightarrow> 'v item list" where
  "boost_save_result r =
     (case res_value r of
        None \<Rightarrow> boost_save_void_result (myError r)
      | Some v \<Rightarrow> boost_save_value_result v (myError r))"

definition boost_load_value_result :: "('i, 'ty, 'v) archive \<Rightarrow> 'ty \<Rightarrow> 'v result \<Rightarrow> 'i \<Rightarrow>
    ('v result \<times> 'i) option" where
  "boost_load_value_result A ty res i =
     Option.bind (boost_load_error A i) (\<lambda>(error, i1).
       let res1 = set_error error res in
       if myNetLibCode error = 0
       then Option.bind (get_value A ty i1) (\<lambda>(v, i2). Some (set_value v res1, i2))
       else Some (res1, i1))"

definition boost_load_void_result :: "('i, 'ty, 'v) archive \<Rightarrow> 'v result \<Rightarrow> 'i \<Rightarrow>
    ('v result \<times> 'i) option" where
  "boost_load_void_result A res i =
     Option.bind (boost_load_error A i) (\<lambda>(error, i1). Some (set_error error res, i1))"

section \<open>Archives and messages\<close>

text \<open>
  Archive options: without a header and a character conversion if archives are reused. The
  archive is made only then; otherwise each message makes its own.
\<close>

datatype arch_option = no_header | no_codecvt

definition get_arch_option :: "bool \<Rightarrow> arch_option list" where
  "get_arch_option reusable = (if reusable then [no_header, no_codecvt] else [])"

definition boost_create_archive :: "bool \<Rightarrow> arch_option list option" where
  "boost_create_archive reusable = (if reusable then Some (get_arch_option reusable) else None)"

fun boost_serialize_args :: "'v list \<Rightarrow> 'v item list" where
  "boost_serialize_args [] = []"
| "boost_serialize_args [arg] = [IValue arg]"
| "boost_serialize_args (arg # args) = IValue arg # boost_serialize_args args"

definition boost_serialize_call :: "('i, 'ty, 'v) archive \<Rightarrow> bool \<Rightarrow> string \<Rightarrow> 'v list \<Rightarrow> byte list" where
  "boost_serialize_call A ar functionName args =
     reserve_message_header @
     (if \<not> ar then ar_write A False ([IString functionName] @ boost_serialize_args args)
      else ar_write A True ([IString functionName] @ boost_serialize_args args))"

definition boost_serialize_call_result :: "('i, 'ty, 'v) archive \<Rightarrow> bool \<Rightarrow> string \<Rightarrow> 'v result \<Rightarrow>
    byte list" where
  "boost_serialize_call_result A ar functionName res =
     reserve_message_header @
     (if \<not> ar then ar_write A False ([IString functionName] @ boost_save_result res)
      else ar_write A True ([IString functionName] @ boost_save_result res))"

definition boost_serialize_event :: "('i, 'ty, 'v) archive \<Rightarrow> bool \<Rightarrow> string \<Rightarrow> 'v \<Rightarrow> byte list" where
  "boost_serialize_event A ar funcName ev =
     reserve_message_header @
     (if \<not> ar then ar_write A False ([IString funcName] @ [IValue ev])
      else ar_write A True ([IString funcName] @ [IValue ev]))"

definition boost_deserialize_call :: "('i, 'ty, 'v) archive \<Rightarrow> bool \<Rightarrow> byte list \<Rightarrow>
    (string \<times> 'i) option" where
  "boost_deserialize_call A ar msg =
     (if \<not> ar then Option.bind (ar_open A False msg) (get_string A)
      else Option.bind (ar_open A True msg) (get_string A))"

definition boost_deserialize_arg :: "('i, 'ty, 'v) archive \<Rightarrow> 'ty \<Rightarrow> 'i \<Rightarrow> ('v \<times> 'i) option" where
  "boost_deserialize_arg A ty i = get_value A ty i"

definition boost_deserialize_result :: "('i, 'ty, 'v) archive \<Rightarrow> 'ty option \<Rightarrow> 'i \<Rightarrow> 'v result option" where
  "boost_deserialize_result A ty i =
     (case ty of
        None \<Rightarrow> map_option fst (boost_load_void_result A (Result_error None Error_none) i)
      | Some t \<Rightarrow>
          map_option fst (boost_load_value_result A t (Result_error (Some (value_init A t)) Error_none) i))"

definition boost_deserialize_event :: "('i, 'ty, 'v) archive \<Rightarrow> 'ty \<Rightarrow> 'i \<Rightarrow> 'v option" where
  "boost_deserialize_event A ty i = Option.bind (get_value A ty i) (\<lambda>(ev, _). Some ev)"

section \<open>Agreement with the Cereal adapter\<close>

lemma boost_save_error_eq: "boost_save_error e = save_error e"
  by (simp add: boost_save_error_def save_error_def)

lemma boost_save_result_eq: "boost_save_result r = save_result r"
  by (simp add: boost_save_result_def boost_save_void_result_def boost_save_value_result_def
      save_result_def boost_save_error_eq split: option.split)

lemma boost_load_error_eq: "boost_load_error A i = load_error A i"
  by (simp add: boost_load_error_def load_error_def Option.bind_def split: option.split)

lemma boost_args_eq: "boost_serialize_args args = serialize_args args"
  by (induction args rule: boost_serialize_args.induct) (simp_all add: serialize_args_def)

lemma boost_result_eq: "boost_deserialize_result A ty i = deserialize_result A ty i"
  by (cases ty)
     (auto simp: boost_deserialize_result_def deserialize_result_def boost_load_void_result_def
        boost_load_value_result_def boost_load_error_eq Let_def Option.bind_def split: option.split)

lemma boost_event_eq: "boost_deserialize_event A ty i = deserialize_event A ty i"
  by (cases "get_value A ty i") (auto simp: boost_deserialize_event_def deserialize_event_def)


end
