(* ===== verification/Clock.thy ===== *)
theory Clock
  imports Service Client
begin

text \<open>
  The clock example (\<open>examples/cerclock/clockinterface.h\<close>, \<open>clockservice.cpp\<close>, \<open>clockclient.h\<close>): a
  service with alarms and periodic ticks, which it broadcasts as events. The timers and the
  event loop are third-party code: the operations of a timer are parameters, and the waits that
  have not completed yet are recorded, since each of them runs its handler exactly once.
\<close>

section \<open>Values and events\<close>

datatype clock_event =
    ClockAlarmEvent "32 word" string
  | ClockTickEvent "64 word"

datatype clock_value =
    VString string
  | VMillis "64 word"
  | VDuration "64 word"
  | VTime "64 word"
  | VAlarmId "32 word"
  | VInt cint
  | VEvent clock_event

datatype clock_type = TString | TMillis | TDuration | TTime | TAlarmId | TInt | TEvent

primrec clock_type_of :: "clock_value \<Rightarrow> clock_type" where
  "clock_type_of (VString _) = TString"
| "clock_type_of (VMillis _) = TMillis"
| "clock_type_of (VDuration _) = TDuration"
| "clock_type_of (VTime _) = TTime"
| "clock_type_of (VAlarmId _) = TAlarmId"
| "clock_type_of (VInt _) = TInt"
| "clock_type_of (VEvent _) = TEvent"

fun get_class_name :: "clock_event \<Rightarrow> string" where
  "get_class_name (ClockAlarmEvent i tag) = ''ClockAlarmEvent''"
| "get_class_name (ClockTickEvent t) = ''ClockTickEvent''"

section \<open>The state of the service\<close>

text \<open>
  A timer is set to a point in time in nanoseconds, or some milliseconds from now; setting it
  or cancelling it makes its waits complete with \<open>operation_aborted\<close>.
\<close>

record 't timer_lib =
  tm_new :: "64 word \<Rightarrow> 't"
  tm_expiry :: "'t \<Rightarrow> 64 word"
  tm_expires_at :: "64 word \<Rightarrow> 't \<Rightarrow> 't"
  tm_expires_from_now :: "64 word \<Rightarrow> 't \<Rightarrow> 't"
  tm_async_wait :: "'t \<Rightarrow> 't"
  tm_cancel :: "'t \<Rightarrow> 't"

text \<open>\<open>al_node\<close> is the identity of the list node, to which the handler of the wait keeps a reference.\<close>

record 't alarm =
  al_node :: nat
  myTimer :: 't
  myTag :: string
  myId :: "32 word"

text \<open>
  The members, the counter of the file, the flags of the event loop, the system clock, and the
  nodes whose waits have not completed.
\<close>

record 't clock_data =
  nextAlarmId :: "32 word"
  myAlarms :: "'t alarm list"
  myTickTimer :: 't
  myTickInterval :: "64 word"
  ios_work :: bool
  ios_stopped :: bool
  system_clock :: "64 word"
  alarm_waits :: "nat list"

type_synonym ('k, 'a, 't) clock_service = "('k, 'a, 't clock_data) service"

type_synonym ('k, 'a, 't) clock_function = "(clock_value, ('k, 'a, 't) clock_service) service_function"

abbreviation upd_clock :: "('t clock_data \<Rightarrow> 't clock_data) \<Rightarrow> ('k, 'a, 't) clock_service \<Rightarrow>
    ('k, 'a, 't) clock_service" where
  "upd_clock f s \<equiv> s\<lparr>svUser := f (svUser s)\<rparr>"

section \<open>Service functions\<close>

definition clock_get_time :: "('k, 'i, clock_type, clock_value, 'a) service_cfg \<Rightarrow> ('k, 'a, 't) clock_function" where
  "clock_get_time cfg args cl s =
     (case (args, cl) of
        ([], Some cl) \<Rightarrow>
          run_service_closure cfg cl (Result_value (VTime (system_clock (svUser s))) Error_none) s
      | _ \<Rightarrow> Exn (Undefined ''arguments of other types'') s)"

text \<open>Addition of an interval in milliseconds to a point in time in nanoseconds.\<close>

definition add_millis :: "64 word \<Rightarrow> 64 word \<Rightarrow> 64 word option" where
  "add_millis t d =
     (let r = sint t + sint d * 1000000
      in if r < - (2 ^ 63) \<or> r \<ge> 2 ^ 63 then None else Some (word_of_int r))"

definition clock_tickTimer :: "('k, 'i, clock_type, clock_value, 'a) service_cfg \<Rightarrow> 't timer_lib \<Rightarrow>
    error_code \<Rightarrow> ('k, 'a, 't) clock_service \<Rightarrow> (unit, ('k, 'a, 't) clock_service) res" where
  "clock_tickTimer cfg T ec s =
     (if \<not> operation_aborted ec then
        bind_res (broadcast cfg (VEvent (ClockTickEvent (system_clock (svUser s)))) s) (\<lambda>_ s1.
          if myTickInterval (svUser s1) \<noteq> 0 then
            (case add_millis (tm_expiry T (myTickTimer (svUser s1))) (myTickInterval (svUser s1)) of
               None \<Rightarrow> Exn (Undefined ''signed integer overflow'') s1
             | Some t \<Rightarrow> Ret () (upd_clock (\<lambda>u. u\<lparr>myTickTimer :=
                 tm_async_wait T (tm_expires_at T t (myTickTimer u))\<rparr>) s1))
          else Ret () s1)
      else Ret () s)"

definition clock_set_tick_interval :: "('k, 'i, clock_type, clock_value, 'a) service_cfg \<Rightarrow> 't timer_lib \<Rightarrow>
    ('k, 'a, 't) clock_function" where
  "clock_set_tick_interval cfg T args cl s =
     (case (args, cl) of
        ([VMillis tickInterval], Some cl) \<Rightarrow>
          let s1 = upd_clock (\<lambda>u. u\<lparr>myTickInterval := tickInterval, myTickTimer := tm_cancel T (myTickTimer u)\<rparr>) s;
              s2 = (if tickInterval \<noteq> 0
                    then upd_clock (\<lambda>u. u\<lparr>myTickTimer :=
                      tm_async_wait T (tm_expires_from_now T tickInterval (myTickTimer u))\<rparr>) s1
                    else s1)
          in run_service_closure cfg cl (Result_error None Error_none) s2
      | _ \<Rightarrow> Exn (Undefined ''arguments of other types'') s)"

definition find_alarm :: "32 word \<Rightarrow> 't alarm list \<Rightarrow> 't alarm option" where
  "find_alarm alarmId as = List.find (\<lambda>a. myId a = alarmId) as"

text \<open>A node that is neither in the list nor referred to by a handler.\<close>

definition new_node :: "'t clock_data \<Rightarrow> nat" where
  "new_node u = Suc (foldr max (map al_node (myAlarms u) @ alarm_waits u) 0)"

definition clock_set_alarm :: "('k, 'i, clock_type, clock_value, 'a) service_cfg \<Rightarrow> 't timer_lib \<Rightarrow>
    ('k, 'a, 't) clock_function" where
  "clock_set_alarm cfg T args cl s =
     (case (args, cl) of
        ([VString tag, VDuration after], Some cl) \<Rightarrow>
          let n = new_node (svUser s);
              theAlarm = \<lparr>al_node = n, myTimer = tm_async_wait T (tm_new T after), myTag = tag,
                myId = nextAlarmId (svUser s)\<rparr>;
              s1 = upd_clock (\<lambda>u. u\<lparr>nextAlarmId := nextAlarmId u + 1, myAlarms := myAlarms u @ [theAlarm],
                alarm_waits := n # alarm_waits u\<rparr>) s
          in run_service_closure cfg cl (Result_value (VAlarmId (myId theAlarm)) Error_none) s1
      | _ \<Rightarrow> Exn (Undefined ''arguments of other types'') s)"

text \<open>
  The handler of an alarm's wait, with its reference to the list node. It looks the alarm up
  again by its number to erase it.
\<close>

definition clock_alarm_elapsed :: "('k, 'i, clock_type, clock_value, 'a) service_cfg \<Rightarrow> nat \<Rightarrow> error_code \<Rightarrow>
    ('k, 'a, 't) clock_service \<Rightarrow> (unit, ('k, 'a, 't) clock_service) res" where
  "clock_alarm_elapsed cfg n ec s =
     (case List.find (\<lambda>a. al_node a = n) (myAlarms (svUser s)) of
        None \<Rightarrow> Exn (Undefined ''alarm used after it was erased'') s
      | Some theAlarm \<Rightarrow>
          bind_res (if \<not> operation_aborted ec
                    then broadcast cfg (VEvent (ClockAlarmEvent (myId theAlarm) (myTag theAlarm))) s
                    else Ret () s)
            (\<lambda>_ s1.
            case find_alarm (myId theAlarm) (myAlarms (svUser s1)) of
              None \<Rightarrow> Exn (AssertFailed ''it != shared_this->myAlarms.end()'') s1
            | Some it \<Rightarrow> Ret () (upd_clock (\<lambda>u. u\<lparr>myAlarms :=
                filter (\<lambda>a. al_node a \<noteq> al_node it) (myAlarms u)\<rparr>) s1)))"

definition clock_cancel_alarm :: "('k, 'i, clock_type, clock_value, 'a) service_cfg \<Rightarrow> 't timer_lib \<Rightarrow>
    ('k, 'a, 't) clock_function" where
  "clock_cancel_alarm cfg T args cl s =
     (case (args, cl) of
        ([VAlarmId alarm], Some cl) \<Rightarrow>
          let s1 = (case find_alarm alarm (myAlarms (svUser s)) of
                None \<Rightarrow> s
              | Some it \<Rightarrow> upd_clock (\<lambda>u. u\<lparr>myAlarms :=
                  map (\<lambda>a. if al_node a = al_node it then a\<lparr>myTimer := tm_cancel T (myTimer a)\<rparr> else a)
                    (myAlarms u)\<rparr>) s)
          in run_service_closure cfg cl (Result_error None Error_none) s1
      | _ \<Rightarrow> Exn (Undefined ''arguments of other types'') s)"

definition clock_close_service :: "('k, 'i, clock_type, clock_value, 'a) service_cfg \<Rightarrow> ('k, 'a, 't) clock_function" where
  "clock_close_service cfg args cl s =
     (case (args, cl) of
        ([VString reason], Some cl) \<Rightarrow>
          run_service_closure cfg cl (Result_value (VInt 0) Error_none)
            (upd_clock (\<lambda>u. u\<lparr>ios_work := False, ios_stopped := True\<rparr>) s)
      | _ \<Rightarrow> Exn (Undefined ''arguments of other types'') s)"

text \<open>SIGINT is 2, SIGTERM is 15; an error is only printed.\<close>

definition clock_signal_handler :: "error_code \<Rightarrow> int \<Rightarrow> ('k, 'a, 't) clock_service \<Rightarrow> ('k, 'a, 't) clock_service" where
  "clock_signal_handler ec signal_number s =
     (if signal_number = 2 \<or> signal_number = 15
      then upd_clock (\<lambda>u. u\<lparr>ios_work := False, ios_stopped := True\<rparr>) s else s)"

text \<open>The constructor.\<close>

definition new_clock_data :: "64 word \<Rightarrow> 't \<Rightarrow> 't clock_data" where
  "new_clock_data t timer =
     \<lparr>nextAlarmId = 1, myAlarms = [], myTickTimer = timer, myTickInterval = 0, ios_work = True,
      ios_stopped = False, system_clock = t, alarm_waits = []\<rparr>"

definition clock_register :: "('k, 'i, clock_type, clock_value, 'a) service_cfg \<Rightarrow> 't timer_lib \<Rightarrow>
    ('k, 'a, 't) clock_service \<Rightarrow>
    (('k, clock_type, clock_value, 'a, 't clock_data) service_dict, ('k, 'a, 't) clock_service) res option" where
  "clock_register cfg T s =
     (case add_functions cfg False [''get_time'', ''set_tick_interval'', ''set_alarm'', ''cancel_alarm'']
             [([PClosure (Some TTime)], clock_get_time cfg),
              ([PValue TMillis, PClosure None], clock_set_tick_interval cfg T),
              ([PValue TString, PValue TDuration, PClosure (Some TAlarmId)], clock_set_alarm cfg T),
              ([PValue TAlarmId, PClosure None], clock_cancel_alarm cfg T)] Map.empty s of
        Some (Ret D s1) \<Rightarrow>
          add_functions cfg False [''close_service''] [([PValue TString, PClosure (Some TInt)], clock_close_service cfg)] D s1
      | r \<Rightarrow> r)"

section \<open>The client\<close>

type_synonym ('k, 'i) clock_client_cfg = "('k, 'i, clock_type, clock_value) client_cfg"

type_synonym 'k clock_client = "('k, clock_type, clock_value) client"

definition clock_client_get_time :: "('k, clock_type, clock_value) user \<Rightarrow> ('k, 'i) clock_client_cfg \<Rightarrow>
    clock_type closure \<Rightarrow> 'k clock_client \<Rightarrow> (unit, 'k clock_client) res" where
  "clock_client_get_time U cfg cl s = send_call U cfg ''get_time'' cl [] s"

definition clock_client_set_tick_interval :: "('k, clock_type, clock_value) user \<Rightarrow> ('k, 'i) clock_client_cfg \<Rightarrow>
    64 word \<Rightarrow> clock_type closure \<Rightarrow> 'k clock_client \<Rightarrow> (unit, 'k clock_client) res" where
  "clock_client_set_tick_interval U cfg tickInterval cl s =
     send_call U cfg ''set_tick_interval'' cl [VMillis tickInterval] s"

definition clock_client_set_alarm :: "('k, clock_type, clock_value) user \<Rightarrow> ('k, 'i) clock_client_cfg \<Rightarrow>
    string \<Rightarrow> 64 word \<Rightarrow> clock_type closure \<Rightarrow> 'k clock_client \<Rightarrow> (unit, 'k clock_client) res" where
  "clock_client_set_alarm U cfg tag after cl s = send_call U cfg ''set_alarm'' cl [VString tag, VDuration after] s"

definition clock_client_cancel_alarm :: "('k, clock_type, clock_value) user \<Rightarrow> ('k, 'i) clock_client_cfg \<Rightarrow>
    32 word \<Rightarrow> clock_type closure \<Rightarrow> 'k clock_client \<Rightarrow> (unit, 'k clock_client) res" where
  "clock_client_cancel_alarm U cfg alarm cl s = send_call U cfg ''cancel_alarm'' cl [VAlarmId alarm] s"

definition clock_client_close_service :: "('k, clock_type, clock_value) user \<Rightarrow> ('k, 'i) clock_client_cfg \<Rightarrow>
    string \<Rightarrow> clock_type closure \<Rightarrow> 'k clock_client \<Rightarrow> (unit, 'k clock_client) res" where
  "clock_client_close_service U cfg reason cl s = send_call U cfg ''close_service'' cl [VString reason] s"

end
