(* ===== verification/Clock_Spec.thy ===== *)
theory Clock_Spec
  imports Clock Sample_Service
begin

text \<open>
  What the clock promises about its alarms: in every state it can reach, whatever the library,
  the clients and the timers do, the handler of a pending wait finds its own alarm and erases
  exactly that one.
\<close>

section \<open>The library leaves the data of the service alone\<close>

abbreviation user_is :: "'u \<Rightarrow> ('k, 'a, 'u) service \<Rightarrow> bool" where
  "user_is u s \<equiv> svUser s = u"

lemma user_kept_close:
  "svUser s = u \<Longrightarrow> always (user_is u) (tr_close io (service_lens p) (service_on_disconnected p) s)"
  by (simp add: tr_close_def case_prod_beta Let_def service_lens_def service_on_disconnected_def
      service_check_thread_def)

lemma user_kept_write: "svUser s = u \<Longrightarrow> always (user_is u) (service_write cfg p msg s)"
proof -
  assume s: "svUser s = u"
  have "always (user_is u) (tr_write io (service_lens p) (service_on_disconnected p) m s)" for io m
  proof (cases "io_write io m (mySocket (svTransports s p))")
    case (Pair ec k)
    let ?s1 = "tr_upd (service_lens p) (\<lambda>t. t\<lparr>mySocket := k\<rparr>) s"
    have "svUser ?s1 = u"
      using s by (simp add: service_lens_def)
    then have "always (user_is u) (bind_res (tr_close io (service_lens p) (service_on_disconnected p) ?s1)
        (\<lambda>_ s2. Ret e s2))" for e :: cerror
      by (intro always_bind user_kept_close) simp_all
    then show ?thesis
      using s Pair \<open>svUser ?s1 = u\<close> by (simp add: tr_write_def service_lens_def Let_def)
  qed
  with s show ?thesis
    by (simp add: service_write_def write_message_with_header_def split: sum.split)
qed

lemma user_kept_broadcast_loop: "svUser s = u \<Longrightarrow> always (user_is u) (broadcast_loop cfg ev cs s)"
proof (induction cs arbitrary: s)
  case (Cons c cs)
  obtain p st where c: "c = (p, st)" by (cases c)
  show ?case
    unfolding c broadcast_loop.simps
    using Cons by (intro always_bind user_kept_write) simp_all
qed simp

lemma user_kept_broadcast: "svUser s = u \<Longrightarrow> always (user_is u) (broadcast cfg ev s)"
  by (simp add: broadcast_def service_check_thread_def user_kept_broadcast_loop)

lemma user_kept_closure: "svUser s = u \<Longrightarrow> always (user_is u) (run_service_closure cfg c r s)"
proof -
  assume s: "svUser s = u"
  have "always (user_is u) (send_result cfg p fn msg s)" for p fn msg
  proof (cases "find_pending_call fn p s")
    case (Some call)
    have "always (user_is u) (bind_res (service_write cfg (snd call) msg s) (\<lambda>_. Ret ()))"
      using s by (intro always_bind user_kept_write) simp_all
    then have "always (user_is u) (bind_res (if in_keys (snd call) (myClients s)
          then bind_res (service_write cfg (snd call) msg s) (\<lambda>_. Ret ()) else Ret () s)
        (\<lambda>_ s2. Ret () (s2\<lparr>myPendingCalls := remove1 call (myPendingCalls s2)\<rparr>)))"
      using s by (intro always_bind) simp_all
    then show ?thesis
      using s Some by (simp add: send_result_def o_assert_def)
  qed (use s in \<open>simp add: send_result_def o_assert_def\<close>)
  then show ?thesis
    using s by (simp add: run_service_closure_def)
qed

section \<open>Alarms\<close>

text \<open>
  Nodes are unique and every pending wait belongs to an alarm of the list; the numbers of the
  alarms differ as long as the counter has not wrapped around.
\<close>

definition clock_inv :: "'t clock_data \<Rightarrow> bool" where
  "clock_inv u \<longleftrightarrow>
     distinct (map al_node (myAlarms u)) \<and> distinct (alarm_waits u) \<and>
     set (alarm_waits u) \<subseteq> set (map al_node (myAlarms u)) \<and> distinct (map myId (myAlarms u)) \<and>
     (nextAlarmId u = 0 \<or> (\<forall>i \<in> set (map myId (myAlarms u)). unat i < unat (nextAlarmId u)))"

text \<open>
  The steps of the service: it starts; a client calls a function; a wait of an alarm or of the
  tick timer completes, with any error code; the time passes; the library does what it likes to
  its own part of the state, and so may accept, lose and answer clients. A call is a step only
  while the counter of alarms has not wrapped, that is for $2^{32} - 1$ alarms.
\<close>

inductive clock_reach :: "('k, 'i, clock_type, clock_value, 'a) service_cfg \<Rightarrow> 't timer_lib \<Rightarrow>
    ('k, 'a, 't) clock_service \<Rightarrow> bool" for cfg T where
  start: "svUser s = new_clock_data t timer \<Longrightarrow> clock_reach cfg T s"
| call: "clock_reach cfg T s \<Longrightarrow> clock_register cfg T s0 = Some (Ret D s0') \<Longrightarrow> D fn = Some e \<Longrightarrow>
    nextAlarmId (svUser s) \<noteq> 0 \<Longrightarrow> clock_reach cfg T (res_state (de_func e args cl s))"
| elapsed: "clock_reach cfg T s \<Longrightarrow> n \<in> set (alarm_waits (svUser s)) \<Longrightarrow>
    clock_reach cfg T (res_state (clock_alarm_elapsed cfg n ec
      (upd_clock (\<lambda>u. u\<lparr>alarm_waits := remove1 n (alarm_waits u)\<rparr>) s)))"
| tick: "clock_reach cfg T s \<Longrightarrow> clock_reach cfg T (res_state (clock_tickTimer cfg T ec s))"
| time: "clock_reach cfg T s \<Longrightarrow> clock_reach cfg T (upd_clock (\<lambda>u. u\<lparr>system_clock := t\<rparr>) s)"
| library: "clock_reach cfg T s \<Longrightarrow> svUser s' = svUser s \<Longrightarrow> clock_reach cfg T s'"

lemma clock_inv_upd [simp]:
  "clock_inv (u\<lparr>system_clock := t\<rparr>) = clock_inv u" "clock_inv (u\<lparr>myTickTimer := tm\<rparr>) = clock_inv u"
  "clock_inv (u\<lparr>myTickInterval := d\<rparr>) = clock_inv u" "clock_inv (u\<lparr>ios_work := b\<rparr>) = clock_inv u"
  "clock_inv (u\<lparr>ios_stopped := b\<rparr>) = clock_inv u"
  by (simp_all add: clock_inv_def)

lemma clock_inv_wait_done: "clock_inv u \<Longrightarrow> clock_inv (u\<lparr>alarm_waits := remove1 n (alarm_waits u)\<rparr>)"
  by (auto simp: clock_inv_def)

lemma clock_inv_erased:
  "clock_inv u \<Longrightarrow> n \<notin> set (alarm_waits u) \<Longrightarrow>
   clock_inv (u\<lparr>myAlarms := filter (\<lambda>a. al_node a \<noteq> n) (myAlarms u)\<rparr>)"
  by (auto simp: clock_inv_def distinct_map_filter)

lemma clock_inv_cong:
  "map al_node (myAlarms v) = map al_node (myAlarms u) \<Longrightarrow> map myId (myAlarms v) = map myId (myAlarms u) \<Longrightarrow>
   alarm_waits v = alarm_waits u \<Longrightarrow> nextAlarmId v = nextAlarmId u \<Longrightarrow> clock_inv v = clock_inv u"
  by (simp only: clock_inv_def)

lemma clock_inv_cancelled:
  "clock_inv (u\<lparr>myAlarms := map (\<lambda>a. if al_node a = n then a\<lparr>myTimer := f a\<rparr> else a) (myAlarms u)\<rparr>) = clock_inv u"
  by (rule clock_inv_cong) simp_all

lemma foldr_max_upper: "x \<in> set xs \<Longrightarrow> (x :: nat) \<le> foldr max xs b"
  by (induction xs) auto

lemma new_node_fresh: "new_node u \<notin> al_node ` set (myAlarms u)" "new_node u \<notin> set (alarm_waits u)"
  using foldr_max_upper [of _ "map al_node (myAlarms u) @ alarm_waits u" 0]
  by (fastforce simp: new_node_def)+

lemma clock_inv_new_alarm:
  assumes "clock_inv u" and "nextAlarmId u \<noteq> 0" and "al_node a = new_node u" and "myId a = nextAlarmId u"
  shows "clock_inv (u\<lparr>nextAlarmId := nextAlarmId u + 1, myAlarms := myAlarms u @ [a],
    alarm_waits := new_node u # alarm_waits u\<rparr>)"
proof -
  have less: "unat (myId b) < unat (nextAlarmId u)" if "b \<in> set (myAlarms u)" for b
    using that assms(1,2) by (simp add: clock_inv_def)
  then have "nextAlarmId u \<notin> myId ` set (myAlarms u)" by force
  moreover have "unat (nextAlarmId u + 1) = Suc (unat (nextAlarmId u))" if "nextAlarmId u + 1 \<noteq> 0"
    using that unatSuc [of "nextAlarmId u"] by (simp add: add.commute)
  ultimately show ?thesis
    using assms new_node_fresh [of u] less by (auto simp: clock_inv_def less_Suc_eq)
qed

abbreviation clock_ok :: "('k, 'a, 't) clock_service \<Rightarrow> bool" where
  "clock_ok s \<equiv> clock_inv (svUser s)"

lemma keeps_closure: "clock_ok s \<Longrightarrow> always clock_ok (run_service_closure cfg c r s)"
  using user_kept_closure [OF refl, of s cfg c r] by (simp add: always_def)

lemma clock_keeps_broadcast: "clock_ok s \<Longrightarrow> always clock_ok (broadcast cfg ev s)"
  using user_kept_broadcast [OF refl, of s cfg ev] by (simp add: always_def)

lemmas clock_function_defs =
  clock_get_time_def clock_set_tick_interval_def clock_set_alarm_def clock_cancel_alarm_def
  clock_close_service_def

lemma keeps_functions:
  assumes "clock_ok s"
  shows "always clock_ok (clock_get_time cfg args cl s)"
    and "always clock_ok (clock_set_tick_interval cfg T args cl s)"
    and "always clock_ok (clock_cancel_alarm cfg T args cl s)"
    and "always clock_ok (clock_close_service cfg args cl s)"
    and "nextAlarmId (svUser s) \<noteq> 0 \<Longrightarrow> always clock_ok (clock_set_alarm cfg T args cl s)"
  using assms
  by (auto simp: clock_function_defs Let_def clock_inv_cancelled clock_inv_new_alarm
      intro!: keeps_closure split: list.split clock_value.split option.split)

definition clock_dict :: "('k, 'i, clock_type, clock_value, 'a) service_cfg \<Rightarrow> 't timer_lib \<Rightarrow>
    ('k, clock_type, clock_value, 'a, 't clock_data) service_dict" where
  "clock_dict cfg T =
     (let two_way = (\<lambda>ts r f. \<lparr>de_func = f, de_args = ts, de_result = r, de_one_way = False\<rparr>) in [
       make_fully_qualified_name cfg ''get_time'' \<mapsto> two_way [] (Some TTime) (clock_get_time cfg),
       make_fully_qualified_name cfg ''set_tick_interval'' \<mapsto>
         two_way [TMillis] None (clock_set_tick_interval cfg T),
       make_fully_qualified_name cfg ''set_alarm'' \<mapsto>
         two_way [TString, TDuration] (Some TAlarmId) (clock_set_alarm cfg T),
       make_fully_qualified_name cfg ''cancel_alarm'' \<mapsto> two_way [TAlarmId] None (clock_cancel_alarm cfg T),
       make_fully_qualified_name cfg ''close_service'' \<mapsto> two_way [TString] (Some TInt) (clock_close_service cfg)])"

lemma clock_register_dict:
  "svRunningThread s = svThreadId s \<Longrightarrow> clock_register cfg T s = Some (Ret (clock_dict cfg T) s)"
  by (simp add: clock_register_def service_check_thread_def add_function_def result_type_traits_def
      remove_last_type_of_def clock_dict_def)

lemma clock_registerD:
  "clock_register cfg T s = Some (Ret D s') \<Longrightarrow> D = clock_dict cfg T \<and> s' = s"
  by (cases "svRunningThread s = svThreadId s")
     (simp_all add: clock_register_dict, simp_all add: clock_register_def service_check_thread_def)

lemma clock_dict_functions:
  "clock_dict cfg T fn = Some e \<Longrightarrow> de_func e \<in> {clock_get_time cfg, clock_set_tick_interval cfg T,
     clock_set_alarm cfg T, clock_cancel_alarm cfg T, clock_close_service cfg}"
  by (simp add: clock_dict_def Let_def fun_upd_apply split: if_split_asm) (drule sym, simp)+

lemma keeps_dict:
  assumes "clock_dict cfg T fn = Some e" and "clock_ok s" and "nextAlarmId (svUser s) \<noteq> 0"
  shows "always clock_ok (de_func e args cl s)"
  using clock_dict_functions [OF assms(1)] keeps_functions [OF assms(2)] assms(3) by fastforce

lemma keeps_tick: "clock_ok s \<Longrightarrow> always clock_ok (clock_tickTimer cfg T ec s)"
  unfolding clock_tickTimer_def
  by (intro always_if always_bind clock_keeps_broadcast) (simp_all split: option.split)

section \<open>Completed waits\<close>

lemma find_node:
  "distinct (map al_node as) \<Longrightarrow> a \<in> set as \<Longrightarrow> List.find (\<lambda>b. al_node b = al_node a) as = Some a"
  by (induction as) (auto simp: image_iff)

lemma find_alarm_self:
  "distinct (map myId as) \<Longrightarrow> a \<in> set as \<Longrightarrow> find_alarm (myId a) as = Some a"
  unfolding find_alarm_def by (induction as) (auto simp: image_iff)

lemma alarm_elapsed:
  assumes "clock_inv (svUser s)" and "a \<in> set (myAlarms (svUser s))"
  shows "clock_alarm_elapsed cfg (al_node a) ec s =
    bind_res (if operation_aborted ec then Ret () s
              else broadcast cfg (VEvent (ClockAlarmEvent (myId a) (myTag a))) s)
      (\<lambda>_ s1. Ret () (upd_clock (\<lambda>u. u\<lparr>myAlarms := filter (\<lambda>b. al_node b \<noteq> al_node a) (myAlarms u)\<rparr>) s1))"
proof -
  let ?as = "myAlarms (svUser s)"
  let ?first = "if operation_aborted ec then Ret () s
      else broadcast cfg (VEvent (ClockAlarmEvent (myId a) (myTag a))) s"
  have node: "List.find (\<lambda>b. al_node b = al_node a) ?as = Some a" and id: "find_alarm (myId a) ?as = Some a"
    using assms by (simp_all add: clock_inv_def find_node find_alarm_self)
  have first: "(if \<not> operation_aborted ec
      then broadcast cfg (VEvent (ClockAlarmEvent (myId a) (myTag a))) s else Ret () s) = ?first"
    by simp
  have "svUser s1 = svUser s" if "?first = Ret u s1" for u s1
    using that user_kept_broadcast [OF refl, of s cfg "VEvent (ClockAlarmEvent (myId a) (myTag a))"]
    by (cases "operation_aborted ec") simp_all
  then show ?thesis
    unfolding clock_alarm_elapsed_def node option.case first by (intro bind_res_cong) (simp_all add: id)
qed

lemma keeps_elapsed:
  assumes "clock_ok s" and "n \<in> set (alarm_waits (svUser s))"
  shows "always clock_ok (clock_alarm_elapsed cfg n ec
    (upd_clock (\<lambda>u. u\<lparr>alarm_waits := remove1 n (alarm_waits u)\<rparr>) s))"
proof -
  let ?s0 = "upd_clock (\<lambda>u. u\<lparr>alarm_waits := remove1 n (alarm_waits u)\<rparr>) s"
  obtain a where a: "a \<in> set (myAlarms (svUser s))" "al_node a = n"
    using assms by (auto simp: clock_inv_def)
  have n: "n \<notin> set (alarm_waits (svUser ?s0))" and ok: "clock_ok ?s0"
    using assms by (auto simp: clock_inv_def)
  let ?P = "\<lambda>s1. svUser s1 = svUser ?s0"
  have "always ?P (if operation_aborted ec then Ret () ?s0
      else broadcast cfg (VEvent (ClockAlarmEvent (myId a) (myTag a))) ?s0)"
    by (simp add: user_kept_broadcast)
  then show ?thesis
    using alarm_elapsed [OF ok, of a cfg ec] a clock_inv_erased [OF ok n] ok
    by (auto simp: always_def res_state_bind split: res.split if_splits)
qed

theorem clock_reach_ok: "clock_reach cfg T s \<Longrightarrow> clock_ok s"
proof (induction rule: clock_reach.induct)
  case (start s t timer)
  then show ?case by (simp add: new_clock_data_def clock_inv_def)
next
  case (call s s0 D s0' fn e args cl)
  then show ?case
    using keeps_dict [of cfg T fn e s args cl] clock_registerD [of cfg T s0 D s0'] by (simp add: always_def)
next
  case (elapsed s n ec)
  then show ?case using keeps_elapsed by (simp only: always_def)
next
  case (tick s ec)
  then show ?case using keeps_tick by (simp only: always_def)
qed simp_all

text \<open>What each function answers when its arguments have the declared types.\<close>

lemma type_of_cases:
  "clock_type_of v = TString \<longleftrightarrow> (\<exists>x. v = VString x)" "clock_type_of v = TMillis \<longleftrightarrow> (\<exists>x. v = VMillis x)"
  "clock_type_of v = TDuration \<longleftrightarrow> (\<exists>x. v = VDuration x)" "clock_type_of v = TTime \<longleftrightarrow> (\<exists>x. v = VTime x)"
  "clock_type_of v = TAlarmId \<longleftrightarrow> (\<exists>x. v = VAlarmId x)" "clock_type_of v = TInt \<longleftrightarrow> (\<exists>x. v = VInt x)"
  by (cases v; simp)+

lemma function_answers:
  "\<exists>u. clock_get_time cfg [] (Some cl) s =
     run_service_closure cfg cl (Result_value (VTime (system_clock (svUser s))) Error_none) (s\<lparr>svUser := u\<rparr>)"
  "\<exists>u. clock_set_tick_interval cfg T [VMillis d] (Some cl) s =
     run_service_closure cfg cl (Result_error None Error_none) (s\<lparr>svUser := u\<rparr>)"
  "\<exists>u. clock_set_alarm cfg T [VString tag, VDuration after] (Some cl) s =
     run_service_closure cfg cl (Result_value (VAlarmId (nextAlarmId (svUser s))) Error_none) (s\<lparr>svUser := u\<rparr>)"
  "\<exists>u. clock_cancel_alarm cfg T [VAlarmId i] (Some cl) s =
     run_service_closure cfg cl (Result_error None Error_none) (s\<lparr>svUser := u\<rparr>)"
  "\<exists>u. clock_close_service cfg [VString reason] (Some cl) s =
     run_service_closure cfg cl (Result_value (VInt 0) Error_none) (s\<lparr>svUser := u\<rparr>)"
proof -
  note same = exI [of _ "svUser s"]
  show "\<exists>u. clock_get_time cfg [] (Some cl) s =
     run_service_closure cfg cl (Result_value (VTime (system_clock (svUser s))) Error_none) (s\<lparr>svUser := u\<rparr>)"
    by (rule same) (simp add: clock_get_time_def)
  show "\<exists>u. clock_set_tick_interval cfg T [VMillis d] (Some cl) s =
     run_service_closure cfg cl (Result_error None Error_none) (s\<lparr>svUser := u\<rparr>)"
    by (cases "d = 0") (auto simp: clock_set_tick_interval_def Let_def)
  show "\<exists>u. clock_set_alarm cfg T [VString tag, VDuration after] (Some cl) s =
     run_service_closure cfg cl (Result_value (VAlarmId (nextAlarmId (svUser s))) Error_none) (s\<lparr>svUser := u\<rparr>)"
    by (auto simp: clock_set_alarm_def Let_def)
  show "\<exists>u. clock_cancel_alarm cfg T [VAlarmId i] (Some cl) s =
     run_service_closure cfg cl (Result_error None Error_none) (s\<lparr>svUser := u\<rparr>)"
  proof (cases "find_alarm i (myAlarms (svUser s))")
    case None
    then show ?thesis by (intro same) (simp add: clock_cancel_alarm_def)
  qed (auto simp: clock_cancel_alarm_def Let_def)
  show "\<exists>u. clock_close_service cfg [VString reason] (Some cl) s =
     run_service_closure cfg cl (Result_value (VInt 0) Error_none) (s\<lparr>svUser := u\<rparr>)"
    by (auto simp: clock_close_service_def)
qed

text \<open>An entry whose function answers with a result of the declared type.\<close>

definition answers :: "('k, 'i, clock_type, clock_value, 'a) service_cfg \<Rightarrow>
    (clock_type, clock_value, ('k, 'a, 't) clock_service) dict_entry \<Rightarrow> bool" where
  "answers cfg e \<longleftrightarrow> \<not> de_one_way e \<and>
     (\<forall>vs cl s. map clock_type_of vs = de_args e \<longrightarrow>
        (\<exists>r. result_has_type clock_type_of (de_result e) r \<and>
          (\<exists>u. de_func e vs (Some cl) s = run_service_closure cfg cl r (s\<lparr>svUser := u\<rparr>))))"

lemma result_typed:
  "result_has_type clock_type_of (Some (clock_type_of v)) (Result_value v e)"
  "result_has_type clock_type_of None (Result_error None e)"
  by (simp_all add: result_has_type_def result_defs)

lemma functions_answer:
  "answers cfg \<lparr>de_func = clock_get_time cfg, de_args = [], de_result = Some TTime, de_one_way = False\<rparr>"
  "answers cfg \<lparr>de_func = clock_set_tick_interval cfg T, de_args = [TMillis], de_result = None, de_one_way = False\<rparr>"
  "answers cfg \<lparr>de_func = clock_set_alarm cfg T, de_args = [TString, TDuration], de_result = Some TAlarmId,
     de_one_way = False\<rparr>"
  "answers cfg \<lparr>de_func = clock_cancel_alarm cfg T, de_args = [TAlarmId], de_result = None, de_one_way = False\<rparr>"
  "answers cfg \<lparr>de_func = clock_close_service cfg, de_args = [TString], de_result = Some TInt, de_one_way = False\<rparr>"
  unfolding answers_def
  using result_typed(1) [of "VTime t" for t] result_typed(1) [of "VAlarmId t" for t]
    result_typed(1) [of "VInt t" for t] result_typed(2)
  by (auto simp: map_eq_Cons_conv type_of_cases) (metis function_answers)+

lemma clock_dict_entries:
  "clock_dict cfg T fn = Some e \<Longrightarrow> e \<in> {
     \<lparr>de_func = clock_get_time cfg, de_args = [], de_result = Some TTime, de_one_way = False\<rparr>,
     \<lparr>de_func = clock_set_tick_interval cfg T, de_args = [TMillis], de_result = None, de_one_way = False\<rparr>,
     \<lparr>de_func = clock_set_alarm cfg T, de_args = [TString, TDuration], de_result = Some TAlarmId, de_one_way = False\<rparr>,
     \<lparr>de_func = clock_cancel_alarm cfg T, de_args = [TAlarmId], de_result = None, de_one_way = False\<rparr>,
     \<lparr>de_func = clock_close_service cfg, de_args = [TString], de_result = Some TInt, de_one_way = False\<rparr>}"
  unfolding clock_dict_def Let_def fun_upd_apply by (simp split: if_split_asm)

lemma clock_dict_typed:
  assumes "clock_dict cfg T fn = Some e" and "map clock_type_of vs = de_args e"
  shows "\<exists>r u. de_func e vs (Some cl) s = run_service_closure cfg cl r (s\<lparr>svUser := u\<rparr>) \<and>
    result_has_type clock_type_of (de_result e) r \<and> \<not> de_one_way e"
proof -
  have "answers cfg e"
    using clock_dict_entries [OF assms(1)] by (elim insertE emptyE) (simp_all add: functions_answer)
  with assms(2) show ?thesis
    unfolding answers_def by blast
qed

section \<open>The properties\<close>

text \<open>
  C33: Alarms. In every state the clock service can reach with fewer than $2^{32}$ alarms,
  whatever its clients, its connections and its timers do, a wait that completes belongs to an
  alarm that still exists; its handler broadcasts the event of that alarm to all clients, unless
  the alarm was cancelled, and then erases exactly that alarm: the assertion never fails and no
  erased alarm is used.
\<close>

theorem alarm_handler_finds_its_alarm:
  assumes "clock_reach cfg T s" and "n \<in> set (alarm_waits (svUser s))"
    and "s0 = upd_clock (\<lambda>u. u\<lparr>alarm_waits := remove1 n (alarm_waits u)\<rparr>) s"
  shows "\<exists>a. a \<in> set (myAlarms (svUser s)) \<and> al_node a = n \<and>
    clock_alarm_elapsed cfg n ec s0 =
      bind_res (if operation_aborted ec then Ret () s0
                else broadcast cfg (VEvent (ClockAlarmEvent (myId a) (myTag a))) s0)
        (\<lambda>_ s1. Ret () (upd_clock (\<lambda>u. u\<lparr>myAlarms := filter (\<lambda>b. al_node b \<noteq> n) (myAlarms u)\<rparr>) s1))"
proof -
  have ok: "clock_ok s"
    using assms(1) by (rule clock_reach_ok)
  then obtain a where "a \<in> set (myAlarms (svUser s))" "al_node a = n"
    using assms(2) by (auto simp: clock_inv_def)
  moreover have "clock_ok s0"
    using ok assms(3) by (simp add: clock_inv_wait_done)
  ultimately show ?thesis
    using alarm_elapsed [of s0 a cfg ec] assms(3) by auto
qed

text \<open>A service without clients that answers a call, for the two theorems that follow.\<close>

definition clock_cfg :: "(sample_socket, byte list, clock_type, clock_value, sample_acceptor) service_cfg" where
  "clock_cfg =
     \<lparr>sc_io = sample_io, sc_accept = sample_accept_io,
      sc_arch = \<lparr>ar_write = (\<lambda>_ _. [0]), ar_open = (\<lambda>_ bs. Some bs), get_string = (\<lambda>_. None),
        get_int = (\<lambda>_. None), get_value = (\<lambda>_ _. None), value_init = (\<lambda>_. VInt 0)\<rparr>,
      sc_reusable = False, sc_endian = LittleEndian, sc_interface = ''ClockInterface'', sc_what = (\<lambda>_. [])\<rparr>"

definition clock_timers :: "64 word timer_lib" where
  "clock_timers =
     \<lparr>tm_new = id, tm_expiry = id, tm_expires_at = (\<lambda>t _. t), tm_expires_from_now = (\<lambda>d _. d * 1000000),
      tm_async_wait = id, tm_cancel = id\<rparr>"

definition clock_state :: "(sample_socket, sample_acceptor, 64 word) clock_service" where
  "clock_state =
     \<lparr>svTransports = (\<lambda>_. sample_peer False), myClients = [],
      myPendingCalls = [(''ClockInterface::set_alarm'', 1)],
      myAcceptor = \<lparr>ac_socket = \<lparr>listening = True, port_taken = False, accepting = 1\<rparr>, ac_listener = True, ac_alive = True\<rparr>,
      svThreadId = 1, svRunningThread = 1, svUser = new_clock_data 0 0\<rparr>"

definition clock_caller :: srv_closure where
  "clock_caller = \<lparr>sc_name = ''ClockInterface::set_alarm'', sc_client = 1, sc_archive = False\<rparr>"

definition clock_waiting :: "(sample_socket, sample_acceptor, 64 word) clock_service" where
  "clock_waiting = clock_state
     \<lparr>myPendingCalls := [], svUser := (new_clock_data 0 0)
        \<lparr>nextAlarmId := 2, alarm_waits := [1],
         myAlarms := [\<lparr>al_node = 1, myTimer = 500, myTag = ''stopClient'', myId = 1\<rparr>]\<rparr>\<rparr>"

lemma clock_set_alarm_sample:
  "clock_set_alarm clock_cfg clock_timers [VString ''stopClient'', VDuration 500] (Some clock_caller) clock_state =
   Ret () clock_waiting"
  by (simp add: clock_set_alarm_def new_node_def clock_state_def clock_caller_def clock_timers_def
      new_clock_data_def run_service_closure_def send_result_def find_pending_call_def clock_waiting_def)

lemma clock_waiting_reached: "clock_reach clock_cfg clock_timers clock_waiting"
proof -
  let ?e = "\<lparr>de_func = clock_set_alarm clock_cfg clock_timers, de_args = [TString, TDuration],
    de_result = Some TAlarmId, de_one_way = False\<rparr>"
  have "clock_register clock_cfg clock_timers clock_state = Some (Ret (clock_dict clock_cfg clock_timers) clock_state)"
    by (simp add: clock_register_dict clock_state_def)
  moreover have "clock_dict clock_cfg clock_timers ''ClockInterface::set_alarm'' = Some ?e"
    by (simp add: clock_dict_def Let_def make_fully_qualified_name_def clock_cfg_def)
  moreover have "nextAlarmId (svUser clock_state) \<noteq> 0" "clock_reach clock_cfg clock_timers clock_state"
    by (auto simp: clock_state_def new_clock_data_def intro: clock_reach.start)
  ultimately have "clock_reach clock_cfg clock_timers
      (res_state (de_func ?e [VString ''stopClient'', VDuration 500] (Some clock_caller) clock_state))"
    by (intro clock_reach.call)
  then show ?thesis
    by (simp add: clock_set_alarm_sample)
qed

theorem alarm_handler_finds_its_alarm_witness:
  "\<exists>s1. clock_alarm_elapsed clock_cfg 1 \<lparr>ec_value = 0, ec_category = ''system'', ec_message = []\<rparr>
      (upd_clock (\<lambda>u. u\<lparr>alarm_waits := []\<rparr>) clock_waiting) = Ret () s1 \<and> myAlarms (svUser s1) = []"
proof -
  have 1: "1 \<in> set (alarm_waits (svUser clock_waiting))"
    and 2: "upd_clock (\<lambda>u. u\<lparr>alarm_waits := []\<rparr>) clock_waiting =
      upd_clock (\<lambda>u. u\<lparr>alarm_waits := remove1 1 (alarm_waits u)\<rparr>) clock_waiting"
    by (simp_all add: clock_waiting_def)
  show ?thesis
    using alarm_handler_finds_its_alarm [OF clock_waiting_reached 1 2,
        of "\<lparr>ec_value = 0, ec_category = ''system'', ec_message = []\<rparr>"]
    by (auto simp: clock_waiting_def clock_state_def broadcast_def service_check_thread_def)
qed

text \<open>
  C34: Types. A function of the clock's dictionary that is called with arguments of its declared
  types, as the dispatcher calls it, answers its caller exactly once and at once, with a result
  of its declared type; until then it has changed nothing but the data of the service.
\<close>

theorem clock_functions_typed:
  assumes "clock_register cfg T s0 = Some (Ret D s0')" and "D fn = Some e"
    and "map clock_type_of vs = de_args e"
  shows "\<exists>r u. de_func e vs (Some cl) s = run_service_closure cfg cl r (s\<lparr>svUser := u\<rparr>) \<and>
    result_has_type clock_type_of (de_result e) r \<and> \<not> de_one_way e"
  using clock_dict_typed clock_registerD [OF assms(1)] assms(2,3) by blast

theorem clock_functions_typed_witness:
  "\<exists>r u. clock_set_alarm clock_cfg clock_timers [VString ''stopClient'', VDuration 500] (Some clock_caller) clock_state =
     run_service_closure clock_cfg clock_caller r (clock_state\<lparr>svUser := u\<rparr>) \<and>
   result_has_type clock_type_of (Some TAlarmId) r"
proof -
  let ?e = "\<lparr>de_func = clock_set_alarm clock_cfg clock_timers, de_args = [TString, TDuration],
    de_result = Some TAlarmId, de_one_way = False\<rparr>"
  have "clock_register clock_cfg clock_timers clock_state = Some (Ret (clock_dict clock_cfg clock_timers) clock_state)"
    by (simp add: clock_register_dict clock_state_def)
  moreover have "clock_dict clock_cfg clock_timers ''ClockInterface::set_alarm'' = Some ?e"
    by (simp add: clock_dict_def Let_def make_fully_qualified_name_def clock_cfg_def)
  ultimately show ?thesis
    using clock_functions_typed [of clock_cfg clock_timers clock_state _ clock_state _ ?e
        "[VString ''stopClient'', VDuration 500]" clock_caller clock_state] by simp
qed

text \<open>
  After $2^{32}$ alarms a number is used again. The alarm that is found by its number is then
  the older one: it is erased in place of the one that elapsed, and its own handler, which still
  comes, uses it.
\<close>

lemma repeated_alarm_number:
  assumes "myAlarms (svUser s) = [a, b]" and "myId a = myId b" and "al_node a \<noteq> al_node b"
    and "operation_aborted ec"
  shows "\<exists>s1. clock_alarm_elapsed cfg (al_node b) ec s = Ret () s1 \<and> myAlarms (svUser s1) = [b] \<and>
    clock_alarm_elapsed cfg (al_node a) ec' s1 = Exn (Undefined ''alarm used after it was erased'') s1"
  using assms by (simp add: clock_alarm_elapsed_def find_alarm_def)

end
