(* ===== verification/Clock_App.thy ===== *)
theory Clock_App
  imports Clock
begin

text \<open>
  The programs that use the clock's client: the C++ example (\<open>examples/cerclock/clockclient.cpp\<close>)
  and the module for Python (\<open>examples/cerclock/python/pyclockclient.cpp\<close>, \<open>pyclockclient.h\<close>),
  whose callbacks go to an object of the Python program. Printing is left out.
\<close>

section \<open>Events\<close>

fun get_as_alarm :: "clock_event \<Rightarrow> (32 word \<times> string) option" where
  "get_as_alarm (ClockAlarmEvent i tag) = Some (i, tag)"
| "get_as_alarm (ClockTickEvent t) = None"

fun get_as_tick :: "clock_event \<Rightarrow> 64 word option" where
  "get_as_tick (ClockTickEvent t) = Some t"
| "get_as_tick (ClockAlarmEvent i tag) = None"

text \<open>
  The fields an archive sees (\<open>cereal_setup.h\<close>, \<open>boost_setup.h\<close>), in the same order for both
  libraries, and how Boost writes durations and points in time (\<open>boost_chrono.hpp\<close>): by their
  number of ticks.
\<close>

datatype clock_field = FTag string | FAlarmId "32 word" | FTime "64 word"

definition base_fields :: "clock_field list" where
  "base_fields = []"

fun cereal_fields :: "clock_event \<Rightarrow> clock_field list" where
  "cereal_fields (ClockAlarmEvent i tag) = base_fields @ [FTag tag] @ [FAlarmId i]"
| "cereal_fields (ClockTickEvent t) = base_fields @ [FTime t]"

fun boost_fields :: "clock_event \<Rightarrow> clock_field list" where
  "boost_fields (ClockAlarmEvent i tag) = (base_fields @ [FTag tag]) @ [FAlarmId i]"
| "boost_fields (ClockTickEvent t) = base_fields @ [FTime t]"

definition save_duration :: "64 word \<Rightarrow> 64 word list" where
  "save_duration t = [t]"

definition load_duration :: "64 word list \<Rightarrow> (64 word \<times> 64 word list) option" where
  "load_duration ar = (case ar of [] \<Rightarrow> None | rep # ar' \<Rightarrow> Some (rep, ar'))"

definition save_time_point :: "64 word \<Rightarrow> 64 word list" where
  "save_time_point t = save_duration t"

definition load_time_point :: "64 word list \<Rightarrow> (64 word \<times> 64 word list) option" where
  "load_time_point ar = (case load_duration ar of None \<Rightarrow> None | Some (dur, ar') \<Rightarrow> Some (dur, ar'))"

lemma event_fields_agree: "boost_fields e = cereal_fields e"
  by (cases e) simp_all

lemma time_point_round_trip: "load_time_point (save_time_point t @ ar) = Some (t, ar)"
  by (simp add: load_time_point_def save_time_point_def load_duration_def save_duration_def)

section \<open>The C++ program\<close>

text \<open>The global variables.\<close>

record clock_app =
  stopAlarm :: "32 word"
  app_work :: bool
  app_stopped :: bool

definition finish :: "clock_app \<Rightarrow> clock_app" where
  "finish a = a\<lparr>app_work := False, app_stopped := True\<rparr>"

text \<open>
  The listener looks into the event before anything else: a null event is undefined. The client
  answers the event of its own alarm by closing the service; \<open>cl\<close> is the closure of that call.
\<close>

definition clock_on_service_event :: "('k, clock_type, clock_value) user \<Rightarrow> ('k, 'i) clock_client_cfg \<Rightarrow>
    clock_type closure \<Rightarrow> clock_app \<Rightarrow> clock_event option \<Rightarrow> 'k clock_client \<Rightarrow> (unit, 'k clock_client) res" where
  "clock_on_service_event U cfg cl app event s =
     (case event of
        None \<Rightarrow> Exn (Undefined ''null event'') s
      | Some e \<Rightarrow>
          (case get_as_alarm e of
             Some (i, tag) \<Rightarrow>
               if i = stopAlarm app then clock_client_close_service U cfg ''client closed'' cl s else Ret () s
           | None \<Rightarrow> Ret () s))"

text \<open>The closures the program passes, by what they do to its variables.\<close>

definition closed_closure :: "clock_value result \<Rightarrow> clock_app \<Rightarrow> (unit, clock_app) res" where
  "closed_closure r a = Ret () (finish a)"

definition time_closure :: "clock_value result \<Rightarrow> clock_app \<Rightarrow> (unit, clock_app) res" where
  "time_closure r a =
     (if \<not> Result_bool r then Exn (RuntimeError (myErrorMessage (myError r))) a else Ret () a)"

definition stop_alarm_closure :: "clock_value result \<Rightarrow> clock_app \<Rightarrow> (unit, clock_app) res" where
  "stop_alarm_closure r a =
     (if Error_bool (myError r) then Exn (RuntimeError (myErrorMessage (myError r))) a
      else case res_value r of
        Some (VAlarmId i) \<Rightarrow> Ret () (a\<lparr>stopAlarm := i\<rparr>)
      | _ \<Rightarrow> Exn (Undefined ''result of another type'') a)"

definition tick_closure :: "clock_value result \<Rightarrow> clock_app \<Rightarrow> (unit, clock_app) res" where
  "tick_closure r a =
     (if Error_bool (myError r) then Exn (RuntimeError (myErrorMessage (myError r))) a else Ret () a)"

text \<open>
  The main program up to the event loop: its exit code, or 0. The interval of the ticks is set
  by a handler it posts.
\<close>

definition clock_client_main :: "('k, clock_type, clock_value) user \<Rightarrow> ('k, 'i) clock_client_cfg \<Rightarrow>
    clock_type closure \<Rightarrow> clock_type closure \<Rightarrow> 'k clock_client \<Rightarrow> (int, 'k clock_client) res" where
  "clock_client_main U cfg timeCl alarmCl s =
     bind_res (open_client U cfg (add_listener 0 s)) (\<lambda>opened s1.
       if \<not> opened then Ret 1 s1
       else bind_res (clock_client_get_time U cfg timeCl s1) (\<lambda>_ s2.
            bind_res (clock_client_set_alarm U cfg ''stopClient'' 10000000000 alarmCl s2) (\<lambda>_ s3. Ret 0 s3)))"

definition clock_client_posted :: "('k, clock_type, clock_value) user \<Rightarrow> ('k, 'i) clock_client_cfg \<Rightarrow>
    clock_type closure \<Rightarrow> 'k clock_client \<Rightarrow> (unit, 'k clock_client) res" where
  "clock_client_posted U cfg tickCl s = clock_client_set_tick_interval U cfg 2000 tickCl s"

section \<open>The Python module\<close>

text \<open>The virtual functions that the Python object overrides.\<close>

datatype py_callback =
    on_get_time_result "64 word"
  | on_set_alarm_result "32 word"
  | on_tick_event "64 word"
  | on_alarm_event "32 word" string

definition py_get_time_closure :: "clock_value result \<Rightarrow> exn + py_callback option" where
  "py_get_time_closure r =
     (if \<not> Result_bool r then Inl (RuntimeError (myErrorMessage (myError r)))
      else case res_value r of
        Some (VTime t) \<Rightarrow> Inr (Some (on_get_time_result t))
      | _ \<Rightarrow> Inl (Undefined ''result of another type''))"

definition py_set_tick_interval_closure :: "clock_value result \<Rightarrow> exn + py_callback option" where
  "py_set_tick_interval_closure r =
     (if Error_bool (myError r) then Inl (RuntimeError (myErrorMessage (myError r))) else Inr None)"

definition py_set_alarm_closure :: "clock_value result \<Rightarrow> exn + py_callback option" where
  "py_set_alarm_closure r =
     (if Error_bool (myError r) then Inl (RuntimeError (myErrorMessage (myError r)))
      else case res_value r of
        Some (VAlarmId i) \<Rightarrow> Inr (Some (on_set_alarm_result i))
      | _ \<Rightarrow> Inl (Undefined ''result of another type''))"

definition py_on_service_event :: "clock_event option \<Rightarrow> exn + py_callback option" where
  "py_on_service_event event =
     (case event of
        None \<Rightarrow> Inl (Undefined ''null event'')
      | Some e \<Rightarrow>
          (case get_as_alarm e of
             Some (i, tag) \<Rightarrow> Inr (Some (on_alarm_event i tag))
           | None \<Rightarrow>
               (case get_as_tick e of
                  Some t \<Rightarrow> Inr (Some (on_tick_event t))
                | None \<Rightarrow> Inr None)))"

definition py_get__time :: "('k, clock_type, clock_value) user \<Rightarrow> ('k, 'i) clock_client_cfg \<Rightarrow>
    clock_type closure \<Rightarrow> 'k clock_client \<Rightarrow> (unit, 'k clock_client) res" where
  "py_get__time U cfg cl s = clock_client_get_time U cfg cl s"

definition py_set__tick_interval :: "('k, clock_type, clock_value) user \<Rightarrow> ('k, 'i) clock_client_cfg \<Rightarrow>
    64 word \<Rightarrow> clock_type closure \<Rightarrow> 'k clock_client \<Rightarrow> (unit, 'k clock_client) res" where
  "py_set__tick_interval U cfg tickInterval cl s = clock_client_set_tick_interval U cfg tickInterval cl s"

definition py_set__alarm :: "('k, clock_type, clock_value) user \<Rightarrow> ('k, 'i) clock_client_cfg \<Rightarrow>
    string \<Rightarrow> 64 word \<Rightarrow> clock_type closure \<Rightarrow> 'k clock_client \<Rightarrow> (unit, 'k clock_client) res" where
  "py_set__alarm U cfg tag after cl s = clock_client_set_alarm U cfg tag after cl s"

text \<open>
  The constructor registers the listener and gives the event loop work to do, so that it does not
  end while no operation is under way; the flag is the module's \<open>iosWork\<close>. \<open>poll__io\<close> runs at
  most one handler of the loop; \<open>poll_one\<close> is that operation of the library.
\<close>

definition py_new_client :: "'k transport \<Rightarrow> nat \<Rightarrow> bool \<Rightarrow> 'k clock_client \<times> bool" where
  "py_new_client t thread iosWork = (add_listener 0 (new_client t thread), True)"

definition py_open :: "('k, clock_type, clock_value) user \<Rightarrow> ('k, 'i) clock_client_cfg \<Rightarrow>
    'k clock_client \<Rightarrow> (bool, 'k clock_client) res" where
  "py_open U cfg s = open_client U cfg s"

definition py_poll__io :: "('s \<Rightarrow> (nat, 's) res) \<Rightarrow> 's \<Rightarrow> (unit, 's) res" where
  "py_poll__io poll_one s = bind_res (poll_one s) (\<lambda>_ s. Ret () s)"

text \<open>
  Each event and each result without an error reaches exactly one function of the Python object;
  an error is thrown out of the closure.
\<close>

lemma py_events:
  "py_on_service_event (Some (ClockAlarmEvent i tag)) = Inr (Some (on_alarm_event i tag))"
  "py_on_service_event (Some (ClockTickEvent t)) = Inr (Some (on_tick_event t))"
  by (simp_all add: py_on_service_event_def)

lemma closures_throw_errors:
  assumes "Error_bool (myError r)"
  shows "stop_alarm_closure r a = Exn (RuntimeError (myErrorMessage (myError r))) a"
    and "tick_closure r a = Exn (RuntimeError (myErrorMessage (myError r))) a"
    and "py_set_alarm_closure r = Inl (RuntimeError (myErrorMessage (myError r)))"
  using assms by (simp_all add: stop_alarm_closure_def tick_closure_def py_set_alarm_closure_def)

end
