(* ===== verification/Process_Windows.thy ===== *)
theory Process_Windows
  imports Prelude
begin

text \<open>
  The Windows part of \<open>Process\<close> (\<open>unittests/process.cpp\<close>): both builds of \<open>create\<close>, waiting,
  killing, and the texts of errors. The functions of the Windows API act on an abstract world; a
  handle is a number, a wide character a word of 16 bits. The class calls its handle \<open>m_procHandle\<close>
  in the header and \<open>myProcHandle\<close> in the code; the model has the one field that is meant.
\<close>

type_synonym dword = "32 word"
type_synonym wide = "16 word list"

text \<open>
  \<open>win_create_process\<close> returns the handles of the process and its thread, \<open>win_wait\<close> the result
  of \<open>WaitForSingleObject\<close>, \<open>win_wcstombs\<close> the number of characters it converted or \<open>-1\<close>, and what
  it stored. A message that \<open>FormatMessage\<close> does not know leaves its buffer uninitialized.
\<close>

record ('c, 'w) winapi =
  win_create_process :: "'c list \<Rightarrow> 'w \<Rightarrow> (int \<times> int) option \<times> 'w"
  win_close_handle :: "int \<Rightarrow> 'w \<Rightarrow> 'w"
  win_wait :: "int \<Rightarrow> 'w \<Rightarrow> dword \<times> 'w"
  win_exit_code :: "int \<Rightarrow> 'w \<Rightarrow> dword option \<times> 'w"
  win_terminate :: "int \<Rightarrow> dword \<Rightarrow> 'w \<Rightarrow> bool \<times> 'w"
  win_open_process :: "dword \<Rightarrow> 'w \<Rightarrow> int option \<times> 'w"
  win_set_last_error :: "dword \<Rightarrow> 'w \<Rightarrow> 'w"
  win_last_error :: "'w \<Rightarrow> dword"
  win_format_message :: "dword \<Rightarrow> 'w \<Rightarrow> 'c list option"
  win_current_process_id :: "'w \<Rightarrow> dword"

definition INVALID_HANDLE_VALUE :: int where "INVALID_HANDLE_VALUE = -1"
definition WAIT_FAILED :: dword where "WAIT_FAILED = 0xFFFFFFFF"
definition WAIT_TIMEOUT :: dword where "WAIT_TIMEOUT = 258"
definition STILL_ACTIVE :: dword where "STILL_ACTIVE = 259"
definition ProcessTerminated :: dword where "ProcessTerminated = 257"

record win_process =
  myProcHandle :: int

section \<open>Texts of errors\<close>

text \<open>
  \<open>get_error_message\<close> in its two builds. The wide one takes the count that \<open>wcstombs\<close> returns for
  an error number.
\<close>

definition get_error_message :: "(char, 'w) winapi \<Rightarrow> dword \<Rightarrow> 'w \<Rightarrow> exn + string" where
  "get_error_message A err w =
     (case win_format_message A err w of
        None \<Rightarrow> Inl (Undefined ''messageBuffer'')
      | Some msg \<Rightarrow> Inr msg)"

definition get_error_message_wide :: "(wide \<Rightarrow> nat \<Rightarrow> int \<times> string) \<Rightarrow> (16 word, 'w) winapi \<Rightarrow> dword \<Rightarrow> 'w \<Rightarrow>
    exn + string" where
  "get_error_message_wide wcstombs A err w =
     (case win_format_message A err w of
        None \<Rightarrow> Inl (Undefined ''messageBuffer'')
      | Some msg \<Rightarrow>
          let (asciiErrno, asciiMessageBuffer) = wcstombs msg (255 - 1)
          in Inr (if asciiErrno = 0 then asciiMessageBuffer else ''unknown error''))"

text \<open>\<open>throw_error\<close>, over the build of \<open>get_error_message\<close>.\<close>

definition throw_error :: "(dword \<Rightarrow> 'w \<Rightarrow> exn + string) \<Rightarrow> ('c, 'w) winapi \<Rightarrow> string \<Rightarrow> win_process \<times> 'w \<Rightarrow>
    ('a, win_process \<times> 'w) res" where
  "throw_error get A errorMessage s =
     (let err = win_last_error A (snd s)
      in if err \<noteq> 0
         then (case get err (snd s) of
                 Inl e \<Rightarrow> Exn e s
               | Inr msg \<Rightarrow> Exn (RuntimeError (errorMessage @ msg)) s)
         else Exn (RuntimeError (errorMessage @ ''unknown error'')) s)"

section \<open>Creating and destroying\<close>

definition new_win_process :: win_process where
  "new_win_process = \<lparr>myProcHandle = INVALID_HANDLE_VALUE\<rparr>"

definition win_process_destructor :: "('c, 'w) winapi \<Rightarrow> win_process \<times> 'w \<Rightarrow> 'w" where
  "win_process_destructor A s =
     (case s of (p, w) \<Rightarrow>
        if myProcHandle p \<noteq> INVALID_HANDLE_VALUE then win_close_handle A (myProcHandle p) w else w)"

text \<open>What both builds do with the command line.\<close>

definition start_command :: "(dword \<Rightarrow> 'w \<Rightarrow> exn + string) \<Rightarrow> ('c, 'w) winapi \<Rightarrow> 'c list \<Rightarrow>
    win_process \<times> 'w \<Rightarrow> (unit, win_process \<times> 'w) res" where
  "start_command get A cmdLine s =
     (case s of (p, w) \<Rightarrow>
        (case win_create_process A cmdLine (win_set_last_error A 0 w) of
           (None, w1) \<Rightarrow> throw_error get A ''Process::create: CreateProcess failed: '' (p, w1)
         | (Some (hProcess, hThread), w1) \<Rightarrow>
             Ret () (p\<lparr>myProcHandle := hProcess\<rparr>, win_close_handle A hThread w1)))"

definition no_path :: exn where
  "no_path = RuntimeError ''Process::create: path to executable file is empty.''"

definition win_create :: "(char, 'w) winapi \<Rightarrow> string option \<Rightarrow> string option \<Rightarrow> win_process \<times> 'w \<Rightarrow>
    (unit, win_process \<times> 'w) res" where
  "win_create A programPath arguments s =
     (case s of (p, w) \<Rightarrow>
        (case programPath of
           None \<Rightarrow> Exn no_path (p, w)
         | Some path \<Rightarrow>
             if length path < 1 then Exn no_path (p, w)
             else
               let w1 = (if myProcHandle p \<noteq> INVALID_HANDLE_VALUE
                         then win_close_handle A (myProcHandle p) w else w);
                   cmdLine = (case arguments of
                       None \<Rightarrow> path
                     | Some args \<Rightarrow> if 0 < length args then path @ '' '' @ args else path)
               in start_command (get_error_message A) A cmdLine (p, w1)))"

text \<open>
  The wide build copies into a buffer whose size it computes at 32 bits. \<open>wcscpy_s\<close> ends the
  program if the buffer is too small; \<open>wcscat\<close> writes beyond it. Its result is always the
  buffer it was given, so the two tests of it never throw.
\<close>

definition wcscpy_s :: "nat \<Rightarrow> wide \<Rightarrow> exn + wide" where
  "wcscpy_s n src =
     (if length src + 1 \<le> n then Inr src else Inl (AssertFailed ''wcscpy_s: buffer too small''))"

definition wcscat :: "nat \<Rightarrow> wide \<Rightarrow> wide \<Rightarrow> exn + wide" where
  "wcscat n buf src =
     (if length buf + length src + 1 \<le> n then Inr (buf @ src) else Inl (Undefined ''cmdLine''))"

definition wide_blank :: wide where
  "wide_blank = [0x20]"

definition wide_command :: "wide \<Rightarrow> wide option \<Rightarrow> exn + wide" where
  "wide_command path args =
     (let pathLen = (word_of_nat (length path) :: u32);
          argsLen = (case args of None \<Rightarrow> 0 | Some a \<Rightarrow> (word_of_nat (length a) :: u32));
          bufSize = unat (pathLen + argsLen + 2)
      in case wcscpy_s bufSize path of
           Inl e \<Rightarrow> Inl e
         | Inr cmdLine \<Rightarrow>
             if 0 < argsLen
             then (case wcscat bufSize cmdLine wide_blank of
                     Inl e \<Rightarrow> Inl e
                   | Inr cmdLine \<Rightarrow> wcscat bufSize cmdLine (the args))
             else Inr cmdLine)"

definition win_create_wide :: "(wide \<Rightarrow> nat \<Rightarrow> int \<times> string) \<Rightarrow> (16 word, 'w) winapi \<Rightarrow> wide option \<Rightarrow>
    wide option \<Rightarrow> win_process \<times> 'w \<Rightarrow> (unit, win_process \<times> 'w) res" where
  "win_create_wide wcstombs A programPath arguments s =
     (case programPath of
        None \<Rightarrow> Exn no_path s
      | Some path \<Rightarrow>
          if length path < 1 then Exn no_path s
          else case wide_command path arguments of
            Inl e \<Rightarrow> Exn e s
          | Inr cmdLine \<Rightarrow> start_command (get_error_message_wide wcstombs A) A cmdLine s)"

section \<open>Waiting and killing\<close>

definition win_process_wait :: "(dword \<Rightarrow> 'w \<Rightarrow> exn + string) \<Rightarrow> ('c, 'w) winapi \<Rightarrow> win_process \<times> 'w \<Rightarrow>
    (bool \<times> dword, win_process \<times> 'w) res" where
  "win_process_wait get A s =
     (case s of (p, w) \<Rightarrow>
        let (res, w1) = win_wait A (myProcHandle p) w
        in if res = WAIT_FAILED
           then throw_error get A ''Process::kill: WaitForSingleObject failed: '' (p, w1)
           else if res = WAIT_TIMEOUT
           then Exn (RuntimeError ''Process::kill: WaitForSingleObject bad result WAIT_TIMEOUT'') (p, w1)
           else (case win_exit_code A (myProcHandle p) w1 of
                   (None, w2) \<Rightarrow> throw_error get A ''Process::kill: GetExitCodeProcess failed: '' (p, w2)
                 | (Some res, w2) \<Rightarrow>
                     if res = STILL_ACTIVE
                     then Exn (LogicError ''Process::kill: exit code STILL_ACTIVE'') (p, w2)
                     else Ret (res < 256, res) (p, w2)))"

definition win_process_kill :: "(dword \<Rightarrow> 'w \<Rightarrow> exn + string) \<Rightarrow> ('c, 'w) winapi \<Rightarrow> win_process \<times> 'w \<Rightarrow>
    (unit, win_process \<times> 'w) res" where
  "win_process_kill get A s =
     (case s of (p, w) \<Rightarrow>
        let (ok, w1) = win_terminate A (myProcHandle p) ProcessTerminated w
        in if \<not> ok then throw_error get A ''Process::kill: TerminateProcess failed: '' (p, w1)
           else Ret () (p, w1))"

text \<open>The handle that \<open>kill(pid)\<close> opens is never closed.\<close>

definition win_process_kill_pid :: "(dword \<Rightarrow> 'w \<Rightarrow> exn + string) \<Rightarrow> ('c, 'w) winapi \<Rightarrow> dword \<Rightarrow>
    win_process \<times> 'w \<Rightarrow> (unit, win_process \<times> 'w) res" where
  "win_process_kill_pid get A pid s =
     (case s of (p, w) \<Rightarrow>
        (case win_open_process A pid w of
           (None, w1) \<Rightarrow> throw_error get A ''Process::kill(pid): OpenProcess failed: '' (p, w1)
         | (Some h, w1) \<Rightarrow>
             let (ok, w2) = win_terminate A h ProcessTerminated w1
             in if \<not> ok then throw_error get A ''Process::kill(pid): TerminateProcess failed: '' (p, w2)
                else Ret () (p, w2)))"

definition win_get_pid :: "('c, 'w) winapi \<Rightarrow> 'w \<Rightarrow> dword" where
  "win_get_pid A w = win_current_process_id A w"

section \<open>What becomes of handles and texts\<close>

text \<open>The command line of both builds: the path, and after a blank the arguments if there are any.\<close>

definition command_line :: "'c list \<Rightarrow> 'c list \<Rightarrow> 'c list option \<Rightarrow> 'c list" where
  "command_line blank path args =
     (case args of None \<Rightarrow> path | Some a \<Rightarrow> if a = [] then path else path @ blank @ a)"

lemma win_create_command:
  "path \<noteq> [] \<Longrightarrow> win_create A (Some path) args (p, w) =
     start_command (get_error_message A) A (command_line '' '' path args)
       (p, if myProcHandle p \<noteq> INVALID_HANDLE_VALUE then win_close_handle A (myProcHandle p) w else w)"
  by (cases path) (auto simp: win_create_def command_line_def Let_def split: option.split)

text \<open>The buffer of the wide build holds every command line whose length fits into 32 bits.\<close>

lemma wide_command_fits:
  assumes "length path + (case args of None \<Rightarrow> 0 | Some a \<Rightarrow> length a) + 2 < 2 ^ 32"
  shows "wide_command path args = Inr (command_line wide_blank path args)"
proof (cases args)
  case None
  have "unat (word_of_nat (length path) + 2 :: u32) = length path + 2"
    using assms None by (simp add: unat_word_ariths unat_of_nat)
  with None show ?thesis
    by (simp add: wide_command_def wcscpy_s_def command_line_def Let_def)
next
  case (Some a)
  have "unat (word_of_nat (length path) + word_of_nat (length a) + 2 :: u32) = length path + length a + 2"
    using assms Some by (simp add: unat_word_ariths unat_of_nat)
  moreover have "0 < (word_of_nat (length a) :: u32) \<longleftrightarrow> a \<noteq> []"
    using assms Some by (simp add: word_less_nat_alt unat_of_nat)
  ultimately show ?thesis
    using Some by (simp add: wide_command_def wcscpy_s_def wcscat_def command_line_def wide_blank_def Let_def)
qed

lemma throw_error_throws: "\<exists>e. throw_error get A msg s = Exn e s"
  by (simp add: throw_error_def Let_def split: sum.split)

text \<open>
  An object that has started a process, on Windows, and fails to start the next one: \<open>create\<close>
  has closed the handle of the first process but keeps its number, so that the destructor closes
  it a second time, when it may be the handle of something else.
\<close>

lemma failed_create_closes_twice:
  assumes "myProcHandle p = h" and "h \<noteq> INVALID_HANDLE_VALUE" and "path \<noteq> []"
    and "win_create_process A (command_line '' '' path args)
           (win_set_last_error A 0 (win_close_handle A h w)) = (None, w1)"
  shows "\<exists>e. win_create A (Some path) args (p, w) = Exn e (p, w1) \<and>
     win_process_destructor A (p, w1) = win_close_handle A h w1"
  using assms throw_error_throws [of "get_error_message A" A "''Process::create: CreateProcess failed: ''" "(p, w1)"]
  by (simp add: win_create_command start_command_def win_process_destructor_def)

text \<open>A world that lists the handles that were closed, on which no process can be started.\<close>

text \<open>
  The wide build loses the text of every error: a successful conversion returns a number of
  characters, which is taken for an error.
\<close>

lemma wide_error_text_lost:
  assumes "win_format_message A err w = Some msg" and "wcstombs msg 254 = (n, txt)" and "n \<noteq> 0"
  shows "get_error_message_wide wcstombs A err w = Inr ''unknown error''"
  using assms by (simp add: get_error_message_wide_def)

text \<open>The wide build of \<open>create\<close> forgets a handle it has, and \<open>kill(pid)\<close> one it opens.\<close>

lemma wide_create_keeps_handle_open:
  assumes "length path + (case args of None \<Rightarrow> 0 | Some a \<Rightarrow> length a) + 2 < 2 ^ 32" and "path \<noteq> []"
  shows "win_create_wide wcstombs A (Some path) args (p, w) =
    start_command (get_error_message_wide wcstombs A) A (command_line wide_blank path args) (p, w)"
  using wide_command_fits [OF assms(1)] assms(2) by (cases path) (simp_all add: win_create_wide_def)

end
