(* ===== verification/Event_Source.thy ===== *)
theory Event_Source
  imports Clock
begin

text \<open>
  The event sources of the unit tests (\<open>unittests/eventstestserver.cpp\<close>,
  \<open>simpleeventsourceinterface.h\<close>, \<open>polyeventsourceinterface.h\<close>): services that broadcast, a moment
  later, the event a client asked for. The timer is the parameter of the clock.
\<close>

section \<open>Events\<close>

datatype simple_event = NO_EVENT | EVENT_ONE | EVENT_TWO | EVENT_THREE

text \<open>
  An object of a class derived from \<open>EventBase\<close>. \<open>RealEventClassThree\<close> derives from
  \<open>RealEventClassTwo\<close> and so has its number as well as its own map, a list of pairs here.
\<close>

type_synonym event_dict = "(string \<times> cint) list"

datatype poly_event =
    EventBase
  | RealEventClassOne string
  | RealEventClassTwo cint
  | RealEventClassThree cint event_dict

text \<open>\<open>EventBase::get_as\<close> is a dynamic cast: it succeeds for the class and the classes derived from it.\<close>

fun get_as_one :: "poly_event \<Rightarrow> string option" where
  "get_as_one (RealEventClassOne d) = Some d"
| "get_as_one _ = None"

fun get_as_two :: "poly_event \<Rightarrow> cint option" where
  "get_as_two (RealEventClassTwo d) = Some d"
| "get_as_two (RealEventClassThree d m) = Some d"
| "get_as_two _ = None"

fun get_as_three :: "poly_event \<Rightarrow> event_dict option" where
  "get_as_three (RealEventClassThree d m) = Some m"
| "get_as_three _ = None"

text \<open>
  The fields an archive sees of an event: those of the base class, then its own. A cast to the
  base class is what the archive library does with \<open>base_class\<close> or \<open>base_object\<close>.
\<close>

datatype event_field = FString string | FInt cint | FDict event_dict

definition serialize_base :: "event_field list" where
  "serialize_base = []"

definition serialize_one :: "string \<Rightarrow> event_field list" where
  "serialize_one myEventData = serialize_base @ [FString myEventData]"

definition serialize_two :: "cint \<Rightarrow> event_field list" where
  "serialize_two myEventData = serialize_base @ [FInt myEventData]"

definition serialize_three :: "cint \<Rightarrow> event_dict \<Rightarrow> event_field list" where
  "serialize_three myEventData myEventDict = serialize_two myEventData @ [FDict myEventDict]"

text \<open>The arguments and events of the two services; a \<open>unique_ptr\<close> may be null.\<close>

datatype event_value = VSimple simple_event | VPoly "poly_event option"

datatype event_type = TSimple | TPoly

section \<open>The simple event source\<close>

record 't simple_data =
  simple_timer :: 't
  simple_enabled :: simple_event

type_synonym ('k, 'a, 't) simple_service = "('k, 'a, 't simple_data) service"

definition simple_trigger :: "'t timer_lib \<Rightarrow> (event_value, ('k, 'a, 't) simple_service) service_function" where
  "simple_trigger T args cl s =
     (case args of
        [VSimple et] \<Rightarrow>
          let u = (svUser s)\<lparr>simple_enabled := et\<rparr>;
              u = (if et \<noteq> NO_EVENT
                   then u\<lparr>simple_timer := tm_async_wait T (tm_expires_from_now T 100 (simple_timer u))\<rparr>
                   else u)
          in Ret () (s\<lparr>svUser := u\<rparr>)
      | _ \<Rightarrow> Exn (Undefined ''arguments of other types'') s)"

definition simple_tickTimer :: "('k, 'i, event_type, event_value, 'a) service_cfg \<Rightarrow> error_code \<Rightarrow>
    ('k, 'a, 't) simple_service \<Rightarrow> (unit, ('k, 'a, 't) simple_service) res" where
  "simple_tickTimer cfg ec s =
     (if \<not> operation_aborted ec \<and> simple_enabled (svUser s) \<noteq> NO_EVENT
      then broadcast cfg (VSimple (simple_enabled (svUser s))) s
      else Ret () s)"

definition simple_register :: "('k, 'i, event_type, event_value, 'a) service_cfg \<Rightarrow> 't timer_lib \<Rightarrow>
    ('k, 'a, 't) simple_service \<Rightarrow>
    (('k, event_type, event_value, 'a, 't simple_data) service_dict, ('k, 'a, 't) simple_service) res option" where
  "simple_register cfg T s =
     add_functions cfg True [''trigger_single_broadcast''] [([PValue TSimple], simple_trigger T)] Map.empty s"

section \<open>The polymorphic event source\<close>

record 't poly_data =
  poly_timer :: 't
  poly_enabled :: "poly_event option"

type_synonym ('k, 'a, 't) poly_service = "('k, 'a, 't poly_data) service"

definition poly_trigger :: "'t timer_lib \<Rightarrow> (event_value, ('k, 'a, 't) poly_service) service_function" where
  "poly_trigger T args cl s =
     (case args of
        [VPoly e] \<Rightarrow>
          let u = (svUser s)\<lparr>poly_enabled := e\<rparr>;
              u = (if e \<noteq> None
                   then u\<lparr>poly_timer := tm_async_wait T (tm_expires_from_now T 100 (poly_timer u))\<rparr>
                   else u)
          in Ret () (s\<lparr>svUser := u\<rparr>)
      | _ \<Rightarrow> Exn (Undefined ''arguments of other types'') s)"

text \<open>
  The constructors that the handler uses. The one of \<open>RealEventClassThree\<close> leaves the number of
  its base class uninitialized: \<open>g\<close> is what the memory holds.
\<close>

definition new_event_three :: "cint \<Rightarrow> event_dict \<Rightarrow> poly_event" where
  "new_event_three g eventDict = RealEventClassThree g eventDict"

definition poly_tickTimer :: "('k, 'i, event_type, event_value, 'a) service_cfg \<Rightarrow> cint \<Rightarrow> error_code \<Rightarrow>
    ('k, 'a, 't) poly_service \<Rightarrow> (unit, ('k, 'a, 't) poly_service) res" where
  "poly_tickTimer cfg g ec s =
     (case poly_enabled (svUser s) of
        None \<Rightarrow> Ret () s
      | Some e \<Rightarrow>
          if operation_aborted ec then Ret () s
          else case get_as_one e of
            Some d \<Rightarrow> broadcast cfg (VPoly (Some (RealEventClassOne d))) s
          | None \<Rightarrow>
              (case get_as_three e of
                 Some m \<Rightarrow> broadcast cfg (VPoly (Some (new_event_three g m))) s
               | None \<Rightarrow>
                   (case get_as_two e of
                      Some d \<Rightarrow> broadcast cfg (VPoly (Some (RealEventClassTwo d))) s
                    | None \<Rightarrow> Ret () s)))"

definition poly_register :: "('k, 'i, event_type, event_value, 'a) service_cfg \<Rightarrow> 't timer_lib \<Rightarrow>
    ('k, 'a, 't) poly_service \<Rightarrow>
    (('k, event_type, event_value, 'a, 't poly_data) service_dict, ('k, 'a, 't) poly_service) res option" where
  "poly_register cfg T s =
     add_functions cfg True [''trigger_single_broadcast''] [([PValue TPoly], poly_trigger T)] Map.empty s"

section \<open>The clients and their listeners\<close>

definition event_client_trigger :: "('k, 'i, event_type, event_value) client_cfg \<Rightarrow> event_value \<Rightarrow>
    ('k, event_type, event_value) client \<Rightarrow> (unit, ('k, event_type, event_value) client) res" where
  "event_client_trigger cfg e s = send_call_one_way cfg ''trigger_single_broadcast'' [e] s"

record 'e event_listener =
  receivedEvent :: 'e
  gotEvent :: bool

definition simple_on_service_event :: "simple_event \<Rightarrow> simple_event event_listener \<Rightarrow> simple_event event_listener" where
  "simple_on_service_event ev l = l\<lparr>receivedEvent := ev, gotEvent := True\<rparr>"

definition simple_reset :: "simple_event event_listener \<Rightarrow> simple_event event_listener" where
  "simple_reset l = l\<lparr>gotEvent := False, receivedEvent := NO_EVENT\<rparr>"

definition poly_on_service_event :: "poly_event option \<Rightarrow> poly_event option event_listener \<Rightarrow>
    poly_event option event_listener" where
  "poly_on_service_event ev l = l\<lparr>receivedEvent := ev, gotEvent := True\<rparr>"

definition poly_reset :: "poly_event option event_listener \<Rightarrow> poly_event option event_listener" where
  "poly_reset l = l\<lparr>gotEvent := False, receivedEvent := None\<rparr>"

section \<open>What is broadcast\<close>

fun event_class :: "poly_event \<Rightarrow> string" where
  "event_class EventBase = ''EventBase''"
| "event_class (RealEventClassOne d) = ''RealEventClassOne''"
| "event_class (RealEventClassTwo d) = ''RealEventClassTwo''"
| "event_class (RealEventClassThree d m) = ''RealEventClassThree''"

text \<open>
  An event source broadcasts an event of the class it was asked for, with the data it
  was asked for. The cast to a base class succeeds as well, and the order of the casts is the one
  that finds the class. The number an event of the third class has from its base class is lost:
  the broadcast event carries whatever the memory held.
\<close>

lemma event_source_echoes:
  "\<exists>s1. poly_trigger T [VPoly (Some e)] cl s = Ret () s1 \<and>
     (if operation_aborted ec \<or> e = EventBase then poly_tickTimer cfg g ec s1 = Ret () s1
      else \<exists>e'. poly_tickTimer cfg g ec s1 = broadcast cfg (VPoly (Some e')) s1 \<and>
        event_class e' = event_class e \<and> get_as_one e' = get_as_one e \<and> get_as_three e' = get_as_three e \<and>
        get_as_two e' = (if get_as_three e = None then get_as_two e else Some g))"
  by (cases e) (auto simp: poly_trigger_def poly_tickTimer_def new_event_three_def Let_def)

end
