(* ===== verification/Test_Programs.thy ===== *)
theory Test_Programs
  imports Calculator Event_Source Sample_Service
begin

text \<open>
  The programs around the library: the main programs of the test servers and of the clock
  service, and the support code of the tests that starts them (\<open>utils/program.cpp\<close>,
  \<open>unittests/process.cpp\<close> for Linux, \<open>unittests/testutil.h\<close>). The calls of the operating system
  are parameters that act on an abstract world.
\<close>

section \<open>The path of the program\<close>

record program =
  myName :: string
  myPath :: string

definition file_name :: "string \<Rightarrow> string" where
  "file_name path = rev (takeWhile (\<lambda>c. c \<noteq> CHR ''/'') (rev path))"

text \<open>
  \<open>link\<close> is what \<open>readlink\<close> stored into the buffer of 1024 characters, if it succeeded. The
  code sets the character after it to zero without a look at the result.
\<close>

definition new_program :: "string option \<Rightarrow> exn + program" where
  "new_program link =
     (case link of
        None \<Rightarrow> Inl (Undefined ''progPath[-1]'')
      | Some p \<Rightarrow>
          if length p \<ge> 1024 then Inl (Undefined ''progPath[1024]'')
          else let path = takeWhile (\<lambda>c. c \<noteq> CHR 0x00) p
            in Inr \<lparr>myName = file_name path, myPath = path\<rparr>)"

text \<open>The instance is made at the first use.\<close>

definition program_instance :: "string option \<Rightarrow> program option \<Rightarrow> exn + (program \<times> program option)" where
  "program_instance link inst =
     (case inst of
        None \<Rightarrow> map_sum id (\<lambda>p. (p, Some p)) (new_program link)
      | Some p \<Rightarrow> Inr (p, Some p))"

section \<open>Child processes\<close>

text \<open>
  \<open>px_fork\<close> returns a negative number, zero in the child, or the number of the child;
  \<open>px_execv\<close> returns only if it fails. A status of \<open>px_waitpid\<close> is what the macros read from it.
\<close>

datatype wait_status = Exited int | Signaled int | Stopped

record 'w posix =
  px_fork :: "'w \<Rightarrow> int \<times> 'w"
  px_execv :: "string \<Rightarrow> string list \<Rightarrow> 'w \<Rightarrow> 'w"
  px_kill :: "int \<Rightarrow> int \<Rightarrow> 'w \<Rightarrow> int \<times> 'w"
  px_waitpid :: "int \<Rightarrow> 'w \<Rightarrow> (int \<times> wait_status) \<times> 'w"
  px_strerror :: "'w \<Rightarrow> string"
  px_sleep :: "nat \<Rightarrow> 'w \<Rightarrow> 'w"

definition SIGKILL :: int where "SIGKILL = 9"
definition SIGTERM :: int where "SIGTERM = 15"
definition SIGINT :: int where "SIGINT = 2"

record process =
  myPid :: int

definition new_process :: process where
  "new_process = \<lparr>myPid = -1\<rparr>"

text \<open>
  \<open>split_args\<close>: the pieces between the matches of the regular expression \<open>\s+\<close>. The piece
  before the first match may be empty; the one after the last match is left out if it is.
\<close>

definition is_space :: "char \<Rightarrow> bool" where
  "is_space c \<longleftrightarrow> c \<in> {CHR '' '', CHR 0x09, CHR 0x0A, CHR 0x0B, CHR 0x0C, CHR 0x0D}"

function split_args :: "string \<Rightarrow> string list" where
  "split_args s =
     (let rest = dropWhile is_space (dropWhile (\<lambda>c. \<not> is_space c) s)
      in takeWhile (\<lambda>c. \<not> is_space c) s # (if rest = [] then [] else split_args rest))"
  by auto
termination
proof (relation "measure length", goal_cases)
  case (2 s rest)
  then have "dropWhile (\<lambda>c. \<not> is_space c) s \<noteq> []" by (metis dropWhile.simps(1))
  then obtain c cs where c: "dropWhile (\<lambda>c. \<not> is_space c) s = c # cs" "is_space c"
    by (metis hd_dropWhile list.collapse)
  have "length (dropWhile is_space cs) \<le> length cs" "length (c # cs) \<le> length s"
    using length_dropWhile_le [of is_space cs] length_dropWhile_le [of "\<lambda>c. \<not> is_space c" s] c(1) by simp_all
  then show ?case
    using 2 c by simp
qed simp

declare split_args.simps [simp del]

text \<open>The child: its arguments, and the end of the process if \<open>execv\<close> fails.\<close>

datatype fork_side = Parent | Child_exit int

definition child_args :: "string \<Rightarrow> string option \<Rightarrow> string list" where
  "child_args programPath arguments =
     [programPath] @ (case arguments of None \<Rightarrow> [] | Some a \<Rightarrow> split_args a)"

definition process_create :: "'w posix \<Rightarrow> string option \<Rightarrow> string option \<Rightarrow> process \<times> 'w \<Rightarrow>
    (fork_side, process \<times> 'w) res" where
  "process_create P programPath arguments s =
     (case s of (p, w) \<Rightarrow>
        (case programPath of
           None \<Rightarrow> Exn (RuntimeError ''Process::create: path to executable file is empty.'') (p, w)
         | Some path \<Rightarrow>
             if length path < 1
             then Exn (RuntimeError ''Process::create: path to executable file is empty.'') (p, w)
             else let (result, w1) = px_fork P w
               in if result < 0 then Exn (RuntimeError (''fork: '' @ px_strerror P w1)) (p, w1)
                  else if result = 0
                  then Ret (Child_exit (-1)) (p, px_execv P path (child_args path arguments) w1)
                  else Ret Parent (p\<lparr>myPid := result\<rparr>, w1)))"

definition process_is_running :: "'w posix \<Rightarrow> process \<Rightarrow> 'w \<Rightarrow> bool \<times> 'w" where
  "process_is_running P p w = (let (r, w1) = px_kill P (myPid p) 0 w in (r = 0, w1))"

definition process_wait :: "'w posix \<Rightarrow> process \<Rightarrow> 'w \<Rightarrow> (bool \<times> int, 'w) res" where
  "process_wait P p w =
     (let ((r, status), w1) = px_waitpid P (myPid p) w
      in if r < 0 then Exn (RuntimeError (''waitpid: '' @ px_strerror P w1)) w1
         else case status of
           Exited c \<Rightarrow> Ret (True, c) w1
         | Signaled n \<Rightarrow> Ret (False, n) w1
         | Stopped \<Rightarrow> Exn (LogicError ''Process::wait: unexpected exit status'') w1)"

definition process_signal :: "'w posix \<Rightarrow> string \<Rightarrow> int \<Rightarrow> int \<Rightarrow> 'w \<Rightarrow> (unit, 'w) res" where
  "process_signal P what pid sig w =
     (let (res, w1) = px_kill P pid sig w
      in if res < 0 then Exn (RuntimeError (what @ px_strerror P w1)) w1 else Ret () w1)"

definition process_kill :: "'w posix \<Rightarrow> process \<Rightarrow> 'w \<Rightarrow> (unit, 'w) res" where
  "process_kill P p = process_signal P ''Process::kill: '' (myPid p) SIGKILL"

definition process_kill_pid :: "'w posix \<Rightarrow> int \<Rightarrow> 'w \<Rightarrow> (unit, 'w) res" where
  "process_kill_pid P pid = process_signal P ''Process::kill(pid): '' pid SIGKILL"

definition process_shutdown :: "'w posix \<Rightarrow> process \<Rightarrow> 'w \<Rightarrow> (unit, 'w) res" where
  "process_shutdown P p = process_signal P ''Process::shutdown(pid): '' (myPid p) SIGTERM"

section \<open>The test fixture\<close>

text \<open>\<open>start_service\<close> polls until the child answers a signal; it need not end.\<close>

partial_function (option) poll_running :: "'w posix \<Rightarrow> process \<Rightarrow> 'w \<Rightarrow> 'w option" where
  "poll_running P p w =
     (let (running, w1) = process_is_running P p (px_sleep P 100 w)
      in if running then Some w1 else poll_running P p w1)"

definition start_test_service :: "'w posix \<Rightarrow> program \<Rightarrow> string option \<Rightarrow> process \<times> 'w \<Rightarrow>
    (fork_side, process \<times> 'w) res option" where
  "start_test_service P prog args s =
     (case process_create P (Some (myPath prog @ ''_server'')) args s of
        Ret Parent (p, w) \<Rightarrow> map_option (\<lambda>w1. Ret Parent (p, w1)) (poll_running P p w)
      | r \<Rightarrow> Some r)"

text \<open>A service without a close function is shut down by a signal.\<close>

definition stop_test_service :: "'w posix \<Rightarrow> process \<Rightarrow> 'w \<Rightarrow> (bool \<times> int, 'w) res" where
  "stop_test_service P p w =
     bind_res (process_shutdown P p w) (\<lambda>_ w1. process_wait P p w1)"

text \<open>
  \<open>create_open_client\<close> makes a client on a new transport and opens it, at most \<open>retry\<close> times.
  \<open>sockets\<close> are the sockets of the transports it makes.
\<close>

fun create_open_client :: "('k, 'ty, 'v) user \<Rightarrow> ('k, 'i, 'ty, 'v) client_cfg \<Rightarrow> nat \<Rightarrow> (nat \<Rightarrow> 'k) \<Rightarrow> nat \<Rightarrow>
    exn + ('k, 'ty, 'v) client" where
  "create_open_client U cfg thread sockets 0 = Inl (RuntimeError ''Could not connect to test server'')"
| "create_open_client U cfg thread sockets (Suc retry) =
     (case open_client U cfg (new_client (new_transport (sockets retry)) thread) of
        Exn e s \<Rightarrow> Inl e
      | Ret opened s \<Rightarrow> if opened then Inr s else create_open_client U cfg thread sockets retry)"

text \<open>A service with a close function is told to close by a client of its own.\<close>

definition stop_test_service_by_call :: "('k, calc_type, calc_value) user \<Rightarrow>
    ('k, 'i, calc_type, calc_value) client_cfg \<Rightarrow> nat \<Rightarrow> (nat \<Rightarrow> 'k) \<Rightarrow> 'w posix \<Rightarrow> process \<Rightarrow> 'w \<Rightarrow>
    (bool \<times> int, 'w) res" where
  "stop_test_service_by_call U cfg thread sockets P p w =
     (case create_open_client U cfg thread sockets 4 of
        Inl e \<Rightarrow> Exn e w
      | Inr c \<Rightarrow> (case calc_client_close_service cfg c of
            Exn e c1 \<Rightarrow> Exn e w
          | Ret _ c1 \<Rightarrow> process_wait P p w))"

text \<open>
  \<open>process_io_events\<close> runs one handler of the event loop after the other until the flag is set
  or the number is used up; a negative number is never used up. \<open>run_one\<close> waits for a handler that
  can run, which is \<open>None\<close> if there will never be one, and lets the exception of a handler through.
\<close>

partial_function (option) process_io_events :: "('s \<Rightarrow> (unit, 's) res option) \<Rightarrow> ('s \<Rightarrow> bool) \<Rightarrow> int \<Rightarrow> 's \<Rightarrow>
    (bool, 's) res option" where
  "process_io_events run_one closureCalled maxNumHandlers s =
     (if \<not> closureCalled s \<and> maxNumHandlers \<noteq> 0
      then (case run_one s of
              None \<Rightarrow> None
            | Some r \<Rightarrow>
                (case r of
                   Exn e s1 \<Rightarrow> Some (Exn e s1)
                 | Ret _ s1 \<Rightarrow> process_io_events run_one closureCalled (maxNumHandlers - 1) s1))
      else Some (Ret (closureCalled s) s))"

section \<open>The main programs\<close>

record io_loop =
  iosWork :: bool
  ioStopped :: bool

definition signal_handler :: "int \<Rightarrow> io_loop \<Rightarrow> io_loop" where
  "signal_handler signal_number l =
     (if signal_number = SIGINT \<or> signal_number = SIGTERM
      then l\<lparr>iosWork := False, ioStopped := True\<rparr> else l)"

text \<open>
  A server either ends with the message of an exception or goes on to run the event loop, whose
  handlers are the steps of the service. \<open>reg\<close> is the constructor of the service, with the
  functions it adds to the dictionary.
\<close>

datatype ('d, 's) outcome = Serving 'd 's | Ended "exn option" 's

definition run_service :: "('k, 'i, 'ty, 'v, 'a) service_cfg \<Rightarrow>
    (('k, 'a, 'u) service \<Rightarrow> (('k, 'ty, 'v, 'a, 'u) service_dict, ('k, 'a, 'u) service) res option) \<Rightarrow>
    'a acceptor \<Rightarrow> (nat \<Rightarrow> 'k transport) \<Rightarrow> nat \<Rightarrow> 'u \<Rightarrow>
    (('k, 'ty, 'v, 'a, 'u) service_dict, ('k, 'a, 'u) service) outcome option" where
  "run_service cfg reg ac store thread u =
     (case reg (new_service ac store thread u) of
        None \<Rightarrow> None
      | Some (Exn e s) \<Rightarrow> Some (Ended (Some e) s)
      | Some (Ret D s) \<Rightarrow>
          (case start_service cfg (-1) s of
             Exn e s1 \<Rightarrow> Some (Ended (Some e) s1)
           | Ret _ s1 \<Rightarrow> Some (Serving D s1)))"

text \<open>With the argument \<open>-t\<close> the calculator's server stops at once; the stop need not end.\<close>

definition call_server_main :: "('k, 'i, calc_type, calc_value, 'a) service_cfg \<Rightarrow> 't calc_timer_lib \<Rightarrow>
    string list \<Rightarrow> 'a acceptor \<Rightarrow> (nat \<Rightarrow> 'k transport) \<Rightarrow> nat \<Rightarrow> 't \<Rightarrow>
    (('k, calc_type, calc_value, 'a, 't calc_data) service_dict, ('k, 'a, 't) calc_service) outcome option" where
  "call_server_main cfg T av ac store thread timer =
     (case run_service cfg (calc_register cfg T) ac store thread \<lparr>myResultTimer = timer, cd_closed = 0\<rparr> of
        Some (Serving D s) \<Rightarrow>
          if length av > 1 \<and> av ! 1 = ''-t''
          then (case stop_service cfg s of
                  None \<Rightarrow> None
                | Some (Ret _ s1) \<Rightarrow> Some (Ended None s1)
                | Some (Exn e s1) \<Rightarrow> Some (Ended (Some e) s1))
          else Some (Serving D s)
      | r \<Rightarrow> r)"

text \<open>The event sources' program: the service it runs, or its exit code.\<close>

datatype event_program = Run_simple | Run_poly | Exit_code int

definition event_server_main :: "string list \<Rightarrow> event_program" where
  "event_server_main av =
     (if length av < 2 then Exit_code 0
      else if av ! 1 = ''-s'' then Run_simple
      else if av ! 1 = ''-p'' then Run_poly
      else Exit_code 2)"

definition clock_server_main :: "('k, 'i, clock_type, clock_value, 'a) service_cfg \<Rightarrow> 't timer_lib \<Rightarrow>
    'a acceptor \<Rightarrow> (nat \<Rightarrow> 'k transport) \<Rightarrow> nat \<Rightarrow> 64 word \<Rightarrow> 't \<Rightarrow>
    (('k, clock_type, clock_value, 'a, 't clock_data) service_dict, ('k, 'a, 't) clock_service) outcome option" where
  "clock_server_main cfg T ac store thread t timer =
     run_service cfg (clock_register cfg T) ac store thread (new_clock_data t timer)"

section \<open>Arguments of a child\<close>

text \<open>Words as a test writes them, separated by single blanks.\<close>

definition is_word :: "string \<Rightarrow> bool" where
  "is_word w \<longleftrightarrow> w \<noteq> [] \<and> list_all (\<lambda>c. \<not> is_space c) w"

fun join_words :: "string list \<Rightarrow> string" where
  "join_words [] = []"
| "join_words [w] = w"
| "join_words (w # v # ws) = w @ CHR '' '' # join_words (v # ws)"

lemma blank_is_space [simp]: "is_space (CHR '' '')"
  by (simp add: is_space_def)

lemma word_takeWhile:
  assumes "list_all (\<lambda>c. \<not> is_space c) w"
  shows "takeWhile (\<lambda>c. \<not> is_space c) (w @ CHR '' '' # r) = w"
    and "dropWhile (\<lambda>c. \<not> is_space c) (w @ CHR '' '' # r) = CHR '' '' # r"
    and "takeWhile (\<lambda>c. \<not> is_space c) w = w" and "dropWhile (\<lambda>c. \<not> is_space c) w = []"
  using assms by (induction w) simp_all

lemma join_words_first:
  "is_word w \<Longrightarrow> \<exists>c cs. join_words (w # ws) = c # cs \<and> \<not> is_space c"
  by (cases w; cases ws) (auto simp: is_word_def)

lemma split_join: "ws \<noteq> [] \<Longrightarrow> list_all is_word ws \<Longrightarrow> split_args (join_words ws) = ws"
proof (induction ws rule: join_words.induct)
  case (2 w)
  then show ?case
    by (subst split_args.simps) (simp add: is_word_def word_takeWhile)
next
  case (3 w v ws)
  obtain c cs where c: "join_words (v # ws) = c # cs" "\<not> is_space c"
    using 3(3) join_words_first [of v ws] by auto
  have w: "list_all (\<lambda>c. \<not> is_space c) w"
    using 3(3) by (simp add: is_word_def)
  have "split_args (w @ CHR '' '' # c # cs) = w # split_args (c # cs)"
    using c(2) by (subst split_args.simps) (simp add: word_takeWhile [OF w] Let_def)
  then show ?case
    using 3 c(1) by simp
qed simp

text \<open>
  Starting a test server. The arguments a child process gets are the path of its program and
  exactly the words of the argument string that is written with blanks between them.
\<close>

lemma child_gets_its_words:
  assumes "ws \<noteq> []" and "list_all is_word ws" and "path \<noteq> []" and "px_fork P w = (0, w1)"
  shows "process_create P (Some path) (Some (join_words ws)) (p, w) =
    Ret (Child_exit (-1)) (p, px_execv P path (path # ws) w1)"
  using assms by (cases path) (simp_all add: process_create_def child_args_def split_join)

text \<open>
  An empty string, or one that begins with a blank, gives the child an empty argument; and the
  process number of an object that has not created a process is \<open>-1\<close>, with which the system
  signals every process it may.
\<close>

lemma empty_arguments: "child_args path (Some []) = [path, []]"
  by (simp add: child_args_def split_args.simps)

lemma leading_blank:
  assumes "is_word w"
  shows "child_args path (Some (CHR '' '' # w)) = [path, [], w]"
proof -
  have "dropWhile is_space w = w" "w \<noteq> []"
    using assms by (cases w; simp add: is_word_def)+
  moreover have "split_args w = [w]"
    using split_join [of "[w]"] assms by simp
  ultimately show ?thesis
    unfolding child_args_def option.case by (subst split_args.simps) simp
qed

lemma uncreated_process_signals_all:
  "process_kill P new_process = process_signal P ''Process::kill: '' (-1) SIGKILL"
  "process_shutdown P new_process = process_signal P ''Process::shutdown(pid): '' (-1) SIGTERM"
  by (simp_all add: process_kill_def process_shutdown_def new_process_def)

end
