(* ===== verification/Test_Framework.thy ===== *)
theory Test_Framework
  imports Test_Programs
begin

text \<open>
  What the test cases are written with: the state of a test process, the expectations of the
  test library, and the event loop of the fixture (\<open>unittests/testutil.h\<close>). The closures of the
  tests change local variables and record expectations but do nothing to the client, so their
  effects follow from the callbacks the client makes.
\<close>

section \<open>The state of a test\<close>

text \<open>
  The members of the fixture, the local variables of the test (flags by name) and the number of
  expectations that did not hold. \<open>myWorld\<close> is everything outside the process.
\<close>

record ('k, 'ty, 'v, 'w) test =
  myClient :: "('k, 'ty, 'v) client"
  myServerProc :: process
  myWorld :: 'w
  testFlags :: "string \<Rightarrow> bool"
  testFailures :: nat

text \<open>
  The environment: the client's template parameters, the thread, the sockets of new transports,
  the path of the test program, the system calls, the time in seconds, and which completion the
  event loop of the test hands to the client next, if there will be one.
\<close>

record ('k, 'i, 'ty, 'v, 'w) test_env =
  te_cfg :: "('k, 'i, 'ty, 'v) client_cfg"
  te_thread :: nat
  te_sockets :: "'w \<Rightarrow> nat \<Rightarrow> 'k"
  te_program :: program
  te_posix :: "'w posix"
  te_seconds :: "'w \<Rightarrow> nat"
  te_next :: "('k, 'ty, 'v) client \<Rightarrow> 'w \<Rightarrow> (('ty, 'v) client_event \<times> 'w) option"

type_synonym ('k, 'ty, 'v, 'w, 'b) test_action =
  "('k, 'ty, 'v, 'w) test \<Rightarrow> ('b, ('k, 'ty, 'v, 'w) test) res option"

type_synonym ('k, 'ty, 'v, 'w) test_closures =
  "'v callback \<Rightarrow> ('k, 'ty, 'v, 'w) test \<Rightarrow> ('k, 'ty, 'v, 'w) test"

definition then_do :: "('k, 'ty, 'v, 'w, 'b) test_action \<Rightarrow> ('b \<Rightarrow> ('k, 'ty, 'v, 'w, 'c) test_action) \<Rightarrow>
    ('k, 'ty, 'v, 'w, 'c) test_action" where
  "then_do m f t =
     (case m t of
        None \<Rightarrow> None
      | Some (Exn e t1) \<Rightarrow> Some (Exn e t1)
      | Some (Ret b t1) \<Rightarrow> f b t1)"

fun in_sequence :: "('k, 'ty, 'v, 'w, unit) test_action list \<Rightarrow> ('k, 'ty, 'v, 'w, unit) test_action" where
  "in_sequence [] t = Some (Ret () t)"
| "in_sequence (m # ms) t = then_do m (\<lambda>_. in_sequence ms) t"

section \<open>Expectations\<close>

definition expect :: "bool \<Rightarrow> ('k, 'ty, 'v, 'w) test \<Rightarrow> ('k, 'ty, 'v, 'w) test" where
  "expect b t = (if b then t else t\<lparr>testFailures := testFailures t + 1\<rparr>)"

definition set_flag :: "string \<Rightarrow> bool \<Rightarrow> ('k, 'ty, 'v, 'w) test \<Rightarrow> ('k, 'ty, 'v, 'w) test" where
  "set_flag x b t = t\<lparr>testFlags := (testFlags t)(x := b)\<rparr>"

definition EXPECT :: "bool \<Rightarrow> ('k, 'ty, 'v, 'w, unit) test_action" where
  "EXPECT b t = Some (Ret () (expect b t))"

definition assign_flag :: "string \<Rightarrow> bool \<Rightarrow> ('k, 'ty, 'v, 'w, unit) test_action" where
  "assign_flag x b t = Some (Ret () (set_flag x b t))"

text \<open>
  \<open>EXPECT_THROW(statement, std::runtime_error)\<close>. A failed assertion or undefined behaviour ends
  the test process.
\<close>

definition EXPECT_THROW :: "('k, 'ty, 'v, 'w, 'b) test_action \<Rightarrow> ('k, 'ty, 'v, 'w, unit) test_action" where
  "EXPECT_THROW m t =
     (case m t of
        None \<Rightarrow> None
      | Some (Ret _ t1) \<Rightarrow> Some (Ret () (expect False t1))
      | Some (Exn e t1) \<Rightarrow>
          (case e of
             RuntimeError _ \<Rightarrow> Some (Ret () t1)
           | SystemError _ \<Rightarrow> Some (Ret () t1)
           | AssertFailed _ \<Rightarrow> Some (Exn e t1)
           | Undefined _ \<Rightarrow> Some (Exn e t1)
           | _ \<Rightarrow> Some (Ret () (expect False t1))))"

definition EXPECT_NO_THROW :: "('k, 'ty, 'v, 'w, 'b) test_action \<Rightarrow> ('k, 'ty, 'v, 'w, unit) test_action" where
  "EXPECT_NO_THROW m t =
     (case m t of
        None \<Rightarrow> None
      | Some (Ret _ t1) \<Rightarrow> Some (Ret () t1)
      | Some (Exn e t1) \<Rightarrow>
          (case e of
             AssertFailed _ \<Rightarrow> Some (Exn e t1)
           | Undefined _ \<Rightarrow> Some (Exn e t1)
           | _ \<Rightarrow> Some (Ret () (expect False t1))))"

section \<open>The client and the event loop\<close>

text \<open>An operation of the client; then the closures it called have their effects, in order.\<close>

definition settle :: "('k, 'ty, 'v, 'w) test_closures \<Rightarrow> ('k, 'ty, 'v) client \<Rightarrow> ('k, 'ty, 'v, 'w) test \<Rightarrow>
    ('k, 'ty, 'v, 'w) test" where
  "settle C s t = fold C (drop (length (callbacks (myClient t))) (callbacks s)) (t\<lparr>myClient := s\<rparr>)"

definition on_client :: "('k, 'ty, 'v, 'w) test_closures \<Rightarrow>
    (('k, 'ty, 'v) client \<Rightarrow> ('b, ('k, 'ty, 'v) client) res) \<Rightarrow> ('k, 'ty, 'v, 'w, 'b) test_action" where
  "on_client C f t =
     (case f (myClient t) of
        Ret b s \<Rightarrow> Some (Ret b (settle C s t))
      | Exn e s \<Rightarrow> Some (Exn e (settle C s t)))"

definition run_one :: "('k, 'i, 'ty, 'v, 'w) test_env \<Rightarrow> ('k, 'ty, 'v, 'w) test_closures \<Rightarrow>
    ('k, 'ty, 'v, 'w, unit) test_action" where
  "run_one E C t =
     (case te_next E (myClient t) (myWorld t) of
        None \<Rightarrow> None
      | Some (ev, w) \<Rightarrow> on_client C (client_step passive_user (te_cfg E) ev) (t\<lparr>myWorld := w\<rparr>))"

text \<open>\<open>EXPECT_EQ(process_io_events(flag, n), true)\<close>.\<close>

definition expect_events :: "('k, 'i, 'ty, 'v, 'w) test_env \<Rightarrow> ('k, 'ty, 'v, 'w) test_closures \<Rightarrow> string \<Rightarrow>
    int \<Rightarrow> ('k, 'ty, 'v, 'w, unit) test_action" where
  "expect_events E C flag n =
     then_do (process_io_events (run_one E C) (\<lambda>t. testFlags t flag) n) EXPECT"

definition expect_call_in_progress :: "('k, 'i, 'ty, 'v, 'w) test_env \<Rightarrow> ('k, 'ty, 'v, 'w) test_closures \<Rightarrow>
    string \<Rightarrow> bool \<Rightarrow> ('k, 'ty, 'v, 'w, unit) test_action" where
  "expect_call_in_progress E C f b =
     then_do (on_client C (is_call_in_progress (te_cfg E) f)) (\<lambda>r. EXPECT (r = b))"

definition expect_open :: "bool \<Rightarrow> ('k, 'ty, 'v, 'w, unit) test_action" where
  "expect_open b t = EXPECT (client_is_open (myClient t) = b) t"

definition close_the_client :: "('k, 'i, 'ty, 'v, 'w) test_env \<Rightarrow> ('k, 'ty, 'v, 'w) test_closures \<Rightarrow>
    ('k, 'ty, 'v, 'w, unit) test_action" where
  "close_the_client E C = on_client C (close_client (te_cfg E))"

text \<open>\<open>myClient = create_open_client(myIoService)\<close>, which is also what \<open>SetUp\<close> does.\<close>

definition set_up :: "('k, 'i, 'ty, 'v, 'w) test_env \<Rightarrow> ('k, 'ty, 'v, 'w, unit) test_action" where
  "set_up E t =
     (case create_open_client passive_user (te_cfg E) (te_thread E) (te_sockets E (myWorld t)) 4 of
        Inl e \<Rightarrow> Some (Exn e t)
      | Inr s \<Rightarrow> Some (Ret () (t\<lparr>myClient := s\<rparr>)))"

text \<open>A new client on a new transport that is not open yet.\<close>

definition make_client :: "('k, 'i, 'ty, 'v, 'w) test_env \<Rightarrow> ('k, 'ty, 'v, 'w, unit) test_action" where
  "make_client E t =
     Some (Ret () (t\<lparr>myClient := new_client (new_transport (te_sockets E (myWorld t) 0)) (te_thread E)\<rparr>))"

section \<open>The server process\<close>

definition in_world :: "('w \<Rightarrow> ('b, 'w) res) \<Rightarrow> ('k, 'ty, 'v, 'w, unit) test_action" where
  "in_world f t =
     (case f (myWorld t) of
        Ret _ w \<Rightarrow> Some (Ret () (t\<lparr>myWorld := w\<rparr>))
      | Exn e w \<Rightarrow> Some (Exn e (t\<lparr>myWorld := w\<rparr>)))"

definition shutdown_server :: "('k, 'i, 'ty, 'v, 'w) test_env \<Rightarrow> ('k, 'ty, 'v, 'w, unit) test_action" where
  "shutdown_server E t = in_world (process_shutdown (te_posix E) (myServerProc t)) t"

definition wait_server :: "('k, 'i, 'ty, 'v, 'w) test_env \<Rightarrow> ('k, 'ty, 'v, 'w, unit) test_action" where
  "wait_server E t = in_world (process_wait (te_posix E) (myServerProc t)) t"

text \<open>\<open>start_service\<close> goes on in the parent; the child does not come back to the test.\<close>

definition in_parent :: "('k, 'ty, 'v, 'w) test \<Rightarrow> (fork_side, process \<times> 'w) res \<Rightarrow>
    (unit, ('k, 'ty, 'v, 'w) test) res option" where
  "in_parent t r =
     (case r of
        Exn e (p, w) \<Rightarrow> Some (Exn e (t\<lparr>myServerProc := p, myWorld := w\<rparr>))
      | Ret side (p, w) \<Rightarrow>
          (case side of
             Parent \<Rightarrow> Some (Ret () (t\<lparr>myServerProc := p, myWorld := w\<rparr>))
           | Child_exit _ \<Rightarrow> None))"

definition start_server :: "('k, 'i, 'ty, 'v, 'w) test_env \<Rightarrow> string option \<Rightarrow>
    ('k, 'ty, 'v, 'w, unit) test_action" where
  "start_server E args t =
     (case start_test_service (te_posix E) (te_program E) args (myServerProc t, myWorld t) of
        None \<Rightarrow> None
      | Some r \<Rightarrow> in_parent t r)"

text \<open>A test passes if it returns and no expectation fails.\<close>

definition passes :: "('k, 'ty, 'v, 'w, unit) test_action \<Rightarrow> ('k, 'ty, 'v, 'w) test \<Rightarrow> bool" where
  "passes m t \<longleftrightarrow> (case m t of Some (Ret _ t1) \<Rightarrow> testFailures t1 = testFailures t | _ \<Rightarrow> False)"

section \<open>The main program of the tests\<close>

text \<open>
  The test library takes its own arguments out of the command line; the program keeps those that
  are left for the test cases and runs them. \<open>init\<close> and \<open>run_all\<close> are the library.
\<close>

definition test_main :: "(string list \<Rightarrow> 'w \<Rightarrow> string list \<times> 'w) \<Rightarrow>
    (string list \<Rightarrow> 'w \<Rightarrow> int \<times> 'w) \<Rightarrow> (string \<Rightarrow> 'w \<Rightarrow> 'w) \<Rightarrow> string list \<Rightarrow> string list \<Rightarrow> 'w \<Rightarrow>
    (int \<times> string list) \<times> 'w" where
  "test_main init run_all print programArguments argv w =
     (let (argv, w) = init argv w;
          programArguments = fold (\<lambda>a xs. xs @ [a]) argv programArguments;
          w = print (''Run all tests()'' @ [CHR 0x0A]) w;
          (code, w) = run_all programArguments w
      in ((code, programArguments), w))"

lemma test_main_arguments:
  "snd (fst (test_main init run_all print [] argv w)) = fst (init argv w)"
proof -
  have "fold (\<lambda>a xs. xs @ [a]) as bs = bs @ as" for as bs :: "string list"
    by (induction as arbitrary: bs) auto
  then show ?thesis by (simp add: test_main_def Let_def split: prod.split)
qed

end
