(* ===== verification/Call_Tests.thy ===== *)
theory Call_Tests
  imports Test_Framework
begin

text \<open>
  The test cases of \<open>unittests/calltest.cpp\<close>: calls of the calculator from a client in the test
  process. Each test is a sequence of actions, with a table of the closures it passes.
\<close>

type_synonym ('k, 'i, 'w) calc_env = "('k, 'i, calc_type, calc_value, 'w) test_env"
type_synonym ('k, 'w, 'b) calc_action = "('k, calc_type, calc_value, 'w, 'b) test_action"
type_synonym ('k, 'w) calc_closures = "('k, calc_type, calc_value, 'w) test_closures"
type_synonym ('k, 'w) calc_test = "('k, calc_type, calc_value, 'w) test"

abbreviation closure_of :: "calc_type \<Rightarrow> nat \<Rightarrow> calc_type closure" where
  "closure_of ty n \<equiv> \<lparr>clo_fun = Some n, clo_type = Some ty\<rparr>"

definition test_add :: "('k, 'i, 'w) calc_env \<Rightarrow> ('k, 'w) calc_closures \<Rightarrow> 8 word \<Rightarrow> 16 word \<Rightarrow> 32 word \<Rightarrow>
    nat \<Rightarrow> ('k, 'w, unit) calc_action" where
  "test_add E C a b c n = on_client C (calc_client_add passive_user (te_cfg E) a b c (closure_of TI32 n))"

text \<open>
  The closure of most tests: it expects a result without error, asserts its value, which leaves
  the closure if it is another, and sets a flag.
\<close>

definition value_closure :: "string \<Rightarrow> calc_value \<Rightarrow> calc_value result \<Rightarrow> ('k, 'w) calc_test \<Rightarrow>
    ('k, 'w) calc_test" where
  "value_closure flag v r t =
     (let t1 = expect (Result_bool r) t
      in if res_value r = Some v then set_flag flag True t1 else expect False t1)"

section \<open>Single calls\<close>

fun simple_call_closures :: "('k, 'w) calc_closures" where
  "simple_call_closures (OnResult n r) t = value_closure ''gotResult'' (I32 (12 + 23 + 34)) r t"
| "simple_call_closures cb t = t"

definition test_simple_call :: "('k, 'i, 'w) calc_env \<Rightarrow> ('k, 'w, unit) calc_action" where
  "test_simple_call E =
     (let C = simple_call_closures
      in in_sequence
        [assign_flag ''gotResult'' False,
         test_add E C 12 23 34 1,
         expect_call_in_progress E C ''add'' True,
         expect_events E C ''gotResult'' 2,
         expect_call_in_progress E C ''add'' False])"

fun pointers_closures :: "('k, 'w) calc_closures" where
  "pointers_closures (OnResult n r) t = value_closure ''gotResult'' (I32 (1234 + 4321)) r t"
| "pointers_closures cb t = t"

definition test_pointers :: "('k, 'i, 'w) calc_env \<Rightarrow> ('k, 'w, unit) calc_action" where
  "test_pointers E =
     (let C = pointers_closures
      in in_sequence
        [assign_flag ''gotResult'' False,
         on_client C (calc_client_add_by_pointers passive_user (te_cfg E) (Some 1234) (Some 4321) (closure_of TI32 1)),
         expect_events E C ''gotResult'' 2])"

text \<open>The generator of random numbers is a parameter, \<open>gen\<close>, with its state.\<close>

primrec generate_data :: "('g \<Rightarrow> 32 word \<times> 'g) \<Rightarrow> nat \<Rightarrow> 'g \<Rightarrow> 32 word list \<times> 'g" where
  "generate_data gen 0 g = ([], g)"
| "generate_data gen (Suc n) g =
     (let (x, g1) = gen g; (xs, g2) = generate_data gen n g1 in (x # xs, g2))"

definition plus_int64 :: "32 word \<Rightarrow> 32 word \<Rightarrow> 64 word" where
  "plus_int64 x y = word_of_int (sint x) + word_of_int (sint y)"

fun large_message_closures :: "32 word list \<Rightarrow> 32 word list \<Rightarrow> ('k, 'w) calc_closures" where
  "large_message_closures a b (OnResult n r) t =
     set_flag ''gotResult'' True
       (expect (res_value r = Some (Vec64 (map2 plus_int64 a b))) (expect (Result_bool r) t))"
| "large_message_closures a b cb t = t"

definition test_large_message :: "('k, 'i, 'w) calc_env \<Rightarrow> ('g \<Rightarrow> 32 word \<times> 'g) \<Rightarrow> 'g \<Rightarrow> ('k, 'w, unit) calc_action" where
  "test_large_message E gen g =
     (let (a, g1) = generate_data gen 1024 g;
          (b, g2) = generate_data gen 1024 g1;
          C = large_message_closures a b
      in in_sequence
        [assign_flag ''gotResult'' False,
         on_client C (calc_client_add_vector passive_user (te_cfg E) a b (closure_of TVec64 1)),
         expect_events E C ''gotResult'' 9])"

section \<open>Queued calls\<close>

text \<open>The closures of the calls that are refused and repeated do nothing.\<close>

fun queued_calls_closures :: "('k, 'w) calc_closures" where
  "queued_calls_closures (OnResult n r) t =
     (if n = 1 then value_closure ''gotResultCall1'' (I32 (1 + 2 + 3)) r t
      else if n = 2 then value_closure ''gotResultCall2'' (I32 (4 + 5 + 6)) r t
      else if n = 3 then value_closure ''gotResultCall3'' (I32 (7 + 8 + 9)) r t
      else t)"
| "queued_calls_closures cb t = t"

definition test_queued_calls :: "('k, 'i, 'w) calc_env \<Rightarrow> ('k, 'w, unit) calc_action" where
  "test_queued_calls E =
     (let C = queued_calls_closures
      in in_sequence
        [assign_flag ''gotResultCall1'' False,
         assign_flag ''gotResultCall2'' False,
         assign_flag ''gotResultCall3'' False,
         test_add E C 1 2 3 1,
         test_add E C 4 5 6 2,
         test_add E C 7 8 9 3,
         EXPECT_THROW (test_add E C 0 1 2 4),
         expect_events E C ''gotResultCall1'' 2,
         EXPECT_NO_THROW (test_add E C 0 1 2 5),
         expect_events E C ''gotResultCall2'' 4,
         expect_events E C ''gotResultCall3'' 4])"

section \<open>Opening asynchronously\<close>

fun async_open_closures :: "('k, 'w) calc_closures" where
  "async_open_closures (OnOpen n r) t =
     (if n = 1 then expect (Result_bool r) (set_flag ''gotResult'' True t)
      else expect (myNetLibCode (myError r) = EISCONN) (expect (\<not> Result_bool r) (set_flag ''gotResult'' True t)))"
| "async_open_closures (OnResult n r) t = value_closure ''gotResult'' (I32 (100 + 200 + 300)) r t"
| "async_open_closures cb t = t"

definition test_async_open :: "('k, 'i, 'w) calc_env \<Rightarrow> ('k, 'w, unit) calc_action" where
  "test_async_open E =
     (let C = async_open_closures
      in in_sequence
        [close_the_client E C,
         make_client E,
         expect_open False,
         assign_flag ''gotResult'' False,
         on_client C (open_client_async passive_user (te_cfg E) 1),
         expect_events E C ''gotResult'' 4,
         expect_open True,
         assign_flag ''gotResult'' False,
         test_add E C 100 200 300 1,
         expect_events E C ''gotResult'' 2,
         assign_flag ''gotResult'' False,
         on_client C (open_client_async passive_user (te_cfg E) 2)])"

section \<open>Many clients\<close>

text \<open>
  The master starts four more test processes through the object of the server process and then
  asks the service once a second how many clients it has, until it is the only one or has asked
  four times. The flag says that the closure has set \<open>keepRunning\<close> to zero.
\<close>

primrec start_slaves :: "nat \<Rightarrow> ('k, 'i, 'w) calc_env \<Rightarrow> ('k, 'w, unit) calc_action" where
  "start_slaves 0 E t = Some (Ret () t)"
| "start_slaves (Suc i) E t =
     then_do (\<lambda>t. in_parent t (process_create (te_posix E) (Some (myPath (te_program E)))
                (Some ''--gtest_filter=*test_many_clients --test_many_clients'') (myServerProc t, myWorld t)))
       (\<lambda>_. start_slaves i E) t"

fun count_closures :: "('k, 'w) calc_closures" where
  "count_closures (OnResult n r) t =
     (let t1 = expect (Result_bool r) t;
          t2 = (if res_value r = Some (SizeT 1) then set_flag ''alone'' True t1 else t1)
      in set_flag ''gotResult'' True t2)"
| "count_closures cb t = t"

primrec count_until_alone :: "nat \<Rightarrow> ('k, 'i, 'w) calc_env \<Rightarrow> ('k, 'w, unit) calc_action" where
  "count_until_alone 0 E t = Some (Ret () t)"
| "count_until_alone (Suc keepRunning) E t =
     then_do (in_sequence
        [\<lambda>t. Some (Ret () (t\<lparr>myWorld := px_sleep (te_posix E) 1000 (myWorld t)\<rparr>)),
         assign_flag ''gotResult'' False,
         on_client count_closures
           (calc_client_get_connected_clients_count passive_user (te_cfg E) (closure_of TSizeT 1)),
         expect_events E count_closures ''gotResult'' 4])
       (\<lambda>_ t1. if testFlags t1 ''alone'' then Some (Ret () t1) else count_until_alone keepRunning E t1) t"

text \<open>
  A slave adds random numbers for two seconds. The narrowing casts of the arguments keep the low
  bits; the sum that the closure expects is computed in 32 bits, where an overflow is undefined and
  the model wraps around.
\<close>

fun slave_closures :: "32 word list \<Rightarrow> ('k, 'w) calc_closures" where
  "slave_closures v (OnResult n r) t =
     set_flag ''gotResult'' True
       (expect (res_value r = Some (I32 (scast (ucast (v ! 0) :: 8 word) + scast (ucast (v ! 1) :: 16 word) + v ! 2)))
         (expect (Result_bool r) t))"
| "slave_closures v cb t = t"

definition slave_call :: "('k, 'i, 'w) calc_env \<Rightarrow> 32 word list \<Rightarrow> ('k, 'w, unit) calc_action" where
  "slave_call E v =
     in_sequence
       [assign_flag ''gotResult'' False,
        test_add E (slave_closures v) (ucast (v ! 0)) (ucast (v ! 1)) (v ! 2) 1,
        expect_events E (slave_closures v) ''gotResult'' 10]"

partial_function (option) slave_loop :: "('k, 'i, 'w) calc_env \<Rightarrow> ('g \<Rightarrow> 32 word \<times> 'g) \<Rightarrow> nat \<Rightarrow> 'g \<Rightarrow>
    ('k, 'w) calc_test \<Rightarrow> (unit, ('k, 'w) calc_test) res option" where
  "slave_loop E gen tStart g t =
     (case slave_call E (fst (generate_data gen 3 g)) t of
        None \<Rightarrow> None
      | Some r \<Rightarrow>
          (case r of
             Exn e t1 \<Rightarrow> Some (Exn e t1)
           | Ret _ t1 \<Rightarrow>
               if te_seconds E (myWorld t1) - tStart < 2
               then slave_loop E gen tStart (snd (generate_data gen 3 g)) t1
               else Some (Ret () t1)))"

definition test_many_clients :: "('k, 'i, 'w) calc_env \<Rightarrow> ('g \<Rightarrow> 32 word \<times> 'g) \<Rightarrow> 'g \<Rightarrow> bool \<Rightarrow>
    ('k, 'w, unit) calc_action" where
  "test_many_clients E gen g multipleClientTestSlave t =
     (if \<not> multipleClientTestSlave
      then in_sequence [start_slaves 4 E, assign_flag ''alone'' False, count_until_alone 4 E] t
      else slave_loop E gen (te_seconds E (myWorld t)) g t)"

section \<open>The fixture\<close>

text \<open>The fixture starts the server unless the test process is a slave, whose arguments say so.\<close>

definition is_slave :: "string list \<Rightarrow> bool" where
  "is_slave programArguments \<longleftrightarrow> ''--test_many_clients'' \<in> set programArguments"

definition call_set_up_case :: "('k, 'i, 'w) calc_env \<Rightarrow> string list \<Rightarrow> ('k, 'w, unit) calc_action" where
  "call_set_up_case E programArguments t =
     (if \<not> is_slave programArguments then start_server E None t else Some (Ret () t))"

definition call_tear_down_case :: "('k, 'i, 'w) calc_env \<Rightarrow> string list \<Rightarrow> ('k, 'w, unit) calc_action" where
  "call_tear_down_case E programArguments t =
     (if \<not> is_slave programArguments
      then in_world (stop_test_service_by_call passive_user (te_cfg E) (te_thread E) (te_sockets E (myWorld t))
             (te_posix E) (myServerProc t)) t
      else Some (Ret () t))"

end
