(* ===== verification/Test_Bench.thy ===== *)
theory Test_Bench
  imports Network_Session Calculator_Spec Call_Tests
begin

text \<open>
  The test process with the calculator's service at the other end of its connection. Before the
  event loop of the test runs a handler, the service has dealt with all bytes that the client has
  written; then the outstanding read of the client completes, if as many bytes as it asked for
  have arrived. The client and the service together refine a queue of calls.
\<close>

section \<open>The service at the other end\<close>

record ('k, 'l, 'i, 'a, 't) bench =
  bn_cfg :: "('k, 'i, calc_type, calc_value) client_cfg"
  bn_scfg :: "('l, 'i, calc_type, calc_value, 'a) service_cfg"
  bn_timer :: "'t calc_timer_lib"
  bn_peer :: nat
  bn_out :: "'k \<Rightarrow> byte list"
  bn_sout :: "'l \<Rightarrow> byte list"

record ('l, 'a, 't) bench_world =
  bw_service :: "('l, 'a, 't) calc_service"
  bw_up :: nat
  bw_down :: nat

definition server_gone :: error_code where
  "server_gone = \<lparr>ec_value = 2, ec_category = ''asio.misc'', ec_message = ''End of file''\<rparr>"

text \<open>\<open>None\<close> is a read that never completes. A service that throws has ended.\<close>

definition bench_next :: "('k, 'l, 'i, 'a, 't) bench \<Rightarrow> ('k, calc_type, calc_value) client \<Rightarrow>
    ('l, 'a, 't) bench_world \<Rightarrow> ((calc_type, calc_value) client_event \<times> ('l, 'a, 't) bench_world) option" where
  "bench_next B s w =
     (let out = bn_out B (mySocket (myTransport s)); n = length (myBuffer (myTransport s))
      in case service_pump (bn_scfg B) (calc_dict (bn_scfg B) (bn_timer B)) (bn_peer B)
                (drop (bw_up w) out) (bw_service w) of
           Exn e S \<Rightarrow> Some (ReceiveError server_gone, w\<lparr>bw_service := S\<rparr>)
         | Ret rest S \<Rightarrow>
             let down = drop (bw_down w) (bn_sout B (mySocket (svTransports S (bn_peer B))))
             in if 0 < n \<and> n \<le> length down
                then Some (Received (take n down),
                  w\<lparr>bw_service := S, bw_up := length out - length rest, bw_down := bw_down w + n\<rparr>)
                else None)"

definition bench_ok :: "('k, 'l, 'i, 'a, 't) bench \<Rightarrow> bool" where
  "bench_ok B \<longleftrightarrow>
     sc_arch (bn_scfg B) = cf_archive (bn_cfg B) \<and> sc_endian (bn_scfg B) = cf_endian (bn_cfg B) \<and>
     sc_interface (bn_scfg B) = cf_interface (bn_cfg B) \<and> archive_ok (cf_archive (bn_cfg B)) calc_type_of \<and>
     lossless (cf_io (bn_cfg B)) (bn_out B) \<and> lossless (sc_io (bn_scfg B)) (bn_sout B) \<and>
     0 < cf_max_calls (bn_cfg B)"

section \<open>A function that answers at once\<close>

text \<open>
  \<open>Args\<close> are the argument lists for which the function \<open>f\<close> of the calculator answers at once, with
  \<open>ans\<close> of the arguments, a result of type \<open>ty\<close>.
\<close>

definition answers_with :: "('k, 'l, 'i, 'a, 't) bench \<Rightarrow> string \<Rightarrow> (calc_value list \<Rightarrow> bool) \<Rightarrow> calc_type \<Rightarrow>
    (calc_value list \<Rightarrow> calc_value result) \<Rightarrow> bool" where
  "answers_with B f Args ty ans \<longleftrightarrow>
     (\<exists>e. calc_dict (bn_scfg B) (bn_timer B) (full_name (bn_cfg B) f) = Some e \<and> \<not> de_one_way e \<and>
        (\<forall>vs. Args vs \<longrightarrow> map calc_type_of vs = de_args e \<and>
           (\<forall>c S. de_func e vs (Some c) S = run_service_closure (bn_scfg B) c (ans vs) S))) \<and>
     (\<forall>vs. Args vs \<longrightarrow> result_has_type calc_type_of (Some ty) (ans vs)) \<and>
     full_name (bn_cfg B) f \<noteq> myBroadcastFuncName (bn_cfg B)"

text \<open>A call with arguments and an answer of legal sizes.\<close>

definition call_ok :: "('k, 'l, 'i, 'a, 't) bench \<Rightarrow> string \<Rightarrow> (calc_value list \<Rightarrow> bool) \<Rightarrow>
    (calc_value list \<Rightarrow> calc_value result) \<Rightarrow> bool \<Rightarrow> nat \<times> calc_value list \<Rightarrow> bool" where
  "call_ok B f Args ans ar x \<longleftrightarrow> Args (snd x) \<and>
     body_ok (call_body (cf_archive (bn_cfg B)) ar (full_name (bn_cfg B) f) (snd x)) \<and>
     body_ok (result_body (cf_archive (bn_cfg B)) ar (full_name (bn_cfg B) f) (ans (snd x)))"

section \<open>The queue of calls\<close>

text \<open>
  The calls that are outstanding, as closures and arguments: the first is on its way to the
  service, the others wait in the client.
\<close>

fun first_frame :: "('k, 'l, 'i, 'a, 't) bench \<Rightarrow> string \<Rightarrow> bool \<Rightarrow> (nat \<times> calc_value list) list \<Rightarrow> byte list" where
  "first_frame B f ar [] = []"
| "first_frame B f ar (x # xs) =
     frame (cf_endian (bn_cfg B)) (call_body (cf_archive (bn_cfg B)) ar (full_name (bn_cfg B) f) (snd x))"

definition serving :: "('k, 'l, 'i, 'a, 't) bench \<Rightarrow> string \<Rightarrow> calc_type \<Rightarrow> ('k, calc_type, calc_value) client \<Rightarrow>
    ('l, 'a, 't) bench_world \<Rightarrow> (nat \<times> calc_value list) list \<Rightarrow> bool" where
  "serving B f ty s w calls \<longleftrightarrow>
     (let cfg = bn_cfg B; fn = full_name cfg f; A = cf_archive cfg; S = bw_service w; p = bn_peer B;
          out = bn_out B (mySocket (myTransport s))
      in cfg_inv cfg s \<and> fifo_ok s \<and> client_ready s \<and> can_receive s \<and> at_header s \<and>
         outstanding fn s = map (closure_of ty \<circ> fst) calls \<and>
         map fst (waiting (myCallQueue s) fn) = map (serialize_call A (myArchives s) fn \<circ> snd) (tl calls) \<and>
         service_inv S \<and> (\<exists>cs. map_of (myClients S) p = Some cs \<and> cs_archives cs = myArchives s) \<and>
         service_at_header p S \<and> (fn, p) \<notin> set (myPendingCalls S) \<and>
         bw_up w \<le> length out \<and>
         drop (bw_up w) out = first_frame B f (myArchives s) calls \<and>
         bw_down w = length (bn_sout B (mySocket (svTransports S p))))"

text \<open>Writing a call.\<close>

lemma bench_call_written:
  assumes "bench_ok B" and "body_ok (call_body (cf_archive (bn_cfg B)) ar fn vs)"
    and msg: "msg = serialize_call (cf_archive (bn_cfg B)) ar fn vs"
  shows "write_succeeds (bn_cfg B) msg s"
    and "bn_out B (mySocket (myTransport (after_write (bn_cfg B) msg s))) =
      bn_out B (mySocket (myTransport s)) @ frame (cf_endian (bn_cfg B)) (call_body (cf_archive (bn_cfg B)) ar fn vs)"
proof -
  have arch: "archive_ok (cf_archive (bn_cfg B)) calc_type_of"
    using assms(1) by (simp add: bench_ok_def)
  have "message_with_header (cf_endian (bn_cfg B)) msg =
      Inr (frame (cf_endian (bn_cfg B)) (call_body (cf_archive (bn_cfg B)) ar fn vs))"
    unfolding msg by (rule body_frames(3) [OF arch assms(2)])
  then show "write_succeeds (bn_cfg B) msg s"
    and "bn_out B (mySocket (myTransport (after_write (bn_cfg B) msg s))) =
      bn_out B (mySocket (myTransport s)) @ frame (cf_endian (bn_cfg B)) (call_body (cf_archive (bn_cfg B)) ar fn vs)"
    using assms(1) by (simp_all add: bench_ok_def write_succeeds_def after_write_def lossless_def)
qed

lemma serving_call:
  assumes "bench_ok B" and "serving B f ty s w calls" and "call_ok B f Args ans (myArchives s) (n, vs)"
    and "length calls < cf_max_calls (bn_cfg B)"
  shows "\<exists>s'. send_call passive_user (bn_cfg B) f (closure_of ty n) vs s = Ret () s' \<and>
    serving B f ty s' w (calls @ [(n, vs)]) \<and> callbacks s' = callbacks s \<and> myArchives s' = myArchives s"
proof -
  let ?cfg = "bn_cfg B" and ?fn = "full_name (bn_cfg B) f"
  let ?m = "serialize_call (cf_archive ?cfg) (myArchives s) ?fn vs"
  note sv = assms(2) [unfolded serving_def Let_def]
  have body: "body_ok (call_body (cf_archive ?cfg) (myArchives s) ?fn vs)"
    using assms(3) by (simp add: call_ok_def)
  show ?thesis
  proof (cases calls)
    case Nil
    let ?s' = "enqueue_closure ?fn (closure_of ty n) (after_write ?cfg ?m s)"
    have idle: "\<not> in_keys ?fn (myClosures s)"
      using sv Nil outstanding_Nil_iff [of s ?fn] by simp
    note written = bench_call_written [OF assms(1) body refl, of s]
    have "send_call passive_user ?cfg f (closure_of ty n) vs s = Ret () ?s'"
      using send_call_direct [OF _ idle, of vs passive_user "closure_of ty n"] sv written(1) by simp
    moreover have "cfg_inv ?cfg (after_write ?cfg ?m s)"
      using sv by (simp add: client_inv_def)
    then have "serving B f ty ?s' w [(n, vs)]"
      using sv Nil written(2) idle client_inv_enqueue_closure [of "call_limit ?cfg" "after_write ?cfg ?m s"]
      by (simp add: serving_def Let_def fifo_ok_enqueue_closure outstanding_enqueue_closure at_header_def
          fifo_ok_empty)
    ultimately show ?thesis
      using Nil by simp
  next
    case (Cons x xs)
    let ?s' = "s\<lparr>myCallQueue := enqueue_call ?fn (?m, closure_of ty n) (myCallQueue s)\<rparr>"
    have busy: "in_keys ?fn (myClosures s)"
      using sv Cons by (metis list.map(2) list.simps(3) outstanding_Nil_iff)
    then have room: "length (waiting (myCallQueue s) ?fn) < call_limit ?cfg"
      using assms(4) sv outstanding_length [OF busy] by (simp add: call_limit_def)
    have "send_call passive_user ?cfg f (closure_of ty n) vs s = Ret () ?s'"
      using send_call_queued [OF _ busy, of passive_user "closure_of ty n" vs] sv room by simp
    moreover have "serving B f ty ?s' w (calls @ [(n, vs)])"
      using sv Cons busy room client_inv_enqueue_call [of "call_limit ?cfg" s ?fn]
      by (simp add: serving_def Let_def fifo_ok_enqueue_call outstanding_enqueue_call at_header_def
          can_enqueue_iff waiting_enqueue client_ready_def can_receive_def)
    ultimately show ?thesis
      by simp
  qed
qed

lemma serving_full:
  assumes "serving B f ty s w calls" and "cf_max_calls (bn_cfg B) \<le> length calls" and "calls \<noteq> []"
  shows "send_call passive_user (bn_cfg B) f c vs s = Exn (RuntimeError
    ''cercall::Client::send_call: the limit of queueing function calls is exceeded'') s"
proof -
  note sv = assms(1) [unfolded serving_def Let_def]
  have busy: "in_keys (full_name (bn_cfg B) f) (myClosures s)"
    using sv assms(3) by (metis Nil_is_map_conv outstanding_Nil_iff)
  then show ?thesis
    using assms(2) sv outstanding_length [OF busy] by (simp add: send_call_queued call_limit_def)
qed

section \<open>An answer\<close>

text \<open>What the client makes of the answer to the oldest call.\<close>

lemma serving_awaits:
  assumes "bench_ok B" and "serving B f ty s w calls" and "list_all (call_ok B f Args ans (myArchives s)) calls"
  shows "awaits_results (bn_cfg B) (full_name (bn_cfg B) f) s"
proof -
  let ?cfg = "bn_cfg B" and ?fn = "full_name (bn_cfg B) f"
  note sv = assms(2) [unfolded serving_def Let_def]
  have "case message_with_header (cf_endian ?cfg) (fst a) of
      Inl e \<Rightarrow> False | Inr m \<Rightarrow> ec_ok (fst (io_write (cf_io ?cfg) m k))"
    if "a \<in> set (waiting (myCallQueue s) ?fn)" for a k
  proof -
    have "map fst (waiting (myCallQueue s) ?fn) =
        map (serialize_call (cf_archive ?cfg) (myArchives s) ?fn \<circ> snd) (tl calls)"
      using sv by blast
    moreover have "fst a \<in> set (map fst (waiting (myCallQueue s) ?fn))"
      using that by simp
    ultimately obtain x where x: "x \<in> set calls" "fst a = serialize_call (cf_archive ?cfg) (myArchives s) ?fn (snd x)"
      by (cases calls) auto
    then have "body_ok (call_body (cf_archive ?cfg) (myArchives s) ?fn (snd x))"
      using assms(3) by (auto simp: list_all_iff call_ok_def)
    then have "write_succeeds ?cfg (fst a) (s\<lparr>myTransport := (myTransport s)\<lparr>mySocket := k\<rparr>\<rparr>)"
      by (rule bench_call_written(1) [OF assms(1) _ x(2)])
    then show ?thesis
      by (simp add: write_succeeds_def split: sum.splits)
  qed
  then show ?thesis
    using sv by (simp add: awaits_results_def takes_waiting_def)
qed

lemma lossless_read: "lossless io out \<Longrightarrow> out (io_async_read io n k) = out k"
  and lossless_write: "lossless io out \<Longrightarrow> ec_ok (fst (io_write io m k))"
    "lossless io out \<Longrightarrow> out (snd (io_write io m k)) = out k @ m"
  by (simp_all add: lossless_def)

lemma serving_result:
  assumes "bench_ok B" and "answers_with B f Args ty ans" and "serving B f ty s w ((n, vs) # calls)"
    and "list_all (call_ok B f Args ans (myArchives s)) ((n, vs) # calls)"
    and "b = result_body (cf_archive (bn_cfg B)) (myArchives s) (full_name (bn_cfg B) f) (ans vs)"
  obtains s2 where "receive_message passive_user (bn_cfg B) b s = Ret () s2"
    and "callbacks s2 = callbacks s @ [OnResult n (received_result (cf_archive (bn_cfg B)) (Some ty) (ans vs))]"
    and "myArchives s2 = myArchives s"
    and "bn_out B (mySocket (myTransport s2)) =
      bn_out B (mySocket (myTransport s)) @ first_frame B f (myArchives s) calls"
    and "\<And>w' cs. service_inv (bw_service w') \<Longrightarrow> service_at_header (bn_peer B) (bw_service w') \<Longrightarrow>
       map_of (myClients (bw_service w')) (bn_peer B) = Some cs \<Longrightarrow> cs_archives cs = myArchives s \<Longrightarrow>
       (full_name (bn_cfg B) f, bn_peer B) \<notin> set (myPendingCalls (bw_service w')) \<Longrightarrow>
       bw_up w' = length (bn_out B (mySocket (myTransport s))) \<Longrightarrow>
       bw_down w' = length (bn_sout B (mySocket (svTransports (bw_service w') (bn_peer B)))) \<Longrightarrow>
       serving B f ty s2 w' calls"
proof -
  let ?cfg = "bn_cfg B" and ?fn = "full_name (bn_cfg B) f"
  note sv = assms(3) [unfolded serving_def Let_def]
  have io: "lossless (cf_io ?cfg) (bn_out B)" and arch: "archive_ok (cf_archive ?cfg) calc_type_of"
    using assms(1) by (simp_all add: bench_ok_def)
  have aw: "awaits_results ?cfg ?fn s"
    by (rule serving_awaits [OF assms(1,3,4)])
  have out: "outstanding ?fn s = closure_of ty n # map (closure_of ty \<circ> fst) calls"
    using sv by simp
  have ty: "result_has_type calc_type_of (clo_type (closure_of ty n)) (ans vs)"
    "?fn \<noteq> myBroadcastFuncName ?cfg"
    using assms(2,4) by (simp_all add: answers_with_def call_ok_def)
  let ?s0 = "body_received ?cfg b s"
  let ?s1 = "result_handled ?cfg ?fn ?s0"
  note rec = receive_result_eq [OF aw out _ arch ty(2,1) assms(5) refl, of n]
  define s2 where "s2 = ?s1\<lparr>callbacks := callbacks s @ [OnResult n (received_result (cf_archive ?cfg) (Some ty) (ans vs))],
      myTransport := tr_read (cf_io ?cfg) HEADER_SIZE (myTransport ?s1), myMessenger := msg_state HEADER b\<rparr>"
  have received: "receive_message passive_user ?cfg b s = Ret () s2"
    using rec(1) by (simp add: s2_def)
  have s1: "awaits_results ?cfg ?fn ?s1" "outstanding ?fn ?s1 = map (closure_of ty \<circ> fst) calls"
      "myArchives ?s1 = myArchives s"
    using rec(2-4) by simp_all
  have wait: "map fst (waiting (myCallQueue s) ?fn) =
      map (serialize_call (cf_archive ?cfg) (myArchives s) ?fn \<circ> snd) calls"
    using sv by simp
  have "map fst (waiting (myCallQueue ?s1) ?fn) =
      map (serialize_call (cf_archive ?cfg) (myArchives s) ?fn \<circ> snd) (tl calls) \<and>
    bn_out B (mySocket (myTransport ?s1)) = bn_out B (mySocket (myTransport s)) @
      first_frame B f (myArchives s) calls"
  proof (cases calls)
    case Nil
    then have "waiting (myCallQueue s) ?fn = []"
      using wait by simp
    then show ?thesis
      using Nil lossless_read [OF io] by (simp add: result_handled_def) (simp add: body_received_def)
  next
    case (Cons x xs)
    obtain a as where a: "waiting (myCallQueue s) ?fn = a # as"
        "fst a = serialize_call (cf_archive ?cfg) (myArchives s) ?fn (snd x)"
        "map fst as = map (serialize_call (cf_archive ?cfg) (myArchives s) ?fn \<circ> snd) xs"
      using wait Cons by (cases "waiting (myCallQueue s) ?fn") auto
    have "body_ok (call_body (cf_archive ?cfg) (myArchives s) ?fn (snd x))"
      using assms(4) Cons by (simp add: call_ok_def)
    from bench_call_written(2) [OF assms(1) this a(2), of ?s0] show ?thesis
      using a Cons next_call_sent_simps(4) [of ?s0 ?fn a as ?cfg] lossless_read [OF io]
      by (simp add: result_handled_def waiting_pop) (simp add: body_received_def)
  qed
  then have s2: "map fst (waiting (myCallQueue s2) ?fn) =
      map (serialize_call (cf_archive ?cfg) (myArchives s) ?fn \<circ> snd) (tl calls)"
    "bn_out B (mySocket (myTransport s2)) = bn_out B (mySocket (myTransport s)) @
      first_frame B f (myArchives s) calls"
    using lossless_read [OF io] by (simp_all add: s2_def tr_read_def)
  have fields: "awaits_results ?cfg ?fn s2" "outstanding ?fn s2 = map (closure_of ty \<circ> fst) calls"
      "myArchives s2 = myArchives s"
      "callbacks s2 = callbacks s @ [OnResult n (received_result (cf_archive ?cfg) (Some ty) (ans vs))]"
    using s1 by (simp_all add: s2_def tr_read_def)
  moreover have "at_header s2"
    by (rule receive_message_at_header [OF received])
  ultimately have serving: "serving B f ty s2 w' calls"
    if "service_inv (bw_service w')" "service_at_header (bn_peer B) (bw_service w')"
      "map_of (myClients (bw_service w')) (bn_peer B) = Some cs" "cs_archives cs = myArchives s"
      "(?fn, bn_peer B) \<notin> set (myPendingCalls (bw_service w'))"
      "bw_up w' = length (bn_out B (mySocket (myTransport s)))"
      "bw_down w' = length (bn_sout B (mySocket (svTransports (bw_service w') (bn_peer B))))" for w' cs
    using that s2 unfolding serving_def Let_def awaits_results_def by simp
  show thesis
    by (rule that [OF received fields(4,3) s2(2)]) (rule serving)
qed

text \<open>What the service makes of the oldest call.\<close>

lemma serving_service:
  assumes "bench_ok B" and "answers_with B f Args ty ans" and "serving B f ty s w ((n, vs) # calls)"
    and "call_ok B f Args ans (myArchives s) (n, vs)"
    and "b = result_body (cf_archive (bn_cfg B)) (myArchives s) (full_name (bn_cfg B) f) (ans vs)"
  obtains S1 cs1 where "service_pump (bn_scfg B) (calc_dict (bn_scfg B) (bn_timer B)) (bn_peer B)
        (drop (bw_up w) (bn_out B (mySocket (myTransport s)))) (bw_service w) = Ret [] S1"
    and "bn_sout B (mySocket (svTransports S1 (bn_peer B))) =
      bn_sout B (mySocket (svTransports (bw_service w) (bn_peer B))) @ frame (cf_endian (bn_cfg B)) b"
    and "service_inv S1" and "service_at_header (bn_peer B) S1"
    and "map_of (myClients S1) (bn_peer B) = Some cs1" and "cs_archives cs1 = myArchives s"
    and "(full_name (bn_cfg B) f, bn_peer B) \<notin> set (myPendingCalls S1)"
proof -
  let ?cfg = "bn_cfg B" and ?fn = "full_name (bn_cfg B) f" and ?scfg = "bn_scfg B" and ?p = "bn_peer B"
  let ?S = "bw_service w"
  let ?cb = "call_body (cf_archive ?cfg) (myArchives s) ?fn vs"
  note sv = assms(3) [unfolded serving_def Let_def]
  note ok = assms(1) [unfolded bench_ok_def]
  obtain cs where cs: "map_of (myClients ?S) ?p = Some cs" "cs_archives cs = myArchives s"
    using sv by blast
  have vs: "Args vs" "body_ok ?cb" "body_ok b"
    using assms(4,5) by (simp_all add: call_ok_def)
  then obtain e where e: "calc_dict ?scfg (bn_timer B) ?fn = Some e" "\<not> de_one_way e"
      "map calc_type_of vs = de_args e"
      "\<And>c S. de_func e vs (Some c) S = run_service_closure ?scfg c (ans vs) S"
    using assms(2) unfolding answers_with_def by blast
  let ?k = "io_async_read (sc_io ?scfg) (length ?cb) (mySocket (svTransports ?S ?p))"
  let ?wr = "io_write (sc_io ?scfg) (frame (cf_endian ?cfg) b) ?k"
  have io: "lossless (sc_io ?scfg) (bn_sout B)"
    using ok by blast
  have "\<exists>S1. service_pump ?scfg (calc_dict ?scfg (bn_timer B)) ?p
        (frame (sc_endian ?scfg) (call_body (sc_arch ?scfg) (cs_archives cs) ?fn vs)) ?S = Ret [] S1 \<and>
      mySocket (svTransports S1 ?p) = io_async_read (sc_io ?scfg) HEADER_SIZE (snd ?wr) \<and>
      myPendingCalls S1 = myPendingCalls ?S \<and> service_at_header ?p S1 \<and> service_inv S1 \<and>
      (\<exists>cs1. map_of (myClients S1) ?p = Some cs1 \<and> cs_archives cs1 = cs_archives cs) \<and>
      (\<forall>q. q \<noteq> ?p \<longrightarrow> svTransports S1 q = svTransports ?S q)"
    by (rule service_answers_frame [where e = e and r = "ans vs" and k = ?k and ec = "fst ?wr" and tyof = calc_type_of])
       (use sv ok cs e vs assms(5) lossless_write [OF io] in simp_all)
  then obtain S1 where S1: "service_pump ?scfg (calc_dict ?scfg (bn_timer B)) ?p
        (frame (cf_endian ?cfg) ?cb) ?S = Ret [] S1"
      "mySocket (svTransports S1 ?p) = io_async_read (sc_io ?scfg) HEADER_SIZE (snd ?wr)"
      "myPendingCalls S1 = myPendingCalls ?S" "service_at_header ?p S1" "service_inv S1"
      "\<exists>cs1. map_of (myClients S1) ?p = Some cs1 \<and> cs_archives cs1 = myArchives s"
    using ok cs(2) by auto
  then obtain cs1 where cs1: "map_of (myClients S1) ?p = Some cs1" "cs_archives cs1 = myArchives s"
    by blast
  show thesis
    by (rule that [of S1 cs1])
       (use S1 cs1 sv lossless_read [OF io] lossless_write [OF io] in simp_all)
qed

text \<open>
  One call of the queue: the service answers it, and two handlers of the event loop, for the size
  and the body of the answer, bring it to its closure.
\<close>

lemma serving_answer:
  assumes "bench_ok B" and "answers_with B f Args ty ans" and "serving B f ty s w ((n, vs) # calls)"
    and "list_all (call_ok B f Args ans (myArchives s)) ((n, vs) # calls)"
  obtains h w1 s1 b w2 s2 where "bench_next B s w = Some (Received h, w1)"
    and "client_receive passive_user (bn_cfg B) h s = Ret () s1" and "callbacks s1 = callbacks s"
    and "tr_is_open (myTransport s)" and "tr_is_open (myTransport s1)"
    and "bench_next B s1 w1 = Some (Received b, w2)"
    and "client_receive passive_user (bn_cfg B) b s1 = Ret () s2"
    and "callbacks s2 = callbacks s @ [OnResult n (received_result (cf_archive (bn_cfg B)) (Some ty) (ans vs))]"
    and "myArchives s2 = myArchives s" and "serving B f ty s2 w2 calls"
proof -
  let ?cfg = "bn_cfg B" and ?p = "bn_peer B" and ?S = "bw_service w"
  let ?en = "cf_endian ?cfg" and ?out = "bn_out B (mySocket (myTransport s))"
  define b where "b = result_body (cf_archive ?cfg) (myArchives s) (full_name ?cfg f) (ans vs)"
  note sv = assms(3) [unfolded serving_def Let_def]
  have bok: "body_ok b" and call: "call_ok B f Args ans (myArchives s) (n, vs)"
    using assms(4) by (simp_all add: call_ok_def b_def)
  have io: "lossless (cf_io ?cfg) (bn_out B)"
    using assms(1) by (simp add: bench_ok_def)
  obtain S1 cs1 where S1: "service_pump (bn_scfg B) (calc_dict (bn_scfg B) (bn_timer B)) ?p
        (drop (bw_up w) ?out) ?S = Ret [] S1"
      "bn_sout B (mySocket (svTransports S1 ?p)) = bn_sout B (mySocket (svTransports ?S ?p)) @ frame ?en b"
      "service_inv S1" "service_at_header ?p S1" "map_of (myClients S1) ?p = Some cs1"
      "cs_archives cs1 = myArchives s" "(full_name ?cfg f, ?p) \<notin> set (myPendingCalls S1)"
    by (rule serving_service [OF assms(1-3) call b_def])
  let ?h = "store_u32 ?en (word_of_nat (length b))"
  let ?w1 = "w\<lparr>bw_service := S1, bw_up := length ?out, bw_down := bw_down w + HEADER_SIZE\<rparr>"
  let ?s1 = "header_received ?cfg b s"
  let ?w2 = "?w1\<lparr>bw_down := bw_down w + HEADER_SIZE + length b\<rparr>"
  have down: "bw_down w = length (bn_sout B (mySocket (svTransports ?S ?p)))" and head: "at_header s" "can_receive s"
    using sv by simp_all
  have step1: "bench_next B s w = Some (Received ?h, ?w1)"
    using S1(1,2) down head(1) by (simp add: bench_next_def Let_def at_header_def frame_def HEADER_SIZE_def)
  have rec1: "client_receive passive_user ?cfg ?h s = Ret () ?s1"
    by (rule client_receive_header [OF head(2,1) bok])
  have step2: "bench_next B ?s1 ?w1 = Some (Received b, ?w2)"
    using S1(2) down bok lossless_read [OF io]
    by (simp add: bench_next_def Let_def frame_def HEADER_SIZE_def tr_read_def body_ok_def)
  obtain s2 where s2: "receive_message passive_user ?cfg b s = Ret () s2"
      "callbacks s2 = callbacks s @ [OnResult n (received_result (cf_archive ?cfg) (Some ty) (ans vs))]"
      "myArchives s2 = myArchives s" "serving B f ty s2 ?w2 calls"
  proof (rule serving_result [OF assms b_def])
    fix s2
    assume r: "receive_message passive_user ?cfg b s = Ret () s2"
      "callbacks s2 = callbacks s @ [OnResult n (received_result (cf_archive ?cfg) (Some ty) (ans vs))]"
      "myArchives s2 = myArchives s"
      and serving: "\<And>w' cs. service_inv (bw_service w') \<Longrightarrow> service_at_header ?p (bw_service w') \<Longrightarrow>
       map_of (myClients (bw_service w')) ?p = Some cs \<Longrightarrow> cs_archives cs = myArchives s \<Longrightarrow>
       (full_name ?cfg f, ?p) \<notin> set (myPendingCalls (bw_service w')) \<Longrightarrow>
       bw_up w' = length ?out \<Longrightarrow>
       bw_down w' = length (bn_sout B (mySocket (svTransports (bw_service w') ?p))) \<Longrightarrow>
       serving B f ty s2 w' calls"
    have "serving B f ty s2 ?w2 calls"
      by (rule serving [of _ cs1]) (use S1 down in \<open>simp_all add: frame_def HEADER_SIZE_def\<close>)
    with r show thesis by (rule that)
  qed
  have rec2: "client_receive passive_user ?cfg b ?s1 = Ret () s2"
    using client_receive_frame [OF head(2) bok, of passive_user ?cfg] s2(1) by simp
  show thesis
    by (rule that [OF step1 rec1 _ _ _ step2 rec2 s2(2-4)])
      (use sv in \<open>simp_all add: client_ready_def tr_is_open_def tr_read_def\<close>)
qed

section \<open>Tests on the bench\<close>

text \<open>
  \<open>triple P m Q\<close>: from every state with \<open>P\<close> the action returns, in a state with \<open>Q\<close>.
\<close>

definition triple :: "(('k, 'ty, 'v, 'w) test \<Rightarrow> bool) \<Rightarrow> ('k, 'ty, 'v, 'w, unit) test_action \<Rightarrow>
    (('k, 'ty, 'v, 'w) test \<Rightarrow> bool) \<Rightarrow> bool" where
  "triple P m Q \<longleftrightarrow> (\<forall>t. P t \<longrightarrow> (\<exists>t'. m t = Some (Ret () t') \<and> Q t'))"

lemma triple_sequence:
  "(\<And>t. P t \<Longrightarrow> Q t) \<Longrightarrow> triple P (in_sequence []) Q"
  "triple P m Q \<Longrightarrow> triple Q (in_sequence ms) R \<Longrightarrow> triple P (in_sequence (m # ms)) R"
  unfolding triple_def by (auto simp: then_do_def)

lemma triple_passes:
  "triple P m (\<lambda>t'. testFailures t' = k) \<Longrightarrow> P t \<Longrightarrow> testFailures t = k \<Longrightarrow> passes m t"
  by (fastforce simp: triple_def passes_def)

text \<open>The state of a test with the given calls outstanding, flags and failures.\<close>

definition bench_state :: "('k, 'l, 'i, 'a, 't) bench \<Rightarrow> string \<Rightarrow> calc_type \<Rightarrow> bool \<Rightarrow> (nat \<times> calc_value list) list \<Rightarrow>
    (string \<Rightarrow> bool) \<Rightarrow> nat \<Rightarrow> ('k, ('l, 'a, 't) bench_world) calc_test \<Rightarrow> bool" where
  "bench_state B f ty ar calls flags k t \<longleftrightarrow>
     serving B f ty (myClient t) (myWorld t) calls \<and> myArchives (myClient t) = ar \<and>
     testFlags t = flags \<and> testFailures t = k"

definition on_bench :: "('k, 'l, 'i, 'a, 't) bench \<Rightarrow> ('k, 'i, ('l, 'a, 't) bench_world) calc_env \<Rightarrow> bool" where
  "on_bench B E \<longleftrightarrow> te_cfg E = bn_cfg B \<and>
     (\<forall>s w. tr_is_open (myTransport s) \<longrightarrow> te_next E s w = bench_next B s w)"

lemma settle_same: "callbacks s = callbacks (myClient t) \<Longrightarrow> settle C s t = t\<lparr>myClient := s\<rparr>"
  by (simp add: settle_def)

lemma settle_one:
  "callbacks s = callbacks (myClient t) @ [cb] \<Longrightarrow> settle C s t = C cb (t\<lparr>myClient := s\<rparr>)"
  by (simp add: settle_def)

lemma triple_assign:
  "triple (bench_state B f ty ar calls flags k) (assign_flag x b) (bench_state B f ty ar calls (flags(x := b)) k)"
  by (simp add: triple_def bench_state_def assign_flag_def set_flag_def)

lemma triple_call:
  assumes "bench_ok B" and "on_bench B E" and "call_ok B f Args ans ar (n, vs)"
    and "length calls < cf_max_calls (bn_cfg B)"
  shows "triple (bench_state B f ty ar calls flags k)
    (on_client C (send_call passive_user (te_cfg E) f (closure_of ty n) vs))
    (bench_state B f ty ar (calls @ [(n, vs)]) flags k)"
  unfolding triple_def
proof (intro allI impI)
  fix t
  assume t: "bench_state B f ty ar calls flags k t"
  obtain s' where "send_call passive_user (bn_cfg B) f (closure_of ty n) vs (myClient t) = Ret () s'"
      "serving B f ty s' (myWorld t) (calls @ [(n, vs)])" "callbacks s' = callbacks (myClient t)"
      "myArchives s' = ar"
    using serving_call [OF assms(1), of f ty "myClient t" "myWorld t" calls Args ans n vs] assms(3,4) t
    by (auto simp: bench_state_def)
  then show "\<exists>t'. on_client C (send_call passive_user (te_cfg E) f (closure_of ty n) vs) t = Some (Ret () t') \<and>
      bench_state B f ty ar (calls @ [(n, vs)]) flags k t'"
    using assms(2) t by (simp add: on_client_def on_bench_def settle_same bench_state_def)
qed

lemma triple_no_throw: "triple P m Q \<Longrightarrow> triple P (EXPECT_NO_THROW m) Q"
  by (fastforce simp: triple_def EXPECT_NO_THROW_def)

lemma triple_full:
  assumes "on_bench B E" and "cf_max_calls (bn_cfg B) \<le> length calls" and "calls \<noteq> []"
  shows "triple (bench_state B f ty ar calls flags k)
    (EXPECT_THROW (on_client C (send_call passive_user (te_cfg E) f c vs)))
    (bench_state B f ty ar calls flags k)"
  using serving_full [OF _ assms(2,3), of f ty _ _ c vs] assms(1)
  by (auto simp: triple_def EXPECT_THROW_def on_client_def on_bench_def settle_same bench_state_def)

lemma triple_in_progress:
  assumes "on_bench B E"
  shows "triple (bench_state B f ty ar calls flags k) (expect_call_in_progress E C f (calls \<noteq> []))
    (bench_state B f ty ar calls flags k)"
proof -
  have "is_call_in_progress (bn_cfg B) f s = Ret (calls \<noteq> []) s" if "serving B f ty s w calls" for s w
  proof -
    have "fifo_ok s" "runningThread s = myThreadId s"
      "outstanding (full_name (bn_cfg B) f) s = map (closure_of ty \<circ> fst) calls"
      using that by (simp_all add: serving_def Let_def client_ready_def)
    then show ?thesis
      using outstanding_Nil_iff [of s "full_name (bn_cfg B) f"]
      by (simp add: is_call_in_progress_def check_thread_id_def)
  qed
  then show ?thesis
    using assms
    by (auto simp: triple_def expect_call_in_progress_def then_do_def on_client_def on_bench_def settle_same
        bench_state_def EXPECT_def expect_def)
qed

text \<open>Two handlers of the event loop are enough for the closure of the oldest call to set its flag.\<close>

lemma process_two_events:
  assumes "step t = Some (Ret () t1)" and "step t1 = Some (Ret () t2)"
    and "\<not> called t" and "\<not> called t1" and "called t2" and "2 \<le> m"
  shows "process_io_events step called m t = Some (Ret True t2)"
  using assms by (simp add: process_io_events.simps [of _ _ _ t] process_io_events.simps [of _ _ _ t1]
      process_io_events.simps [of _ _ _ t2])

lemma triple_events:
  fixes B :: "('k, 'l, 'i, 'a, 't) bench" and C :: "('k, ('l, 'a, 't) bench_world) calc_closures"
  assumes "bench_ok B" and "on_bench B E" and "answers_with B f Args ty ans"
    and "list_all (call_ok B f Args ans ar) ((n, vs) # calls)" and "2 \<le> m" and "\<not> flags flag"
    and "r = received_result (cf_archive (bn_cfg B)) (Some ty) (ans vs)"
    and closure: "\<And>t :: ('k, ('l, 'a, 't) bench_world) calc_test. testFlags t = flags \<Longrightarrow> testFailures t = k \<Longrightarrow>
      C (OnResult n r) t = t\<lparr>testFlags := flags(flag := True)\<rparr>"
  shows "triple (bench_state B f ty ar ((n, vs) # calls) flags k) (expect_events E C flag m)
    (bench_state B f ty ar calls (flags(flag := True)) k)"
  unfolding triple_def
proof (intro allI impI)
  fix t
  assume t: "bench_state B f ty ar ((n, vs) # calls) flags k t"
  then have sv: "serving B f ty (myClient t) (myWorld t) ((n, vs) # calls)" and ar: "myArchives (myClient t) = ar"
    by (simp_all add: bench_state_def)
  obtain h w1 s1 b w2 s2 where steps: "bench_next B (myClient t) (myWorld t) = Some (Received h, w1)"
      "client_receive passive_user (bn_cfg B) h (myClient t) = Ret () s1" "callbacks s1 = callbacks (myClient t)"
      "tr_is_open (myTransport (myClient t))" "tr_is_open (myTransport s1)" "bench_next B s1 w1 = Some (Received b, w2)" "client_receive passive_user (bn_cfg B) b s1 = Ret () s2"
      "callbacks s2 = callbacks (myClient t) @ [OnResult n r]" "myArchives s2 = ar"
      "serving B f ty s2 w2 calls"
    by (rule serving_answer [OF assms(1,3) sv, unfolded ar, OF assms(4), folded assms(7)])
  let ?t1 = "t\<lparr>myWorld := w1, myClient := s1\<rparr>"
  let ?t2 = "t\<lparr>myWorld := w2, myClient := s2, testFlags := flags(flag := True)\<rparr>"
  have E: "te_cfg E = bn_cfg B" "te_next E (myClient t) = bench_next B (myClient t)" "te_next E s1 = bench_next B s1"
    using assms(2) steps(4,5) by (auto simp: on_bench_def)
  have "run_one E C t = Some (Ret () ?t1)"
    using steps(1-3) by (simp add: run_one_def E on_client_def client_step_def settle_same)
  moreover have "settle C s2 (?t1\<lparr>myWorld := w2\<rparr>) = ?t2"
    using steps(3,8) closure [of "t\<lparr>myWorld := w2, myClient := s2\<rparr>"] t
    by (simp add: settle_one bench_state_def)
  then have "run_one E C ?t1 = Some (Ret () ?t2)"
    using steps(6,7) by (simp add: run_one_def E on_client_def client_step_def)
  ultimately have "process_io_events (run_one E C) (\<lambda>t. testFlags t flag) m t = Some (Ret True ?t2)"
    by (rule process_two_events) (use t assms(5,6) in \<open>simp_all add: bench_state_def\<close>)
  then show "\<exists>t'. expect_events E C flag m t = Some (Ret () t') \<and>
      bench_state B f ty ar calls (flags(flag := True)) k t'"
    using t steps(9,10) by (simp add: expect_events_def then_do_def EXPECT_def expect_def bench_state_def)
qed

end
