(* ===== verification/Sample_Bench.thy ===== *)
theory Sample_Bench
  imports Test_Bench
begin

text \<open>
  A client and a calculator on sockets that lose nothing, and a test process with them, for the
  theorems that say hypotheses can be met; and the sizes of messages in the archive of the
  calculator.
\<close>

definition steady_io :: "sample_socket asio" where
  "steady_io = sample_io\<lparr>io_write := (\<lambda>bs k. (ec_success, k\<lparr>sent := sent k @ bs\<rparr>))\<rparr>"

definition sample_bench ::
  "(sample_socket, sample_socket, byte list, sample_acceptor, calc_wait list) bench" where
  "sample_bench =
     \<lparr>bn_cfg = calc_cfg\<lparr>cf_io := steady_io\<rparr>, bn_scfg = calc_service_cfg\<lparr>sc_io := steady_io\<rparr>,
      bn_timer = calc_timer, bn_peer = 1, bn_out = sent, bn_sout = sent\<rparr>"

definition sample_env ::
  "(sample_socket, byte list, (sample_socket, sample_acceptor, calc_wait list) bench_world) calc_env" where
  "sample_env =
     \<lparr>te_cfg = bn_cfg sample_bench, te_thread = 1, te_sockets = (\<lambda>w n. sample_sock),
      te_program = \<lparr>myName = ''cercalltests'', myPath = ''/cercalltests''\<rparr>,
      te_posix = \<lparr>px_fork = (\<lambda>w. (1, w)), px_execv = (\<lambda>_ _ w. w), px_kill = (\<lambda>_ _ w. (0, w)),
        px_waitpid = (\<lambda>_ w. ((1, Exited 0), w)), px_strerror = (\<lambda>w. []), px_sleep = (\<lambda>_ w. w)\<rparr>,
      te_seconds = (\<lambda>w. 0), te_next = bench_next sample_bench\<rparr>"

definition sample_test ::
  "(sample_socket, (sample_socket, sample_acceptor, calc_wait list) bench_world) calc_test" where
  "sample_test =
     \<lparr>myClient = calc_client, myServerProc = new_process,
      myWorld = \<lparr>bw_service = calc_state, bw_up = 0, bw_down = 0\<rparr>,
      testFlags = (\<lambda>_. False), testFailures = 0\<rparr>"

lemma sample_bench_simps [simp]:
  "cf_io (bn_cfg sample_bench) = steady_io" "cf_archive (bn_cfg sample_bench) = calc_archive"
  "cf_interface (bn_cfg sample_bench) = ''CalculatorInterface''" "cf_max_calls (bn_cfg sample_bench) = 3"
  "cf_endian (bn_cfg sample_bench) = LittleEndian" "sc_io (bn_scfg sample_bench) = steady_io"
  "sc_arch (bn_scfg sample_bench) = calc_archive" "sc_endian (bn_scfg sample_bench) = LittleEndian"
  "sc_interface (bn_scfg sample_bench) = ''CalculatorInterface''"
  by (simp_all add: sample_bench_def calc_cfg_def)

lemma sample_bench_ok: "bench_ok sample_bench" "on_bench sample_bench sample_env"
proof -
  have "lossless steady_io sent"
    by (simp add: lossless_def steady_io_def sample_io_def ec_samples ec_ok_def)
  then show "bench_ok sample_bench" "on_bench sample_bench sample_env"
    using calc_archive_ok by (simp_all add: bench_ok_def on_bench_def sample_env_def) (simp_all add: sample_bench_def)
qed

lemma sample_bench_fields:
  "bn_peer sample_bench = 1" "bn_out sample_bench = sent" "bn_sout sample_bench = sent"
  "myClosures calc_client = []" "myCallQueue calc_client = empty_queue" "myPendingCalls calc_state = []"
  "sent (mySocket (myTransport calc_client)) = []" "sent (mySocket (svTransports calc_state p)) = []"
  by (simp_all add: sample_bench_def calc_client_def calc_state_def sample_peer_def)

lemma sample_bench_serving: "serving sample_bench f ty (myClient sample_test) (myWorld sample_test) []"
  using calc_connected
  by (simp add: serving_def Let_def sample_test_def connected_def client_inv_def queue_ok_def outstanding_def
      sample_bench_fields waiting_def empty_queue_def)

lemma put_sizes [simp]:
  "length (put_string s) = 2 * length s + 1" "length (put_list u32_bytes ws) = 5 * length ws + 1"
  "length (put_list u64_bytes us) = 9 * length us + 1"
  "length (u32_bytes w) = 4" "length (u64_bytes v) = 8"
  by (induction s, simp, simp) (induction ws, simp, simp add: u32_bytes_def, induction us, simp,
      simp add: u32_bytes_def u64_bytes_def, simp_all add: u32_bytes_def u64_bytes_def)

lemma calc_body_length:
  "length (call_body calc_archive ar fn vs) = 2 * length fn + 1 + sum_list (map (length \<circ> put_calc) vs)"
  by (simp add: call_body_def serialize_defs calc_archive_def length_concat comp_def)

lemma calc_value_length:
  "length (result_body calc_archive ar fn (Result_value v Error_none)) = 2 * length fn + 6 + length (put_calc v)"
  by (simp add: result_body_def serialize_defs calc_archive_def save_result_def save_error_def result_defs
      Error_none_def)

lemma body_ok_length: "0 < length b \<Longrightarrow> length b \<le> 100000 \<Longrightarrow> body_ok b"
  by (auto simp: body_ok_def HEADER_SIZE_def)

end
