(* ===== verification/Error_Tests.thy ===== *)
theory Error_Tests
  imports Call_Tests
begin

text \<open>
  The test cases of \<open>unittests/errorstest.cpp\<close>: errors of the service, lost connections, failed
  opens, a port that is taken, and a second call of a pending function, for which the test brings
  a listener of its own.
\<close>

definition ECONNRESET :: cint where "ECONNRESET = 104"
definition ECONNREFUSED :: cint where "ECONNREFUSED = 111"
definition HOST_NOT_FOUND :: cint where "HOST_NOT_FOUND = 1"
definition EOVERFLOW :: cint where "EOVERFLOW = 75"
definition asio_eof :: cint where "asio_eof = 2"

section \<open>Calls that fail\<close>

text \<open>The closure of these tests: an error with the given number.\<close>

definition error_closure :: "cint \<Rightarrow> calc_value result \<Rightarrow> ('k, 'w) calc_test \<Rightarrow> ('k, 'w) calc_test" where
  "error_closure code r t =
     set_flag ''gotResult'' True
       (expect (myNetLibCode (myError r) = code) (expect (\<not> Result_bool r) t))"

definition no_closures :: "('k, 'w) calc_closures" where
  "no_closures cb t = t"

definition test_call_closed_client :: "('k, 'i, 'w) calc_env \<Rightarrow> ('k, 'w, unit) calc_action" where
  "test_call_closed_client E =
     in_sequence [close_the_client E no_closures, EXPECT_THROW (test_add E no_closures 0 1 2 1)]"

fun error_from_service_closures :: "('k, 'w) calc_closures" where
  "error_from_service_closures (OnResult n r) t = error_closure EOVERFLOW r t"
| "error_from_service_closures cb t = t"

definition test_error_from_service :: "('k, 'i, 'w) calc_env \<Rightarrow> ('k, 'w, unit) calc_action" where
  "test_error_from_service E =
     (let C = error_from_service_closures
      in in_sequence
        [assign_flag ''gotResult'' False,
         test_add E C 0 1000 (2147483647 - 500) 1,
         expect_events E C ''gotResult'' 2])"

fun broken_connection_closures :: "('k, 'w) calc_closures" where
  "broken_connection_closures (OnResult n r) t = (if n = 1 then error_closure asio_eof r t else t)"
| "broken_connection_closures cb t = t"

definition test_broken_connection :: "('k, 'i, 'w) calc_env \<Rightarrow> ('k, 'w, unit) calc_action" where
  "test_broken_connection E =
     (let C = broken_connection_closures
      in in_sequence
        [assign_flag ''gotResult'' False,
         on_client C (calc_client_add_and_delay_result passive_user (te_cfg E) 321 123 (closure_of TI32 1)),
         shutdown_server E,
         wait_server E,
         expect_events E C ''gotResult'' 4,
         EXPECT_THROW (test_add E C 0 1 2 2),
         start_server E None])"

text \<open>The server that is started with \<open>-t\<close> stops at once, and the connection is reset.\<close>

fun connection_reset_closures :: "('k, 'w) calc_closures" where
  "connection_reset_closures (OnResult n r) t = error_closure ECONNRESET r t"
| "connection_reset_closures cb t = t"

definition test_connection_reset :: "('k, 'i, 'w) calc_env \<Rightarrow> ('k, 'w, unit) calc_action" where
  "test_connection_reset E =
     (let C = connection_reset_closures
      in in_sequence
        [close_the_client E C,
         shutdown_server E,
         wait_server E,
         start_server E (Some ''-t''),
         set_up E,
         expect_open True,
         assign_flag ''gotResult'' False,
         test_add E C 1 2 3 1,
         expect_events E C ''gotResult'' 2,
         close_the_client E C,
         wait_server E,
         start_server E (Some ''-t''),
         set_up E,
         wait_server E,
         assign_flag ''gotResult'' False,
         test_add E C 4 5 6 2,
         expect_events E C ''gotResult'' 4,
         start_server E None])"

section \<open>Opens that fail\<close>

text \<open>\<open>EXPECT_FALSE(myClient->open())\<close>.\<close>

definition expect_open_fails :: "('k, 'i, 'w) calc_env \<Rightarrow> ('k, 'w, unit) calc_action" where
  "expect_open_fails E =
     then_do (on_client no_closures (open_client passive_user (te_cfg E))) (\<lambda>opened. EXPECT (\<not> opened))"

definition test_failed_open :: "('k, 'i, 'w) calc_env \<Rightarrow> ('k, 'w, unit) calc_action" where
  "test_failed_open E =
     in_sequence
       [expect_open_fails E,
        close_the_client E no_closures,
        shutdown_server E,
        wait_server E,
        expect_open_fails E,
        start_server E None]"

text \<open>
  The closures of the two asynchronous opens look at the category of the error as well; an error
  without one is dereferenced.
\<close>

definition open_error_closure :: "cint \<Rightarrow> string \<Rightarrow> bool result \<Rightarrow> ('k, 'w) calc_test \<Rightarrow> ('k, 'w) calc_test" where
  "open_error_closure code category r t =
     expect (Error_category (myError r) = Inr category)
       (expect (myNetLibCode (myError r) = code)
         (expect (\<not> Result_bool r) (set_flag ''gotResult'' True t)))"

fun resolve_error_closures :: "('k, 'w) calc_closures" where
  "resolve_error_closures (OnOpen n r) t = open_error_closure HOST_NOT_FOUND ''asio.netdb'' r t"
| "resolve_error_closures cb t = t"

definition invalid_host :: string where
  "invalid_host = ''notexistingandinvalidhostaddress.org''"

definition test_resolve_error :: "('k, 'i, 'w) calc_env \<Rightarrow> ('k, 'w, unit) calc_action" where
  "test_resolve_error E =
     (let C = resolve_error_closures
      in in_sequence
        [close_the_client E C,
         make_client E,
         expect_open False,
         assign_flag ''gotResult'' False,
         on_client C (open_client_async passive_user ((te_cfg E)\<lparr>cf_host := invalid_host\<rparr>) 1),
         expect_events E C ''gotResult'' 2])"

fun async_connect_error_closures :: "('k, 'w) calc_closures" where
  "async_connect_error_closures (OnOpen n r) t = open_error_closure ECONNREFUSED ''system'' r t"
| "async_connect_error_closures cb t = t"

definition test_async_connect_error :: "('k, 'i, 'w) calc_env \<Rightarrow> ('k, 'w, unit) calc_action" where
  "test_async_connect_error E =
     (let C = async_connect_error_closures
      in in_sequence
        [close_the_client E C,
         shutdown_server E,
         wait_server E,
         make_client E,
         expect_open False,
         assign_flag ''gotResult'' False,
         on_client C (open_client_async passive_user (te_cfg E) 1),
         expect_events E C ''gotResult'' 4,
         start_server E None])"

section \<open>A port that is taken\<close>

text \<open>The test makes a service of its own on the port of the server.\<close>

definition test_accept_error :: "('l, 'i, calc_type, calc_value, 'a) service_cfg \<Rightarrow> 't calc_timer_lib \<Rightarrow> 'a \<Rightarrow>
    (nat \<Rightarrow> 'l transport) \<Rightarrow> nat \<Rightarrow> 't \<Rightarrow> ('k, 'w, unit) calc_action" where
  "test_accept_error cfg T socket store thread timer t =
     (let S = new_service (new_acceptor socket) store thread \<lparr>myResultTimer = timer, cd_closed = 0\<rparr>
      in case calc_register cfg T S of
           Some (Ret D S1) \<Rightarrow>
             EXPECT_THROW (\<lambda>t. case start_service cfg (-1) S1 of
                 Ret _ S2 \<Rightarrow> Some (Ret () t)
               | Exn e S2 \<Rightarrow> Some (Exn e t)) t
         | Some (Exn e S1) \<Rightarrow> Some (Exn e t)
         | None \<Rightarrow> None)"

section \<open>A second call of a pending function\<close>

text \<open>\<open>ClientMock\<close>: a listener with a messenger, over the transport of the test.\<close>

record 'k client_mock =
  mk_transport :: "'k transport"
  mk_messenger :: messenger
  mk_failures :: nat

definition mock_lens :: "('k, 'k client_mock) tlens" where
  "mock_lens = \<lparr>tr_of = mk_transport, tr_upd = (\<lambda>f s. s\<lparr>mk_transport := f (mk_transport s)\<rparr>)\<rparr>"

definition double_call_name :: string where
  "double_call_name = ''CalculatorInterface::add_and_delay_result''"

definition mock_handler :: "('i, calc_type, calc_value) archive \<Rightarrow> byte list \<Rightarrow> 'k client_mock \<Rightarrow>
    (unit, 'k client_mock) res" where
  "mock_handler A msg s =
     (case deserialize_call A False msg of
        None \<Rightarrow> Exn ArchiveException s
      | Some (funcName, i) \<Rightarrow>
          let s1 = (if funcName = double_call_name then s else s\<lparr>mk_failures := mk_failures s + 1\<rparr>)
          in case deserialize_result A (Some TI32) i of
               None \<Rightarrow> Exn ArchiveException s1
             | Some r \<Rightarrow>
                 Ret () (if myNetLibCode (myError r) = EINPROGRESS then s1
                         else s1\<lparr>mk_failures := mk_failures s1 + 1\<rparr>))"

definition mock_reader :: "'k asio \<Rightarrow> ('i, calc_type, calc_value) archive \<Rightarrow> 'k client_mock reader" where
  "mock_reader io A =
     \<lparr>rd_read = (\<lambda>n s. s\<lparr>mk_transport := tr_read io n (mk_transport s)\<rparr>),
      rd_data = (\<lambda>s. get_read_data (mk_transport s)),
      rd_handler = mock_handler A,
      rd_alive = (\<lambda>s. True)\<rparr>"

definition mock_listener :: "endian \<Rightarrow> 'k asio \<Rightarrow> ('i, calc_type, calc_value) archive \<Rightarrow>
    'k client_mock listener" where
  "mock_listener en io A =
     \<lparr>on_connection_error = (\<lambda>e s. Ret () s),
      on_connected = (\<lambda>s. Ret () s),
      on_disconnected = (\<lambda>s. Ret () s),
      on_incoming_data = (\<lambda>n s.
        case messenger_read en (mock_reader io A) n 0 (s, mk_messenger s) of
          Ret b (s2, m) \<Rightarrow> Ret b (s2\<lparr>mk_messenger := m\<rparr>)
        | Exn e (s2, m) \<Rightarrow> Exn e (s2\<lparr>mk_messenger := m\<rparr>))\<rparr>"

definition mock_open :: "('k, 'i, calc_type, calc_value) client_cfg \<Rightarrow> 'k client_mock \<Rightarrow>
    (bool, 'k client_mock) res" where
  "mock_open cfg s =
     bind_res (client_open (cf_io cfg) mock_lens (mock_listener (cf_endian cfg) (cf_io cfg) (cf_archive cfg))
                 (cf_host cfg) (cf_service cfg) s) (\<lambda>res s1.
     bind_res (init_transport (mock_reader (cf_io cfg) (cf_archive cfg)) (mk_messenger s1) s1) (\<lambda>_ s2.
       Ret res s2))"

text \<open>
  The test, from the new transport to the cleared listener. \<open>next\<close> is the completion of the
  outstanding read that \<open>run_one\<close> waits for, data or an error.
\<close>

definition mock_run_one :: "('k, 'i, calc_type, calc_value) client_cfg \<Rightarrow>
    ('k client_mock \<Rightarrow> byte list + error_code) \<Rightarrow> 'k client_mock \<Rightarrow> (unit, 'k client_mock) res" where
  "mock_run_one cfg next s =
     (let lst = mock_listener (cf_endian cfg) (cf_io cfg) (cf_archive cfg)
      in case next s of
           Inl data \<Rightarrow> recv_completed (cf_io cfg) mock_lens lst data s
         | Inr ec \<Rightarrow> handle_recv (cf_io cfg) mock_lens lst ec 0 s)"

definition mock_write :: "('k, 'i, calc_type, calc_value) client_cfg \<Rightarrow> byte list \<Rightarrow> 'k client_mock \<Rightarrow>
    (unit, 'k client_mock) res" where
  "mock_write cfg msg s =
     bind_res (write_message_with_header (cf_endian cfg) (cf_io cfg) mock_lens (\<lambda>s. Ret () s) msg s)
       (\<lambda>_ s1. Ret () s1)"

definition test_double_call_on_service :: "('k, 'i, calc_type, calc_value) client_cfg \<Rightarrow> 'k \<Rightarrow>
    ('k client_mock \<Rightarrow> byte list + error_code) \<Rightarrow> (unit, 'k client_mock) res" where
  "test_double_call_on_service cfg socket next =
     (let callMsg = serialize_call (cf_archive cfg) False double_call_name [I32 0, I32 0];
          clientMock = \<lparr>mk_transport = set_listener (new_transport socket), mk_messenger = new_messenger,
                        mk_failures = 0\<rparr>
      in bind_res (mock_open cfg clientMock) (\<lambda>_ s.
         bind_res (mock_write cfg callMsg s) (\<lambda>_ s.
         bind_res (mock_write cfg callMsg s) (\<lambda>_ s.
         bind_res (mock_run_one cfg next s) (\<lambda>_ s.
         bind_res (mock_run_one cfg next s) (\<lambda>_ s.
         bind_res (tr_close (cf_io cfg) mock_lens (\<lambda>s. Ret () s) s) (\<lambda>_ s.
         bind_res (mock_run_one cfg next s) (\<lambda>_ s.
           Ret () (s\<lparr>mk_transport := clear_listener (mk_transport s)\<rparr>)))))))))"

end
