(* ===== verification/Call_Tests_Spec.thy ===== *)
theory Call_Tests_Spec
  imports Sample_Bench Error_Tests
begin

text \<open>
  The tests of \<open>calltest.cpp\<close> that talk to a running service pass, and so does the one for the
  error the service answers with: whatever the archives and sockets, as long as they do what they
  promise, and whatever state the service is in apart from this connection.
\<close>

section \<open>The functions of the calculator\<close>

definition add_args :: "calc_value list \<Rightarrow> bool" where
  "add_args vs \<longleftrightarrow> (\<exists>a b c. vs = [I8 a, I16 b, I32 c])"

fun add_answer :: "calc_value list \<Rightarrow> calc_value result" where
  "add_answer [I8 a, I16 b, I32 c] = calc_sum_result a b c"
| "add_answer vs = Result_value (I32 0) Error_none"

definition pointer_args :: "calc_value list \<Rightarrow> bool" where
  "pointer_args vs \<longleftrightarrow> vs = [Ptr32 (Some 1234), Ptr32 (Some 4321)]"

definition pointer_answer :: "calc_value list \<Rightarrow> calc_value result" where
  "pointer_answer vs = Result_value (I32 5555) Error_none"

definition vector_args :: "calc_value list \<Rightarrow> bool" where
  "vector_args vs \<longleftrightarrow> (\<exists>a b. vs = [Vec32 a, Vec32 b] \<and> length a = length b)"

fun vector_answer :: "calc_value list \<Rightarrow> calc_value result" where
  "vector_answer [Vec32 a, Vec32 b] =
     Result_value (Vec64 (map2 (\<lambda>x y. word_of_int (sint x + sint y)) a b)) Error_none"
| "vector_answer vs = Result_value (Vec64 []) Error_none"

lemma bench_name:
  "bench_ok B \<Longrightarrow> full_name (bn_cfg B) f = make_fully_qualified_name (bn_scfg B) f"
  by (simp add: bench_ok_def make_fully_qualified_name_def myFuncPrefix_def)

lemma not_broadcast: "f \<noteq> ''broadcast_event'' \<Longrightarrow> full_name cfg f \<noteq> myBroadcastFuncName cfg"
  by (simp add: myFuncPrefix_def myBroadcastFuncName_def)

lemma add_answers:
  assumes "bench_ok B"
  shows "answers_with B ''add'' add_args TI32 add_answer"
  using not_broadcast [of "''add''" "bn_cfg B"]
  by (auto simp: answers_with_def bench_name [OF assms] calc_dict_add calc_entry_def add_args_def calc_add_answers
      calc_sum_result_def result_has_type_def result_defs value_too_large_def Error_of_code_def Let_def)

lemma pointer_answers:
  assumes "bench_ok B"
  shows "answers_with B ''add_by_pointers'' pointer_args TI32 pointer_answer"
  using not_broadcast [of "''add_by_pointers''" "bn_cfg B"]
  by (simp add: answers_with_def bench_name [OF assms] calc_dict_def make_fully_qualified_name_def calc_entry_def
      pointer_args_def pointer_answer_def calc_add_by_pointers_def add_int32_def INT32_MIN_def INT32_MAX_def
      result_has_type_def result_defs Let_def)

lemma vector_answers:
  assumes "bench_ok B"
  shows "answers_with B ''add_vector'' vector_args TVec64 vector_answer"
  using not_broadcast [of "''add_vector''" "bn_cfg B"]
  by (auto simp: answers_with_def bench_name [OF assms] calc_dict_def make_fully_qualified_name_def calc_entry_def
      vector_args_def calc_add_vector_def result_has_type_def result_defs Let_def)

lemma value_received:
  "received_result A (Some ty) (Result_value v Error_none) = \<lparr>res_value = Some v, myError = Error_of_message 0 []\<rparr>"
  by (simp add: received_result_def result_defs Error_none_def)

lemma value_closure_ok:
  "value_closure flag v \<lparr>res_value = Some v, myError = Error_of_message 0 []\<rparr> t = set_flag flag True t"
  by (simp add: value_closure_def Result_bool_def Error_bool_def Error_of_message_def expect_def)

lemma calc_calls:
  "calc_client_add U cfg a b c cl = send_call U cfg ''add'' cl [I8 a, I16 b, I32 c]"
  "calc_client_add_by_pointers U cfg x y cl = send_call U cfg ''add_by_pointers'' cl [Ptr32 x, Ptr32 y]"
  "calc_client_add_vector U cfg u v cl = send_call U cfg ''add_vector'' cl [Vec32 u, Vec32 v]"
  by (simp_all add: fun_eq_iff calc_client_add_def calc_client_add_by_pointers_def calc_client_add_vector_def)

text \<open>A test that makes one call and waits for its closure.\<close>

lemma one_call_passes:
  fixes B :: "('k, 'l, 'i, 'a, 't) bench" and C :: "('k, ('l, 'a, 't) bench_world) calc_closures"
  assumes "bench_ok B" and "on_bench B E" and "answers_with B f Args ty ans"
    and "call_ok B f Args ans (myArchives (myClient t)) (n, vs)" and "2 \<le> m"
    and "serving B f ty (myClient t) (myWorld t) []"
    and "\<And>t :: ('k, ('l, 'a, 't) bench_world) calc_test.
      C (OnResult n (received_result (cf_archive (bn_cfg B)) (Some ty) (ans vs))) t = set_flag flag True t"
  shows "passes (in_sequence
      [assign_flag flag False,
       on_client C (send_call passive_user (te_cfg E) f (closure_of ty n) vs),
       expect_call_in_progress E C f True,
       expect_events E C flag m,
       expect_call_in_progress E C f False]) t"
    and "passes (in_sequence
      [assign_flag flag False,
       on_client C (send_call passive_user (te_cfg E) f (closure_of ty n) vs),
       expect_events E C flag m]) t"
proof -
  let ?st = "\<lambda>calls flags. bench_state B f ty (myArchives (myClient t)) calls flags (testFailures t)"
  let ?x = "(n, vs)" and ?F = "(testFlags t)(flag := False)"
  have room: "length [] < cf_max_calls (bn_cfg B)"
    using assms(1) by (simp add: bench_ok_def)
  have call: "triple (?st [] ?F) (on_client C (send_call passive_user (te_cfg E) f (closure_of ty n) vs)) (?st [?x] ?F)"
    using triple_call [OF assms(1,2,4) room, of ty ?F "testFailures t" C] by simp
  have events: "triple (?st [?x] ?F) (expect_events E C flag m) (?st [] (?F(flag := True)))"
    by (rule triple_events [OF assms(1-3) _ assms(5) _ refl])
       (use assms(4,7) in \<open>simp_all add: set_flag_def\<close>)
  have busy: "triple (?st [?x] ?F) (expect_call_in_progress E C f True) (?st [?x] ?F)"
    and idle: "triple (?st [] (?F(flag := True))) (expect_call_in_progress E C f False) (?st [] (?F(flag := True)))"
    using triple_in_progress [OF assms(2), where calls = "[?x]"] triple_in_progress [OF assms(2), where calls = "[]"]
    by simp_all
  have start: "?st [] (testFlags t) t"
    using assms(6) by (simp add: bench_state_def)
  have ends: "?st [] (?F(flag := True)) t' \<Longrightarrow> testFailures t' = testFailures t" for t'
    by (simp add: bench_state_def)
  show "passes (in_sequence
      [assign_flag flag False,
       on_client C (send_call passive_user (te_cfg E) f (closure_of ty n) vs),
       expect_call_in_progress E C f True,
       expect_events E C flag m,
       expect_call_in_progress E C f False]) t"
    by (rule triple_passes [where P = "?st [] (testFlags t)", OF _ start refl])
       (intro triple_sequence(2) [OF triple_assign] triple_sequence(2) [OF call] triple_sequence(2) [OF busy]
          triple_sequence(2) [OF events] triple_sequence(2) [OF idle] triple_sequence(1) ends)
  show "passes (in_sequence
      [assign_flag flag False,
       on_client C (send_call passive_user (te_cfg E) f (closure_of ty n) vs),
       expect_events E C flag m]) t"
    by (rule triple_passes [where P = "?st [] (testFlags t)", OF _ start refl])
       (intro triple_sequence(2) [OF triple_assign] triple_sequence(2) [OF call]
          triple_sequence(2) [OF events] triple_sequence(1) ends)
qed

section \<open>Single calls\<close>

text \<open>What the closures of the tests do with the answers that the service gives.\<close>

lemma simple_call_closure:
  "simple_call_closures (OnResult n (received_result A (Some TI32) (add_answer [I8 12, I16 23, I32 34]))) t =
     set_flag ''gotResult'' True t"
  by (simp add: calc_sum_result_def INT32_MAX_def INT32_MIN_def value_received value_closure_ok)

lemma pointers_closure:
  "pointers_closures (OnResult n (received_result A (Some TI32) (pointer_answer vs))) t = set_flag ''gotResult'' True t"
  by (simp add: pointer_answer_def value_received value_closure_ok)

lemma plus_int64_sint: "plus_int64 = (\<lambda>x y. word_of_int (sint x + sint y))"
  by (simp add: fun_eq_iff plus_int64_def)

lemma large_message_closure:
  "large_message_closures a b (OnResult n (received_result A (Some TVec64) (vector_answer [Vec32 a, Vec32 b]))) t =
     set_flag ''gotResult'' True t"
  by (simp add: value_received plus_int64_sint Result_bool_def Error_bool_def Error_of_message_def expect_def)

lemma length_generate_data: "length (fst (generate_data gen n g)) = n"
  by (induction n arbitrary: g) (auto simp: split_def Let_def)

lemma overflow_closure:
  "error_from_service_closures (OnResult n (received_result A (Some TI32)
     (add_answer [I8 0, I16 1000, I32 (2147483647 - 500)]))) t = set_flag ''gotResult'' True t"
  by (simp add: calc_sum_result_def INT32_MAX_def INT32_MIN_def received_result_def result_defs
      value_too_large_def Error_of_code_def Error_of_message_def error_closure_def EOVERFLOW_def
      Result_bool_def Error_bool_def expect_def)

lemma simple_call_passes:
  assumes "bench_ok B" and "on_bench B E" and "serving B ''add'' TI32 (myClient t) (myWorld t) []"
    and "call_ok B ''add'' add_args add_answer (myArchives (myClient t)) (1, [I8 12, I16 23, I32 34])"
  shows "passes (test_simple_call E) t"
  using one_call_passes(1) [where C = simple_call_closures and flag = "''gotResult''" and m = 2,
      OF assms(1,2) add_answers [OF assms(1)] assms(4) _ assms(3) simple_call_closure]
  by (simp add: test_simple_call_def test_add_def calc_calls)

lemma overflow_call_passes:
  assumes "bench_ok B" and "on_bench B E" and "serving B ''add'' TI32 (myClient t) (myWorld t) []"
    and "call_ok B ''add'' add_args add_answer (myArchives (myClient t)) (1, [I8 0, I16 1000, I32 (2147483647 - 500)])"
  shows "passes (test_error_from_service E) t"
  using one_call_passes(2) [where C = error_from_service_closures and flag = "''gotResult''" and m = 2,
      OF assms(1,2) add_answers [OF assms(1)] assms(4) _ assms(3) overflow_closure]
  by (simp add: test_error_from_service_def test_add_def calc_calls)

lemma pointers_passes:
  assumes "bench_ok B" and "on_bench B E" and "serving B ''add_by_pointers'' TI32 (myClient t) (myWorld t) []"
    and "call_ok B ''add_by_pointers'' pointer_args pointer_answer (myArchives (myClient t))
      (1, [Ptr32 (Some 1234), Ptr32 (Some 4321)])"
  shows "passes (test_pointers E) t"
  using one_call_passes(2) [where C = pointers_closures and flag = "''gotResult''" and m = 2,
      OF assms(1,2) pointer_answers [OF assms(1)] assms(4) _ assms(3) pointers_closure]
  by (simp add: test_pointers_def calc_calls)

lemma large_message_passes:
  assumes "bench_ok B" and "on_bench B E" and "serving B ''add_vector'' TVec64 (myClient t) (myWorld t) []"
    and "generate_data gen 1024 g = (a, g1)" and "generate_data gen 1024 g1 = (b, g2)"
    and "call_ok B ''add_vector'' vector_args vector_answer (myArchives (myClient t)) (1, [Vec32 a, Vec32 b])"
  shows "passes (test_large_message E gen g) t"
  using one_call_passes(2) [where C = "large_message_closures a b" and flag = "''gotResult''" and m = 9,
      OF assms(1,2) vector_answers [OF assms(1)] assms(6) _ assms(3) large_message_closure]
  by (simp add: test_large_message_def calc_calls assms(4,5) Let_def)

section \<open>Queued calls\<close>

text \<open>Every call of the additions that the tests make, and its answer, has a legal size.\<close>

definition add_fits :: "('k, 'l, 'i, 'a, 't) bench \<Rightarrow> bool \<Rightarrow> bool" where
  "add_fits B ar \<longleftrightarrow> (\<forall>n a b c. call_ok B ''add'' add_args add_answer ar (n, [I8 a, I16 b, I32 c]))"

definition pointers_fit :: "('k, 'l, 'i, 'a, 't) bench \<Rightarrow> bool \<Rightarrow> bool" where
  "pointers_fit B ar \<longleftrightarrow>
     (\<forall>n. call_ok B ''add_by_pointers'' pointer_args pointer_answer ar (n, [Ptr32 (Some 1234), Ptr32 (Some 4321)]))"

definition vectors_fit :: "('k, 'l, 'i, 'a, 't) bench \<Rightarrow> bool \<Rightarrow> nat \<Rightarrow> bool" where
  "vectors_fit B ar m \<longleftrightarrow>
     (\<forall>n a b. length a = m \<longrightarrow> length b = m \<longrightarrow>
        call_ok B ''add_vector'' vector_args vector_answer ar (n, [Vec32 a, Vec32 b]))"

lemma queued_closures:
  "queued_calls_closures (OnResult 1 (received_result A (Some TI32) (add_answer [I8 1, I16 2, I32 3]))) t =
     set_flag ''gotResultCall1'' True t"
  "queued_calls_closures (OnResult 2 (received_result A (Some TI32) (add_answer [I8 4, I16 5, I32 6]))) t =
     set_flag ''gotResultCall2'' True t"
  "queued_calls_closures (OnResult 3 (received_result A (Some TI32) (add_answer [I8 7, I16 8, I32 9]))) t =
     set_flag ''gotResultCall3'' True t"
  by (simp_all add: calc_sum_result_def INT32_MAX_def INT32_MIN_def value_received value_closure_ok)

text \<open>One call of the addition on the bench, and the answer to the oldest one.\<close>

lemma triple_add:
  assumes "bench_ok B" and "on_bench B E" and "add_fits B ar" and "length calls < cf_max_calls (bn_cfg B)"
  shows "triple (bench_state B ''add'' TI32 ar calls flags k) (test_add E C a b c n)
    (bench_state B ''add'' TI32 ar (calls @ [(n, [I8 a, I16 b, I32 c])]) flags k)"
  using triple_call [OF assms(1,2) _ assms(4), of "''add''" add_args add_answer ar n "[I8 a, I16 b, I32 c]"] assms(3)
  by (simp add: test_add_def calc_calls add_fits_def)

lemma triple_add_answered:
  fixes B :: "('k, 'l, 'i, 'a, 't) bench" and C :: "('k, ('l, 'a, 't) bench_world) calc_closures"
  assumes "bench_ok B" and "on_bench B E" and "add_fits B ar" and "2 \<le> m" and "\<not> flags flag"
    and "calls = (n, [I8 a, I16 b, I32 c]) # rest" and "list_all (\<lambda>x. add_args (snd x)) rest"
    and "\<And>t :: ('k, ('l, 'a, 't) bench_world) calc_test.
      C (OnResult n (received_result (cf_archive (bn_cfg B)) (Some TI32) (add_answer [I8 a, I16 b, I32 c]))) t =
        set_flag flag True t"
  shows "triple (bench_state B ''add'' TI32 ar calls flags k) (expect_events E C flag m)
    (bench_state B ''add'' TI32 ar rest (flags(flag := True)) k)"
proof -
  have "list_all (call_ok B ''add'' add_args add_answer ar) calls"
    using assms(3,6,7) by (auto simp: list_all_iff add_fits_def add_args_def)
  then show ?thesis
    unfolding assms(6)
    by (rule triple_events [where flags = flags, OF assms(1,2) add_answers [OF assms(1)] _ assms(4,5) refl])
       (simp_all add: assms(8) [simplified] set_flag_def)
qed

text \<open>The archive of the calculator has room for all of them.\<close>

lemma sum_result_length:
  "length (result_body calc_archive ar fn (calc_sum_result a b c)) \<le> 2 * length fn + 100"
proof (cases "INT32_MAX < sint a + sint b + sint c")
  case True
  then have "calc_sum_result a b c = Result_error (Some (I32 0)) value_too_large"
    by (simp add: calc_sum_result_def)
  then show ?thesis
    by (simp add: result_body_def serialize_defs calc_archive_def save_result_def save_error_def result_defs
        value_too_large_def Error_of_code_def)
next
  case False
  then have "calc_sum_result a b c = Result_value (I32 (word_of_int (sint a + sint b + sint c))) Error_none"
    by (simp add: calc_sum_result_def)
  then show ?thesis
    by (simp add: calc_value_length)
qed

lemma sample_fits: "add_fits sample_bench ar" "pointers_fit sample_bench ar" "vectors_fit sample_bench ar 1024"
proof -
  have "body_ok (result_body calc_archive ar ''CalculatorInterface::add'' (calc_sum_result a b c))" for a b c
    using sum_result_length [of ar "''CalculatorInterface::add''" a b c] body_frames(2) [OF calc_archive_ok]
    by (intro body_ok_length) auto
  then show "add_fits sample_bench ar"
    by (auto simp: add_fits_def call_ok_def add_args_def calc_body_length myFuncPrefix_def
        body_frames(1) [OF calc_archive_ok] intro!: body_ok_length)
  show "pointers_fit sample_bench ar"
    by (simp add: pointers_fit_def call_ok_def pointer_args_def pointer_answer_def calc_body_length
        calc_value_length body_ok_length myFuncPrefix_def)
  show "vectors_fit sample_bench ar 1024"
    by (auto simp: vectors_fit_def call_ok_def vector_args_def calc_body_length calc_value_length
        myFuncPrefix_def body_frames(1,2) [OF calc_archive_ok] intro!: body_ok_length)
qed

text \<open>
  C35: \<open>test_queued_calls\<close> passes against a running calculator whose client may have three calls
  in progress (\<open>MAX_QUEUED_CALLS\<close>): the first three calls are taken, the fourth throws
  \<open>std::runtime_error\<close>, two handlers of the event loop bring the first result to its closure, after
  which another call is taken, and the second and third result follow in order, each with the sum
  that its closure expects.
\<close>

theorem queued_calls_test_passes:
  fixes B :: "('k, 'l, 'i, 'a, 't) bench" and E :: "('k, 'i, ('l, 'a, 't) bench_world) calc_env"
  assumes "bench_ok B" and "on_bench B E" and "cf_max_calls (bn_cfg B) = 3"
    and "serving B ''add'' TI32 (myClient t) (myWorld t) []" and "add_fits B (myArchives (myClient t))"
  shows "passes (test_queued_calls E) t"
proof -
  let ?C = "queued_calls_closures :: ('k, ('l, 'a, 't) bench_world) calc_closures"
  let ?st = "\<lambda>calls flags. bench_state B ''add'' TI32 (myArchives (myClient t)) calls flags (testFailures t)"
  let ?x1 = "(1, [I8 1, I16 2, I32 3])" and ?x2 = "(2, [I8 4, I16 5, I32 6])"
  let ?x3 = "(3, [I8 7, I16 8, I32 9])" and ?x5 = "(5, [I8 0, I16 1, I32 2])"
  let ?F = "(testFlags t)(''gotResultCall1'' := False, ''gotResultCall2'' := False, ''gotResultCall3'' := False)"
  let ?F1 = "?F(''gotResultCall1'' := True)"
  let ?F2 = "?F1(''gotResultCall2'' := True)"
  let ?F3 = "?F2(''gotResultCall3'' := True)"
  note add = triple_add [OF assms(1,2,5), unfolded assms(3), where k = "testFailures t" and C = ?C]
  note answered = triple_add_answered [OF assms(1,2,5), where k = "testFailures t" and C = ?C]
  have calls: "triple (?st [] ?F) (test_add E ?C 1 2 3 1) (?st [?x1] ?F)"
    "triple (?st [?x1] ?F) (test_add E ?C 4 5 6 2) (?st [?x1, ?x2] ?F)"
    "triple (?st [?x1, ?x2] ?F) (test_add E ?C 7 8 9 3) (?st [?x1, ?x2, ?x3] ?F)"
    "triple (?st [?x2, ?x3] ?F1) (test_add E ?C 0 1 2 5) (?st [?x2, ?x3, ?x5] ?F1)"
    using add [of "[]"] add [of "[?x1]"] add [of "[?x1, ?x2]"] add [of "[?x2, ?x3]"] by simp_all
  have refused: "triple (?st [?x1, ?x2, ?x3] ?F) (EXPECT_THROW (test_add E ?C 0 1 2 4)) (?st [?x1, ?x2, ?x3] ?F)"
    using triple_full [OF assms(2), of "[?x1, ?x2, ?x3]"] assms(3) by (simp add: test_add_def calc_calls)
  have one: "triple (?st [?x1, ?x2, ?x3] ?F) (expect_events E ?C ''gotResultCall1'' 2) (?st [?x2, ?x3] ?F1)"
    by (rule answered [OF _ _ refl _ queued_closures(1)]) (simp_all add: add_args_def)
  have two: "triple (?st [?x2, ?x3, ?x5] ?F1) (expect_events E ?C ''gotResultCall2'' 4) (?st [?x3, ?x5] ?F2)"
    by (rule answered [OF _ _ refl _ queued_closures(2)]) (simp_all add: add_args_def)
  have three: "triple (?st [?x3, ?x5] ?F2) (expect_events E ?C ''gotResultCall3'' 4) (?st [?x5] ?F3)"
    by (rule answered [OF _ _ refl _ queued_closures(3)]) (simp_all add: add_args_def)
  have start: "?st [] (testFlags t) t"
    using assms(4) by (simp add: bench_state_def)
  have ends: "?st [?x5] ?F3 t' \<Longrightarrow> testFailures t' = testFailures t" for t'
    by (simp add: bench_state_def)
  show ?thesis
    unfolding test_queued_calls_def Let_def
    by (rule triple_passes [where P = "?st [] (testFlags t)", OF _ start refl])
       (intro triple_sequence(2) [OF triple_assign] triple_sequence(2) [OF calls(1)] triple_sequence(2) [OF calls(2)]
          triple_sequence(2) [OF calls(3)] triple_sequence(2) [OF refused] triple_sequence(2) [OF one]
          triple_sequence(2) [OF triple_no_throw [OF calls(4)]] triple_sequence(2) [OF two]
          triple_sequence(2) [OF three] triple_sequence(1) ends)
qed

theorem queued_calls_test_passes_witness: "passes (test_queued_calls sample_env) sample_test"
  by (rule queued_calls_test_passes [OF sample_bench_ok _ sample_bench_serving sample_fits(1)]) simp

text \<open>
  C36: The tests that make one call pass against a running calculator: the sum of three numbers
  (\<open>test_simple_call\<close>, which also asks before and after whether the call is in progress), of two
  numbers behind pointers, of two vectors of 1024 random numbers, each sum in 64 bits, and the
  error that the service answers with when the sum of three numbers overflows.
\<close>

theorem single_call_tests_pass:
  fixes B :: "('k, 'l, 'i, 'a, 't) bench"
  assumes "bench_ok B" and "on_bench B E" and "\<And>f ty. serving B f ty (myClient t) (myWorld t) []"
    and "add_fits B (myArchives (myClient t))" and "pointers_fit B (myArchives (myClient t))"
    and "vectors_fit B (myArchives (myClient t)) 1024"
  shows "passes (test_simple_call E) t \<and> passes (test_pointers E) t \<and>
    passes (test_large_message E gen g) t \<and> passes (test_error_from_service E) t"
proof -
  obtain a g1 where a: "generate_data gen 1024 g = (a, g1)" by force
  obtain b g2 where b: "generate_data gen 1024 g1 = (b, g2)" by force
  have "length a = 1024" "length b = 1024"
    using length_generate_data [of gen 1024 g] length_generate_data [of gen 1024 g1] a b by simp_all
  then have "passes (test_large_message E gen g) t"
    using assms(6) by (intro large_message_passes [OF assms(1-3) a b]) (simp add: vectors_fit_def)
  moreover have "passes (test_simple_call E) t" "passes (test_error_from_service E) t"
    using assms(4) by (auto intro!: simple_call_passes [OF assms(1-3)] overflow_call_passes [OF assms(1-3)]
        simp: add_fits_def)
  moreover have "passes (test_pointers E) t"
    using assms(5) by (auto intro!: pointers_passes [OF assms(1-3)] simp: pointers_fit_def)
  ultimately show ?thesis
    by blast
qed

theorem single_call_tests_pass_witness:
  "passes (test_simple_call sample_env) sample_test \<and> passes (test_pointers sample_env) sample_test \<and>
   passes (test_large_message sample_env (\<lambda>g. (g, g + 1)) 0) sample_test \<and>
   passes (test_error_from_service sample_env) sample_test"
  by (rule single_call_tests_pass [OF sample_bench_ok sample_bench_serving sample_fits])

end
