(* ===== verification/Async_Open.thy ===== *)
theory Async_Open
  imports Client_Stream
begin

text \<open>
  The asynchronous open of a client (\<open>open\<close> with a closure in \<open>client.h\<close> and
  \<open>asio/clienttcptransport.h\<close>): the call and the completions of the resolver and of the connect.
  The transport stays in state \<open>NEW\<close> until the last of them, and nothing marks it as being opened;
  the second part says what the other operations of the client do in that time.
\<close>

section \<open>The states of an open\<close>

text \<open>A client that has not been opened, with or without an open under way.\<close>

definition not_yet_open :: "('k, 'ty, 'v) client \<Rightarrow> bool" where
  "not_yet_open s \<longleftrightarrow> myState (myTransport s) = NEW \<and> myListener (myTransport s) \<and>
     runningThread s = myThreadId s \<and> myReceiveState (myMessenger s) = HEADER \<and> myClosures s = []"

definition on_socket :: "('k \<Rightarrow> 'k) \<Rightarrow> ('k, 'ty, 'v) client \<Rightarrow> ('k, 'ty, 'v) client" where
  "on_socket f s = s\<lparr>myTransport := (myTransport s)\<lparr>mySocket := f (mySocket (myTransport s))\<rparr>\<rparr>"

definition resolving :: "('k, 'i, 'ty, 'v) client_cfg \<Rightarrow> ('k, 'ty, 'v) client \<Rightarrow> ('k, 'ty, 'v) client" where
  "resolving cfg = on_socket (io_async_resolve (cf_io cfg) (cf_host cfg) (cf_service cfg))"

definition being_connected :: "('k, 'i, 'ty, 'v) client_cfg \<Rightarrow> endpoints \<Rightarrow> ('k, 'ty, 'v) client \<Rightarrow>
    ('k, 'ty, 'v) client" where
  "being_connected cfg eps = on_socket (io_async_connect (cf_io cfg) eps)"

text \<open>The options of the socket are set, then the client makes its archives and waits for a header.\<close>

definition options_set :: "('k, 'i, 'ty, 'v) client_cfg \<Rightarrow> ('k, 'ty, 'v) client \<Rightarrow> ('k, 'ty, 'v) client" where
  "options_set cfg s = s\<lparr>myTransport := (myTransport s)\<lparr>myState := OPEN,
     mySocket := snd (io_set_no_delay (cf_io cfg) (mySocket (myTransport s)))\<rparr>\<rparr>"

definition opened :: "('k, 'i, 'ty, 'v) client_cfg \<Rightarrow> ('k, 'ty, 'v) client \<Rightarrow> ('k, 'ty, 'v) client" where
  "opened cfg s =
     (let s1 = options_set cfg s
      in s1\<lparr>myArchives := myArchives s1 \<or> cf_reusable cfg,
            myTransport := tr_read (cf_io cfg) HEADER_SIZE (myTransport s1)\<rparr>)"

lemma on_socket_simps [simp]:
  "not_yet_open (on_socket f s) = not_yet_open s" "callbacks (on_socket f s) = callbacks s"
  "mySocket (myTransport (on_socket f s)) = f (mySocket (myTransport s))"
  by (simp_all add: on_socket_def not_yet_open_def)

lemma opened_ready:
  assumes "not_yet_open s"
  shows "client_ready (opened cfg s)" and "can_receive (opened cfg s)"
    and "at_header (opened cfg s)"
    and "myClosures (opened cfg s) = []" and "callbacks (opened cfg s) = callbacks s"
  using assms
  by (simp_all add: not_yet_open_def opened_def options_set_def Let_def client_ready_def can_receive_def
      at_header_def tr_is_open_def tr_read_def resize_def)

section \<open>The operations in these states\<close>

lemma open_async_started:
  "not_yet_open s \<Longrightarrow> open_client_async U cfg n s = Ret () (resolving cfg s)"
  by (simp add: not_yet_open_def open_client_async_def check_thread_id_def client_open_async_def client_lens_def
      resolving_def on_socket_def)

lemma connection_error_without_calls:
  "not_yet_open s \<Longrightarrow> client_on_connection_error U cfg e s = Ret () s"
  by (simp add: not_yet_open_def client_on_connection_error_def check_thread_id_def dispatch_connection_error_def
      Let_def)

lemma open_failed_tells:
  "not_yet_open s \<Longrightarrow> open_failed client_lens (client_listener U cfg) complete ec s =
     complete (Result_value False (Error_of_code ec)) s"
  using connection_error_without_calls [of s U cfg]
  by (simp add: not_yet_open_def open_failed_def client_lens_def client_listener_def)

lemma resolved_step:
  "not_yet_open s \<Longrightarrow> client_step U cfg (Resolved n ec eps) s =
     (if ec_ok ec then Ret () (being_connected cfg eps s)
      else notify U (OnOpen n (Result_value False (Error_of_code ec))) s)"
  using open_failed_tells [of s U cfg]
  by (simp add: client_step_def handle_resolve_def being_connected_def on_socket_def client_lens_def)

lemma transport_opens:
  assumes "not_yet_open s"
  shows "tr_open (cf_io cfg) client_lens (client_on_connected U cfg) s =
    (let ec = fst (io_set_no_delay (cf_io cfg) (mySocket (myTransport s)))
     in if ec_ok ec then Ret True (opened cfg s) else Exn (SystemError (ec_value ec)) (options_set cfg s))"
  using assms
  by (auto simp: not_yet_open_def tr_open_def client_lens_def client_on_connected_def init_transport_def
      client_reader_def opened_def options_set_def Let_def case_prod_beta)

lemma connected_step:
  assumes "not_yet_open s"
  shows "client_step U cfg (Connected n ec) s =
    (if \<not> ec_ok ec then notify U (OnOpen n (Result_value False (Error_of_code ec))) s
     else let oc = fst (io_set_no_delay (cf_io cfg) (mySocket (myTransport s)))
       in if ec_ok oc then notify U (OnOpen n (Result_value True Error_none)) (opened cfg s)
          else Exn (SystemError (ec_value oc)) (options_set cfg s))"
proof -
  have "on_connected (client_listener U cfg) = client_on_connected U cfg"
    by (simp add: client_listener_def)
  then show ?thesis
    using transport_opens [OF assms, of cfg U] open_failed_tells [OF assms, of U cfg]
    by (simp add: client_step_def handle_connect_def Let_def)
qed

section \<open>The outcome of an open\<close>

text \<open>The completions in order; the connect is started if the host was resolved.\<close>

definition open_run :: "('k, 'ty, 'v) user \<Rightarrow> ('k, 'i, 'ty, 'v) client_cfg \<Rightarrow> nat \<Rightarrow> error_code \<Rightarrow> endpoints \<Rightarrow>
    error_code \<Rightarrow> ('k, 'ty, 'v) client \<Rightarrow> (unit, ('k, 'ty, 'v) client) res" where
  "open_run U cfg n ec1 eps ec2 s =
     bind_res (client_step U cfg (Program (OpenAsync n)) s) (\<lambda>_ s1.
     bind_res (client_step U cfg (Resolved n ec1 eps) s1) (\<lambda>_ s2.
       if ec_ok ec1 then client_step U cfg (Connected n ec2) s2 else Ret () s2))"

text \<open>
  C11: An asynchronous open calls its closure once, from the last completion: with the error of the
  resolver or of the connect, on a client that is as new as before, or with success on a client
  that is open, has its archives and waits for a header. Only if the option of the socket cannot be
  set the closure is not called; the completion throws, with the transport marked as open.
\<close>

theorem async_open_outcome:
  assumes "not_yet_open s" and "s1 = resolving cfg s" and "s2 = being_connected cfg eps s1"
    and "oc = fst (io_set_no_delay (cf_io cfg) (mySocket (myTransport s2)))"
  shows "open_run U cfg n ec1 eps ec2 s =
      (if \<not> ec_ok ec1 then notify U (OnOpen n (Result_value False (Error_of_code ec1))) s1
       else if \<not> ec_ok ec2 then notify U (OnOpen n (Result_value False (Error_of_code ec2))) s2
       else if \<not> ec_ok oc then Exn (SystemError (ec_value oc)) (options_set cfg s2)
       else notify U (OnOpen n (Result_value True Error_none)) (opened cfg s2)) \<and>
    tr_is_open (myTransport (opened cfg s2)) \<and> at_header (opened cfg s2) \<and>
    callbacks (opened cfg s2) = callbacks s"
proof -
  have new: "not_yet_open s1" "not_yet_open s2"
    using assms(1-3) by (simp_all add: resolving_def being_connected_def)
  have "callbacks s2 = callbacks s"
    using assms(2,3) by (simp add: resolving_def being_connected_def)
  moreover have "client_step U cfg (Program (OpenAsync n)) s = Ret () s1"
    using open_async_started [OF assms(1)] assms(2) by (simp add: client_step_def)
  ultimately show ?thesis
    using opened_ready(1,3,5) [OF new(2), of cfg] assms(3,4)
      resolved_step [OF new(1), of U cfg n ec1 eps] connected_step [OF new(2), of U cfg n ec2]
    by (cases "notify U (OnOpen n (Result_value False (Error_of_code ec1))) s1")
      (auto simp: open_run_def client_ready_def Let_def)
qed

section \<open>Other operations while an open is under way\<close>

lemma notify_passive: "notify passive_user cb s = Ret () (s\<lparr>callbacks := callbacks s @ [cb]\<rparr>)"
  by (simp add: notify_def passive_user_def)

lemma close_while_opening: "not_yet_open s \<Longrightarrow> close_client cfg s = Ret () s"
  by (simp add: not_yet_open_def close_client_def check_thread_id_def tr_close_def client_lens_def)

lemma connect_of_open_client:
  assumes "myState (myTransport s) = OPEN" and "myListener (myTransport s)" and "ec_ok ec"
  shows "client_step U cfg (Connected n ec) s = Exn (AssertFailed ''myState == State::NEW'') s"
  using assms by (simp add: client_step_def handle_connect_def tr_open_def client_lens_def)

text \<open>
  C15: While an asynchronous open is under way nothing guards the client. Closing it has no effect,
  and the connection is opened afterwards; a second open is taken, and the completion of its
  connect fails the assertion on the state; and when the client has been destroyed, the completions
  find no listener: a success fails an assertion, an error dereferences the null pointer.
\<close>

theorem unfinished_open_unguarded:
  assumes "not_yet_open s" and "ec_ok done" and "\<not> ec_ok failed"
    and "\<And>k. ec_ok (fst (io_set_no_delay (cf_io cfg) k))"
  shows "(\<exists>t. bind_res (close_client cfg s) (\<lambda>_. client_step passive_user cfg (Connected n done)) = Ret () t \<and>
       tr_is_open (myTransport t)) \<and>
    (\<exists>t. bind_res (open_client_async passive_user cfg m s) (\<lambda>_ s1.
         bind_res (client_step passive_user cfg (Resolved m done eps) s1) (\<lambda>_.
         client_step passive_user cfg (Connected n done))) = Ret () t \<and>
       client_step passive_user cfg (Connected m done) t = Exn (AssertFailed ''myState == State::NEW'') t) \<and>
    (\<exists>t. client_destructor cfg s = Ret () t \<and>
       client_step passive_user cfg (Connected n done) t = Exn (AssertFailed ''myListener != nullptr'') t \<and>
       client_step passive_user cfg (Resolved n failed eps) t = Exn (Undefined ''null listener'') t)"
proof (intro conjI)
  have opens: "client_step passive_user cfg (Connected n done) s =
      Ret () ((opened cfg s)\<lparr>callbacks := callbacks (opened cfg s) @ [OnOpen n (Result_value True Error_none)]\<rparr>)"
    if "not_yet_open s" for s
    using connected_step [OF that, of passive_user cfg n "done"] assms(2,4) by (simp add: notify_passive Let_def)
  show "\<exists>t. bind_res (close_client cfg s) (\<lambda>_. client_step passive_user cfg (Connected n done)) = Ret () t \<and>
      tr_is_open (myTransport t)"
    using opened_ready(1) [OF assms(1), of cfg]
    by (simp add: close_while_opening [OF assms(1)] opens [OF assms(1)] client_ready_def)
  let ?s = "being_connected cfg eps (resolving cfg s)"
  have new: "not_yet_open (resolving cfg s)" "not_yet_open ?s"
    using assms(1) by (simp_all add: resolving_def being_connected_def)
  show "\<exists>t. bind_res (open_client_async passive_user cfg m s) (\<lambda>_ s1.
        bind_res (client_step passive_user cfg (Resolved m done eps) s1) (\<lambda>_.
        client_step passive_user cfg (Connected n done))) = Ret () t \<and>
      client_step passive_user cfg (Connected m done) t = Exn (AssertFailed ''myState == State::NEW'') t"
    using opened_ready(1,2) [OF new(2), of cfg] assms(2)
    by (simp add: open_async_started [OF assms(1)] resolved_step [OF new(1)] opens [OF new(2)]
        connect_of_open_client client_ready_def can_receive_def tr_is_open_def)
  show "\<exists>t. client_destructor cfg s = Ret () t \<and>
      client_step passive_user cfg (Connected n done) t = Exn (AssertFailed ''myListener != nullptr'') t \<and>
      client_step passive_user cfg (Resolved n failed eps) t = Exn (Undefined ''null listener'') t"
    using assms by (simp add: not_yet_open_def client_destructor_def tr_close_def client_lens_def client_step_def
        handle_connect_def handle_resolve_def open_failed_def tr_open_def clear_listener_def)
qed

section \<open>A concrete open\<close>

definition sample_unopened :: "(sample_socket, unit, cint) client" where
  "sample_unopened = new_client (new_transport sample_sock) 1"

lemma sample_unopened_ok: "not_yet_open sample_unopened"
  by (simp add: sample_unopened_def not_yet_open_def new_client_def new_transport_def set_listener_def
      new_messenger_def)

theorem async_open_outcome_witness:
  "open_run passive_user sample_cfg 7 ec_success [1] ec_success sample_unopened =
     notify passive_user (OnOpen 7 (Result_value True Error_none)) sample_client \<and>
   open_run passive_user sample_cfg 7 ec_success [1] ec_reset sample_unopened =
     notify passive_user (OnOpen 7 (Result_value False (Error_of_code ec_reset))) sample_unopened"
proof -
  have s: "resolving sample_cfg sample_unopened = sample_unopened"
    "being_connected sample_cfg eps sample_unopened = sample_unopened" for eps
    by (simp_all add: resolving_def being_connected_def on_socket_def sample_io_def)
  have o: "opened sample_cfg sample_unopened = sample_client"
    by (simp add: sample_io_def opened_def options_set_def
        Let_def sample_client_eq sample_unopened_def new_client_def new_transport_def set_listener_def
        tr_read_def resize_def HEADER_SIZE_def numeral_eq_Suc)
  have oc: "ec_ok (fst (io_set_no_delay (cf_io sample_cfg) k))" "ec_ok ec_success" "\<not> ec_ok ec_reset" for k
    by (simp_all add: sample_io_def ec_samples ec_ok_def)
  show ?thesis
    using async_open_outcome [OF sample_unopened_ok refl refl refl, of passive_user sample_cfg 7 ec_success "[1]" ec_success]
      async_open_outcome [OF sample_unopened_ok refl refl refl, of passive_user sample_cfg 7 ec_success "[1]" ec_reset]
      oc by (simp add: s o)
qed

theorem unfinished_open_unguarded_witness:
  "\<exists>t. client_destructor sample_cfg sample_unopened = Ret () t \<and>
     client_step passive_user sample_cfg (Connected 7 ec_success) t =
       Exn (AssertFailed ''myListener != nullptr'') t"
proof -
  have "ec_ok (fst (io_set_no_delay (cf_io sample_cfg) k))" for k
    by (simp add: sample_io_def ec_samples ec_ok_def)
  then show ?thesis
    using unfinished_open_unguarded [OF sample_unopened_ok, of ec_success ec_reset sample_cfg 7 8 "[1]"]
    by (auto simp: ec_samples ec_ok_def)
qed

end
