(* ===== verification/Error_Tests_Spec.thy ===== *)
theory Error_Tests_Spec
  imports Sample_Bench Error_Tests Async_Open
begin

text \<open>
  The tests of \<open>errorstest.cpp\<close> for lost connections and failed opens: what the client does when the
  event loop delivers the errors that the tests provoke. The server process is a process of the
  operating system here; what counts is that its system calls succeed.
\<close>

section \<open>The state of the client between the steps\<close>

definition holds :: "('k, 'ty, 'v) client \<Rightarrow> (string \<Rightarrow> bool) \<Rightarrow> nat \<Rightarrow> ('k, 'ty, 'v, 'w) test \<Rightarrow> bool" where
  "holds s flags k t \<longleftrightarrow> myClient t = s \<and> testFlags t = flags \<and> testFailures t = k"

lemma holds_now: "holds (myClient t) (testFlags t) (testFailures t) t"
  by (simp add: holds_def)

lemma holds_failures: "holds s flags k t \<Longrightarrow> testFailures t = k"
  by (simp add: holds_def)

definition posix_works :: "'w posix \<Rightarrow> bool" where
  "posix_works P \<longleftrightarrow>
     (\<forall>w. 0 < fst (px_fork P w)) \<and> (\<forall>pid sig w. fst (px_kill P pid sig w) = 0) \<and>
     (\<forall>pid w. 0 \<le> fst (fst (px_waitpid P pid w)) \<and> snd (fst (px_waitpid P pid w)) \<noteq> Stopped)"

lemma triple_in_world:
  fixes s :: "('k, 'ty, 'v) client"
  assumes "\<And>t :: ('k, 'ty, 'v, 'w) test. \<exists>b w1. f t (myWorld t) = Ret b w1"
  shows "triple (holds s flags k) (\<lambda>t. in_world (f t) t) (holds s flags k)"
  unfolding triple_def
proof (intro allI impI)
  fix t :: "('k, 'ty, 'v, 'w) test"
  assume t: "holds s flags k t"
  obtain b w1 where "f t (myWorld t) = Ret b w1"
    using assms by blast
  then show "\<exists>t'. in_world (f t) t = Some (Ret () t') \<and> holds s flags k t'"
    using t by (simp add: in_world_def holds_def)
qed

lemma server_stops:
  assumes "posix_works (te_posix E)"
  shows "triple (holds s flags k) (shutdown_server E) (holds s flags k)"
    and "triple (holds s flags k) (wait_server E) (holds s flags k)"
proof -
  have "\<exists>b w1. process_shutdown (te_posix E) p w = Ret b w1" for p w
    using assms by (simp add: posix_works_def process_shutdown_def process_signal_def case_prod_beta Let_def)
  then show "triple (holds s flags k) (shutdown_server E) (holds s flags k)"
    using triple_in_world [of "\<lambda>t. process_shutdown (te_posix E) (myServerProc t)" s flags k]
    by (simp add: shutdown_server_def [abs_def])
  have "\<exists>b w1. process_wait (te_posix E) p w = Ret b w1" for p w
    using assms by (cases "snd (fst (px_waitpid (te_posix E) (myPid p) w))")
      (auto simp: posix_works_def process_wait_def case_prod_beta Let_def not_less)
  then show "triple (holds s flags k) (wait_server E) (holds s flags k)"
    using triple_in_world [of "\<lambda>t. process_wait (te_posix E) (myServerProc t)" s flags k]
    by (simp add: wait_server_def [abs_def])
qed

lemma server_starts:
  fixes E :: "('k, 'i, 'ty, 'v, 'w) test_env" and s :: "('k, 'ty, 'v) client"
  assumes "posix_works (te_posix E)"
  shows "triple (holds s flags k) (start_server E args) (holds s flags k)"
  unfolding triple_def
proof (intro allI impI)
  fix t :: "('k, 'ty, 'v, 'w) test"
  assume t: "holds s flags k t"
  have "poll_running (te_posix E) p w = Some (snd (px_kill (te_posix E) (myPid p) 0 (px_sleep (te_posix E) 100 w)))" for p w
    using assms by (subst poll_running.simps)
      (simp add: process_is_running_def posix_works_def case_prod_beta Let_def)
  moreover have "\<not> fst (px_fork (te_posix E) w) < 0" "fst (px_fork (te_posix E) w) \<noteq> 0" for w
    using assms by (simp_all add: posix_works_def less_le) (metis less_le not_less)
  ultimately show "\<exists>t'. start_server E args t = Some (Ret () t') \<and> holds s flags k t'"
    using t by (simp add: start_server_def start_test_service_def process_create_def in_parent_def
        holds_def case_prod_beta Let_def)
qed

lemma server_restarts:
  fixes E :: "('k, 'i, 'ty, 'v, 'w) test_env"
  assumes "posix_works (te_posix E)"
  shows "triple (\<lambda>t. testFailures t = k) (start_server E args) (\<lambda>t. testFailures t = k)"
  unfolding triple_def
proof (intro allI impI)
  fix t :: "('k, 'ty, 'v, 'w) test"
  assume "testFailures t = k"
  then show "\<exists>t'. start_server E args t = Some (Ret () t') \<and> testFailures t' = k"
    using server_starts [OF assms, of "myClient t" "testFlags t" k args]
    unfolding triple_def holds_def by blast
qed

text \<open>Operations of the client.\<close>

lemma triple_client:
  assumes "f s = Ret b s'" and "callbacks s' = callbacks s"
  shows "triple (holds s flags k) (then_do (on_client C f) (\<lambda>_ t. Some (Ret () t))) (holds s' flags k)"
    and "triple (holds s flags k) (then_do (on_client C f) (\<lambda>b. EXPECT (P b))) (holds s' flags (if P b then k else k + 1))"
  using assms by (auto simp: triple_def holds_def then_do_def on_client_def settle_same EXPECT_def expect_def)

lemma triple_client_unit:
  "f s = Ret () s' \<Longrightarrow> callbacks s' = callbacks s \<Longrightarrow>
     triple (holds s flags k) (on_client C f) (holds s' flags k)"
  by (auto simp: triple_def holds_def on_client_def settle_same)

lemma triple_flag: "triple (holds s flags k) (assign_flag x b) (holds s (flags(x := b)) k)"
  by (simp add: triple_def holds_def assign_flag_def set_flag_def)

lemma triple_throws:
  "f s = Exn (RuntimeError m) s \<Longrightarrow> triple (holds s flags k) (EXPECT_THROW (on_client C f)) (holds s flags k)"
  by (auto simp: triple_def holds_def EXPECT_THROW_def on_client_def settle_same)

section \<open>Opens of a client that is not new\<close>

abbreviation closed_client :: "('k, 'i, 'ty, 'v, 'w) test_env \<Rightarrow> ('k, 'ty, 'v) client \<Rightarrow> ('k, 'ty, 'v) client" where
  "closed_client E s \<equiv> s\<lparr>myTransport := after_close (cf_io (te_cfg E)) (myTransport s)\<rparr>"

lemma triple_close:
  assumes "client_ready s" and "closes_cleanly (cf_io (te_cfg E)) (myTransport s)"
  shows "triple (holds s flags k) (close_the_client E C) (holds (closed_client E s) flags k)"
  using assms client_close_clean [OF assms] unfolding close_the_client_def
  by (intro triple_client_unit) (simp_all add: close_client_def check_thread_id_def client_ready_def)

lemma triple_open_fails:
  assumes "runningThread s = myThreadId s" and "myState (myTransport s) \<noteq> NEW"
  shows "triple (holds s flags k) (expect_open_fails E) (holds s flags k)"
  using triple_client(2) [of "open_client passive_user (te_cfg E)" s False s flags k no_closures "\<lambda>b. \<not> b"] assms
  by (simp add: expect_open_fails_def open_client_def check_thread_id_def client_open_def)

lemma sample_posix_works: "posix_works (te_posix sample_env)"
  by (simp add: posix_works_def sample_env_def)

lemma sample_test_ready: "client_ready (myClient sample_test)"
  "closes_cleanly (cf_io calc_cfg) (myTransport (myClient sample_test))"
  by (simp_all add: sample_test_def calc_client_def sample_peer_def client_ready_def tr_is_open_def
      closes_cleanly_def sample_io_def ec_samples ec_ok_def)

text \<open>
  \<open>test_failed_open\<close> says nothing about a server that cannot be reached. Its first open is of a
  connection that is open and its second of one that was closed, and neither is tried: the test
  passes whatever the resolver and the connect of the socket library do, and whether or not the
  server has stopped.
\<close>

lemma failed_open_test_passes:
  assumes "posix_works (te_posix E)" and "client_ready (myClient t)"
    and "closes_cleanly (cf_io (te_cfg E)) (myTransport (myClient t))"
    and "cf = te_cfg E"
  shows "passes (test_failed_open (E\<lparr>te_cfg := cf\<lparr>cf_io := (cf_io cf)\<lparr>io_resolve := resolve, io_connect := connect\<rparr>\<rparr>\<rparr>)) t"
proof -
  let ?E = "E\<lparr>te_cfg := cf\<lparr>cf_io := (cf_io cf)\<lparr>io_resolve := resolve, io_connect := connect\<rparr>\<rparr>\<rparr>"
  let ?s = "myClient t" and ?k = "testFailures t" and ?F = "testFlags t"
  have clean: "closes_cleanly (cf_io (te_cfg ?E)) (myTransport ?s)"
    using assms(3,4) by (simp add: closes_cleanly_def)
  have px: "posix_works (te_posix ?E)"
    using assms(1) by simp
  have thread: "runningThread ?s = myThreadId ?s" "myState (myTransport ?s) = OPEN"
    using assms(2) by (simp_all add: client_ready_def tr_is_open_def)
  have opens: "triple (holds ?s ?F ?k) (expect_open_fails ?E) (holds ?s ?F ?k)"
    "triple (holds (closed_client ?E ?s) ?F ?k) (expect_open_fails ?E) (holds (closed_client ?E ?s) ?F ?k)"
    using thread by (auto intro!: triple_open_fails simp: after_close_def)
  show ?thesis
    unfolding test_failed_open_def
    by (rule triple_passes [where P = "holds ?s ?F ?k", OF _ holds_now refl])
       (intro triple_sequence(2) [OF opens(1)] triple_sequence(2) [OF triple_close [OF assms(2) clean]]
          triple_sequence(2) [OF server_stops(1) [OF px]] triple_sequence(2) [OF server_stops(2) [OF px]]
          triple_sequence(2) [OF opens(2)] triple_sequence(2) [OF server_starts [OF px]]
          triple_sequence(1) holds_failures)
qed

section \<open>The server is gone\<close>

text \<open>The event loop delivers one error, and its handler calls the closure.\<close>

lemma process_one_event:
  assumes "step t = Some (Ret () t1)" and "\<not> called t" and "called t1" and "m \<noteq> 0"
  shows "process_io_events step called m t = Some (Ret True t1)"
  using assms by (simp add: process_io_events.simps [of _ _ _ t] process_io_events.simps [of _ _ _ t1])

lemma triple_event:
  fixes E :: "('k, 'i, 'ty, 'v, 'w) test_env" and C :: "('k, 'ty, 'v, 'w) test_closures"
  assumes "\<And>w. \<exists>w1. te_next E s w = Some (ev, w1)"
    and "client_step passive_user (te_cfg E) ev s = Ret () s'" and "callbacks s' = callbacks s @ [cb]"
    and "\<And>t :: ('k, 'ty, 'v, 'w) test. C cb t = set_flag flag True t" and "\<not> flags flag" and "m \<noteq> 0"
  shows "triple (holds s flags k) (expect_events E C flag m) (holds s' (flags(flag := True)) k)"
  unfolding triple_def
proof (intro allI impI)
  fix t :: "('k, 'ty, 'v, 'w) test"
  assume t: "holds s flags k t"
  obtain w1 where w1: "te_next E s (myWorld t) = Some (ev, w1)"
    using assms(1) by blast
  let ?t1 = "t\<lparr>myWorld := w1, myClient := s', testFlags := flags(flag := True)\<rparr>"
  have "run_one E C t = Some (Ret () ?t1)"
    using t w1 assms(2-4) by (simp add: run_one_def on_client_def settle_one holds_def set_flag_def)
  then have "process_io_events (run_one E C) (\<lambda>t. testFlags t flag) m t = Some (Ret True ?t1)"
    by (rule process_one_event) (use t assms(5,6) in \<open>simp_all add: holds_def\<close>)
  then show "\<exists>t'. expect_events E C flag m t = Some (Ret () t') \<and> holds s' (flags(flag := True)) k t'"
    using t by (simp add: expect_events_def then_do_def EXPECT_def expect_def holds_def)
qed

text \<open>The client with its one call, and what a permanent read error makes of it.\<close>

lemma lost_call:
  assumes "archive_ok (cf_archive cfg) tyof" and "client_ready s" and "can_receive s"
    and "myClosures s = [(fn, closure_of ty n)]" and "fn \<noteq> ''''"
    and "\<not> ec_ok ec" and "\<not> is_recoverable (ec_value ec)" and "closes_cleanly (cf_io cfg) (myTransport s)"
  obtains s1 where "client_handle_recv passive_user cfg ec 0 s = Ret () s1"
    and "callbacks s1 = callbacks s @ [OnResult n \<lparr>res_value = Some (value_init (cf_archive cfg) ty),
       myError = Error_of_message (ec_value ec) (ec_message ec)\<rparr>]"
    and "\<not> client_ready s1" and "\<not> tr_is_open (myTransport s1)"
proof -
  let ?s = "told_error cfg (Error_of_code ec) s"
  have "client_handle_recv passive_user cfg ec 0 s =
      Ret () (?s\<lparr>myTransport := after_close (cf_io cfg) (myTransport s)\<rparr>)"
    using handle_recv_error_passive [OF assms(1), of s ec 0] assms(2-)
      client_close_clean [of ?s "cf_io cfg"]
    by (simp add: closures_callable_def can_receive_def)
  then show thesis
    by (rule that) (use assms(4,6) in \<open>simp_all add: told_error_def error_result_of_code after_close_def
        client_ready_def tr_is_open_def\<close>)
qed

lemma clean_close: "clean_sockets io \<Longrightarrow> closes_cleanly io t"
  by (simp add: clean_sockets_def closes_cleanly_def)

lemma closed_call_throws:
  "\<not> client_ready s \<Longrightarrow> \<not> tr_is_open (myTransport s) \<Longrightarrow>
     triple (holds s flags k) (EXPECT_THROW (test_add E C a b c n)) (holds s flags k)"
  unfolding test_add_def by (rule triple_throws) (simp add: calc_client_add_def send_call_rejected)

lemma closed_client_test_passes:
  assumes "client_ready (myClient t)" and "closes_cleanly (cf_io (te_cfg E)) (myTransport (myClient t))"
  shows "passes (test_call_closed_client E) t"
proof -
  have "\<not> client_ready (closed_client E (myClient t))" "\<not> tr_is_open (myTransport (closed_client E (myClient t)))"
    by (simp_all add: client_ready_def tr_is_open_def after_close_def)
  then show ?thesis
    unfolding test_call_closed_client_def
    by (intro triple_passes [where P = "holds (myClient t) (testFlags t) (testFailures t)", OF _ holds_now refl]
         triple_sequence(2) [OF triple_close [OF assms]]
         triple_sequence(2) [OF closed_call_throws] triple_sequence(1) holds_failures)
qed

lemma broken_connection_closure:
  "ec_value ec = asio_eof \<Longrightarrow> broken_connection_closures (OnResult 1 \<lparr>res_value = v,
      myError = Error_of_message (ec_value ec) (ec_message ec)\<rparr>) t = set_flag ''gotResult'' True t"
  by (simp add: error_closure_def Result_bool_def Error_bool_def Error_of_message_def asio_eof_def expect_def)

text \<open>
  C38: \<open>test_broken_connection\<close> passes: the server is stopped while a call is pending, and when the
  read of the client ends with the end of the file, the closure of the call gets that error and
  the connection is closed, so that the next call throws \<open>std::runtime_error\<close>; and
  \<open>test_call_closed_client\<close> passes, where the program closes the connection itself.
\<close>

theorem lost_server_tests_pass:
  fixes E :: "('k, 'i, 'w) calc_env"
  assumes "posix_works (te_posix E)" and "archive_ok (cf_archive (te_cfg E)) tyof" and "clean_sockets (cf_io (te_cfg E))"
    and "client_ready (myClient t)" and "can_receive (myClient t)" and "myClosures (myClient t) = []"
    and "write_succeeds (te_cfg E) (serialize_call (cf_archive (te_cfg E)) (myArchives (myClient t))
       (full_name (te_cfg E) ''add_and_delay_result'') [I32 321, I32 123]) (myClient t)"
    and "\<And>s w. tr_is_open (myTransport s) \<Longrightarrow> \<exists>w1. te_next E s w = Some (ReceiveError ec, w1)"
    and "ec_value ec = asio_eof"
  shows "passes (test_broken_connection E) t \<and> passes (test_call_closed_client E) t"
proof -
  let ?cfg = "te_cfg E" and ?fn = "full_name (te_cfg E) ''add_and_delay_result''"
  let ?m = "serialize_call (cf_archive ?cfg) (myArchives (myClient t)) ?fn [I32 321, I32 123]"
  let ?s = "myClient t" and ?k = "testFailures t" and ?F = "(testFlags t)(''gotResult'' := False)"
  let ?C = "broken_connection_closures :: ('k, 'w) calc_closures"
  define s1 where "s1 = enqueue_closure ?fn (closure_of TI32 1) (after_write ?cfg ?m ?s)"
  have idle: "\<not> in_keys ?fn (myClosures ?s)"
    by (simp add: assms(6))
  have sent: "calc_client_add_and_delay_result passive_user ?cfg 321 123 (closure_of TI32 1) ?s = Ret () s1"
    using send_call_direct [OF assms(4) idle, of "[I32 321, I32 123]" passive_user] assms(7)
    by (simp add: calc_client_add_and_delay_result_def s1_def)
  have s1: "client_ready s1" "can_receive s1" "myClosures s1 = [(?fn, closure_of TI32 1)]" "callbacks s1 = callbacks ?s"
    using assms(4-6) by (simp_all add: s1_def enqueue_closure_def client_ready_def can_receive_def tr_is_open_def)
  have ec: "\<not> ec_ok ec" "\<not> is_recoverable (ec_value ec)"
    using assms(9) by (simp_all add: ec_ok_def asio_eof_def is_recoverable_def errno_defs)
  obtain s2 where s2: "client_handle_recv passive_user ?cfg ec 0 s1 = Ret () s2"
      "callbacks s2 = callbacks s1 @ [OnResult 1 \<lparr>res_value = Some (value_init (cf_archive ?cfg) TI32),
         myError = Error_of_message (ec_value ec) (ec_message ec)\<rparr>]"
      "\<not> client_ready s2" "\<not> tr_is_open (myTransport s2)"
    by (rule lost_call [OF assms(2) s1(1-3) _ ec clean_close [OF assms(3)]]) (simp add: myFuncPrefix_def)
  have "tr_is_open (myTransport s1)"
    using s1(1) by (simp add: client_ready_def)
  then have events: "triple (holds s1 ?F ?k) (expect_events E ?C ''gotResult'' 4) (holds s2 (?F(''gotResult'' := True)) ?k)"
    by (intro triple_event [where ev = "ReceiveError ec" and s = s1 and s' = s2, OF _ _ s2(2)])
       (use assms(8) broken_connection_closure [OF assms(9)] in \<open>simp_all add: client_step_def s2(1)\<close>)
  have call: "triple (holds ?s ?F ?k) (on_client ?C (calc_client_add_and_delay_result passive_user ?cfg 321 123
      (closure_of TI32 1))) (holds s1 ?F ?k)"
    by (rule triple_client_unit) (use sent s1(4) in simp_all)
  have "passes (test_broken_connection E) t"
    unfolding test_broken_connection_def Let_def
    by (rule triple_passes [where P = "holds ?s (testFlags t) ?k", OF _ holds_now refl])
       (intro triple_sequence(2) [OF triple_flag] triple_sequence(2) [OF call]
          triple_sequence(2) [OF server_stops(1) [OF assms(1)]] triple_sequence(2) [OF server_stops(2) [OF assms(1)]]
          triple_sequence(2) [OF events] triple_sequence(2) [OF closed_call_throws [OF s2(3,4)]]
          triple_sequence(2) [OF server_starts [OF assms(1)]] triple_sequence(1) holds_failures)
  moreover have "passes (test_call_closed_client E) t"
    by (rule closed_client_test_passes [OF assms(4) clean_close [OF assms(3)]])
  ultimately show ?thesis
    by blast
qed

lemma sample_call_written:
  "write_succeeds calc_cfg (serialize_call calc_archive ar (full_name calc_cfg ''add_and_delay_result'')
     [I32 a, I32 b]) (myClient sample_test)"
proof -
  have "length (call_body calc_archive ar (full_name calc_cfg ''add_and_delay_result'') [I32 a, I32 b]) = 91"
    by (simp add: calc_body_length myFuncPrefix_def)
  then have "body_ok (call_body calc_archive ar (full_name calc_cfg ''add_and_delay_result'') [I32 a, I32 b])"
    by (intro body_ok_length) simp_all
  from body_frames(3) [OF calc_archive_ok this] show ?thesis
    by (simp add: write_succeeds_def sample_test_def calc_client_def sample_peer_def sample_io_def ec_samples ec_ok_def)
qed

definition eof_env ::
  "(sample_socket, byte list, (sample_socket, sample_acceptor, calc_wait list) bench_world) calc_env" where
  "eof_env = sample_env\<lparr>te_cfg := calc_cfg, te_next := (\<lambda>s w. Some (ReceiveError server_gone, w))\<rparr>"

theorem lost_server_tests_pass_witness:
  "passes (test_broken_connection eof_env) sample_test \<and> passes (test_call_closed_client eof_env) sample_test"
proof (rule lost_server_tests_pass [where ec = server_gone and tyof = calc_type_of])
  show "can_receive (myClient sample_test)" "myClosures (myClient sample_test) = []"
    by (simp_all add: sample_test_def calc_client_def can_receive_def sample_peer_def)
qed (use sample_posix_works sample_test_ready calc_archive_ok sample_sockets_clean sample_call_written in
     \<open>simp_all add: eof_env_def server_gone_def asio_eof_def\<close>)

section \<open>Asynchronous opens that fail\<close>

text \<open>A client whose open is under way; nothing but the socket of its transport is in use.\<close>

definition fresh_client :: "nat \<Rightarrow> 'k \<Rightarrow> ('k, 'ty, 'v) client" where
  "fresh_client thread k = new_client (new_transport k) thread"

lemma fresh_client_simps [simp]:
  "myState (myTransport (fresh_client thread k)) = NEW" "mySocket (myTransport (fresh_client thread k)) = k"
  "myListener (myTransport (fresh_client thread k))" "runningThread (fresh_client thread k) = myThreadId (fresh_client thread k)"
  "callbacks (fresh_client thread k) = []"
  "(fresh_client thread k)\<lparr>myTransport := (myTransport (fresh_client thread k))\<lparr>mySocket := k'\<rparr>\<rparr> = fresh_client thread k'"
  by (simp_all add: fresh_client_def new_client_def new_transport_def set_listener_def)

lemma fresh_not_yet_open: "not_yet_open (fresh_client thread k)"
  by (simp add: not_yet_open_def fresh_client_def new_client_def new_transport_def set_listener_def
      new_messenger_def)

lemma fresh_states:
  "resolving cfg (fresh_client thread k) = fresh_client thread (io_async_resolve (cf_io cfg) (cf_host cfg) (cf_service cfg) k)"
  "being_connected cfg eps (fresh_client thread k) = fresh_client thread (io_async_connect (cf_io cfg) eps k)"
  by (simp_all add: resolving_def being_connected_def on_socket_def)

text \<open>The test opens a new client asynchronously; \<open>ok\<close> is what is known of the sockets.\<close>

lemma triple_fresh:
  fixes E :: "('k, 'i, 'ty, 'v, 'w) test_env"
  assumes "\<And>w. ok (te_sockets E w 0)" and "\<And>k. ok k \<Longrightarrow> ok (io_async_resolve (cf_io cfg) (cf_host cfg) (cf_service cfg) k)"
    and "\<And>sock. ok sock \<Longrightarrow> triple (holds (fresh_client (te_thread E) sock) (flags(x := False)) k) m R"
    and "triple R (in_sequence ms) Q"
  shows "triple (holds s flags k) (in_sequence
    (make_client E # expect_open False # assign_flag x False # on_client C (open_client_async passive_user cfg n) # m # ms)) Q"
  unfolding triple_def
proof (intro allI impI)
  fix t :: "('k, 'ty, 'v, 'w) test"
  assume t: "holds s flags k t"
  let ?k0 = "te_sockets E (myWorld t) 0"
  let ?k1 = "io_async_resolve (cf_io cfg) (cf_host cfg) (cf_service cfg) ?k0"
  let ?t1 = "t\<lparr>testFlags := flags(x := False), myClient := fresh_client (te_thread E) ?k1\<rparr>"
  have "open_client_async passive_user cfg n (fresh_client (te_thread E) ?k0) = Ret () (fresh_client (te_thread E) ?k1)"
    by (simp add: open_async_started [OF fresh_not_yet_open] fresh_states)
  then have "in_sequence (make_client E # expect_open False # assign_flag x False #
      on_client C (open_client_async passive_user cfg n) # m # ms) t = in_sequence (m # ms) ?t1"
    using t
    by (simp add: then_do_def make_client_def expect_open_def assign_flag_def on_client_def settle_def EXPECT_def
        expect_def set_flag_def client_is_open_def tr_is_open_def holds_def flip: fresh_client_def)
  moreover have "triple (holds (fresh_client (te_thread E) ?k1) (flags(x := False)) k) (in_sequence (m # ms)) Q"
    by (rule triple_sequence(2) [OF assms(3,4)]) (simp add: assms(1,2))
  moreover have "holds (fresh_client (te_thread E) ?k1) (flags(x := False)) k ?t1"
    using t by (simp add: holds_def)
  ultimately show "\<exists>t'. in_sequence (make_client E # expect_open False # assign_flag x False #
      on_client C (open_client_async passive_user cfg n) # m # ms) t = Some (Ret () t') \<and> Q t'"
    unfolding triple_def by simp
qed

text \<open>A handler that calls no closure.\<close>

lemma triple_quiet_event:
  fixes E :: "('k, 'i, 'ty, 'v, 'w) test_env"
  assumes "\<And>w. \<exists>w1. te_next E s w = Some (ev, w1)"
    and "client_step passive_user (te_cfg E) ev s = Ret () s'" and "callbacks s' = callbacks s" and "\<not> flags flag" and "m \<noteq> 0"
    and "triple (holds s' flags k) (expect_events E C flag (m - 1)) R"
  shows "triple (holds s flags k) (expect_events E C flag m) R"
  unfolding triple_def
proof (intro allI impI)
  fix t :: "('k, 'ty, 'v, 'w) test"
  assume t: "holds s flags k t"
  obtain w1 where w1: "te_next E s (myWorld t) = Some (ev, w1)"
    using assms(1) by blast
  let ?t1 = "t\<lparr>myWorld := w1, myClient := s'\<rparr>"
  have "run_one E C t = Some (Ret () ?t1)"
    using t w1 assms(2,3) by (simp add: run_one_def on_client_def settle_same holds_def)
  then have "expect_events E C flag m t = expect_events E C flag (m - 1) ?t1"
    using t assms(4,5) by (simp add: expect_events_def then_do_def process_io_events.simps [of _ _ m] holds_def)
  moreover have "holds s' flags k ?t1"
    using t by (simp add: holds_def)
  ultimately show "\<exists>t'. expect_events E C flag m t = Some (Ret () t') \<and> R t'"
    using assms(6) by (simp add: triple_def)
qed

lemma open_error_closures:
  assumes "ec_value ec \<noteq> 0"
  shows "ec_value ec = HOST_NOT_FOUND \<Longrightarrow> ec_category ec = ''asio.netdb'' \<Longrightarrow>
      resolve_error_closures (OnOpen n (Result_value False (Error_of_code ec))) t = set_flag ''gotResult'' True t"
    and "ec_value ec = ECONNREFUSED \<Longrightarrow> ec_category ec = ''system'' \<Longrightarrow>
      async_connect_error_closures (OnOpen n (Result_value False (Error_of_code ec))) t = set_flag ''gotResult'' True t"
  using assms by (simp_all add: open_error_closure_def Result_value_def Error_of_code_def Error_category_def
      Result_bool_def Error_bool_def expect_def)

lemma resolve_error_told:
  fixes E :: "('k, 'i, 'w) calc_env"
  assumes "archive_ok (cf_archive (te_cfg E)) tyof" and "ec_value ec = HOST_NOT_FOUND" and "ec_category ec = ''asio.netdb''"
    and "\<And>s w. te_next E s w = Some (Resolved 1 ec eps, w)" and "\<not> flags ''gotResult''"
  shows "triple (holds (fresh_client thread sock) flags k)
    (expect_events E (resolve_error_closures :: ('k, 'w) calc_closures) ''gotResult'' 2) (\<lambda>t. testFailures t = k)"
proof -
  let ?C = "resolve_error_closures :: ('k, 'w) calc_closures"
  have ec: "\<not> ec_ok ec" "ec_value ec \<noteq> 0"
    using assms(2) by (simp_all add: ec_ok_def HOST_NOT_FOUND_def)
  obtain s1 where "client_step passive_user (te_cfg E) (Resolved 1 ec eps) (fresh_client thread sock) = Ret () s1"
      "callbacks s1 = [OnOpen 1 (Result_value False (Error_of_code ec))]"
    using resolved_step [OF fresh_not_yet_open, of passive_user "te_cfg E" 1 ec eps thread sock] ec(1)
    by (simp add: notify_passive)
  then have "triple (holds (fresh_client thread sock) flags k) (expect_events E ?C ''gotResult'' 2)
      (holds s1 (flags(''gotResult'' := True)) k)"
    by (intro triple_event [where ev = "Resolved 1 ec eps" and C = ?C and flag = "''gotResult''" and
          cb = "OnOpen 1 (Result_value False (Error_of_code ec))", rotated 3, OF open_error_closures(1) [OF ec(2) assms(2,3)]])
       (use assms(4,5) in \<open>simp_all del: resolve_error_closures.simps\<close>)
  then show ?thesis
    by (auto simp: triple_def holds_def)
qed

text \<open>\<open>connecting\<close> says which of the two operations of an open a socket is in.\<close>

lemma connect_error_told:
  fixes E :: "('k, 'i, 'w) calc_env"
  assumes "archive_ok (cf_archive (te_cfg E)) tyof" and "ec_value ec = ECONNREFUSED" and "ec_category ec = ''system''"
    and "\<And>s w. te_next E s w = Some (if connecting (mySocket (myTransport s)) then Connected 1 ec else Resolved 1 resolved eps, w)"
    and "\<And>k. connecting (io_async_connect (cf_io (te_cfg E)) eps k)" and "ec_ok resolved" and "\<not> connecting sock"
    and "\<not> flags ''gotResult''"
  shows "triple (holds (fresh_client thread sock) flags k)
    (expect_events E (async_connect_error_closures :: ('k, 'w) calc_closures) ''gotResult'' 4) (\<lambda>t. testFailures t = k)"
proof -
  let ?C = "async_connect_error_closures :: ('k, 'w) calc_closures"
  let ?k1 = "io_async_connect (cf_io (te_cfg E)) eps sock"
  have ec: "\<not> ec_ok ec" "ec_value ec \<noteq> 0"
    using assms(2) by (simp_all add: ec_ok_def ECONNREFUSED_def)
  obtain s1 where "client_step passive_user (te_cfg E) (Connected 1 ec) (fresh_client thread ?k1) = Ret () s1"
      "callbacks s1 = [OnOpen 1 (Result_value False (Error_of_code ec))]"
    using connected_step [OF fresh_not_yet_open, of passive_user "te_cfg E" 1 ec thread ?k1] ec(1)
    by (simp add: notify_passive)
  then have refused: "triple (holds (fresh_client thread ?k1) flags k) (expect_events E ?C ''gotResult'' (4 - 1))
      (holds s1 (flags(''gotResult'' := True)) k)"
    by (intro triple_event [where ev = "Connected 1 ec" and C = ?C and flag = "''gotResult''" and
          cb = "OnOpen 1 (Result_value False (Error_of_code ec))", rotated 3, OF open_error_closures(2) [OF ec(2) assms(2,3)]])
       (use assms(4,5,8) in \<open>simp_all del: async_connect_error_closures.simps\<close>)
  have "triple (holds (fresh_client thread sock) flags k) (expect_events E ?C ''gotResult'' 4)
      (holds s1 (flags(''gotResult'' := True)) k)"
    by (rule triple_quiet_event [where ev = "Resolved 1 resolved eps", OF _ _ _ _ _ refused])
       (use assms(4,6-8) in \<open>simp_all add: resolved_step [OF fresh_not_yet_open] fresh_states\<close>)
  then show ?thesis
    by (auto simp: triple_def holds_def)
qed

text \<open>
  The tests of asynchronous opens that fail pass: the closure of the open is called, once, with
  the number and category of the error, when the host cannot be resolved and when, after the host
  was resolved, the connection is refused.
\<close>

lemma failed_async_open_tests_pass:
  fixes E :: "('k, 'i, 'w) calc_env"
  assumes "posix_works (te_posix E)" and "archive_ok (cf_archive (te_cfg E)) tyof" and "clean_sockets (cf_io (te_cfg E))"
    and "client_ready (myClient t)"
    and "ec_value ec1 = HOST_NOT_FOUND" and "ec_category ec1 = ''asio.netdb''"
    and "ec_value ec2 = ECONNREFUSED" and "ec_category ec2 = ''system''"
    and "\<And>w. \<not> connecting (te_sockets E w 0)"
    and "\<And>h sv k. \<not> connecting k \<Longrightarrow> \<not> connecting (io_async_resolve (cf_io (te_cfg E)) h sv k)"
    and "\<And>eps k. connecting (io_async_connect (cf_io (te_cfg E)) eps k)" and "ec_ok ec0"
  shows "passes (test_resolve_error (E\<lparr>te_next := (\<lambda>s w. Some (Resolved 1 ec1 eps, w))\<rparr>)) t \<and>
    passes (test_async_connect_error (E\<lparr>te_next := (\<lambda>s w. Some (if connecting (mySocket (myTransport s))
       then Connected 1 ec2 else Resolved 1 ec0 eps, w))\<rparr>)) t"
proof -
  let ?E1 = "E\<lparr>te_next := (\<lambda>s w. Some (Resolved 1 ec1 eps, w))\<rparr>"
  let ?E2 = "E\<lparr>te_next := (\<lambda>s w. Some (if connecting (mySocket (myTransport s)) then Connected 1 ec2
      else Resolved 1 ec0 eps, w))\<rparr>"
  let ?s = "myClient t" and ?k = "testFailures t" and ?R = "\<lambda>t'. testFailures t' = testFailures t"
  have closed: "triple (holds ?s (testFlags t) ?k) (close_the_client E' C) (holds (closed_client E' ?s) (testFlags t) ?k)"
    if "te_cfg E' = te_cfg E" for E' :: "('k, 'i, 'w) calc_env" and C
    by (rule triple_close [OF assms(4)]) (simp add: that clean_close [OF assms(3)])
  have px: "posix_works (te_posix ?E2)"
    using assms(1) by simp
  have "passes (test_resolve_error ?E1) t"
    unfolding test_resolve_error_def Let_def
    by (rule triple_passes [where P = "holds ?s (testFlags t) ?k", OF _ holds_now refl],
        rule triple_sequence(2) [OF closed], simp,
        rule triple_fresh [where ok = "\<lambda>_. True" and R = ?R], simp, simp,
        rule resolve_error_told [where tyof = tyof, OF _ assms(5,6)]) (simp_all add: assms(2) triple_sequence(1))
  moreover have "passes (test_async_connect_error ?E2) t"
    unfolding test_async_connect_error_def Let_def
    by (rule triple_passes [where P = "holds ?s (testFlags t) ?k", OF _ holds_now refl],
        rule triple_sequence(2) [OF closed], simp,
        rule triple_sequence(2) [OF server_stops(1) [OF px]], rule triple_sequence(2) [OF server_stops(2) [OF px]],
        rule triple_fresh [where ok = "\<lambda>k. \<not> connecting k" and R = ?R, OF _ _ _
          triple_sequence(2) [OF server_restarts [OF px] triple_sequence(1)]],
        simp add: assms(9), simp add: assms(10),
        rule connect_error_told [where tyof = tyof and resolved = ec0 and connecting = connecting, OF _ assms(7,8)])
       (simp_all add: assms(2,11,12))
  ultimately show ?thesis
    by blast
qed

end
