(* ===== verification/Open_Tests_Spec.thy ===== *)
theory Open_Tests_Spec
  imports Error_Tests_Spec Call_Tests_Spec
begin

text \<open>
  The test of \<open>calltest.cpp\<close> that opens a connection asynchronously: a new client is opened by the
  completions of the resolver and of the connect, calls the calculator through the connection, and
  is refused a second open.
\<close>

section \<open>A connection that is accepted\<close>

text \<open>
  The service has accepted the connection and waits for a header; nothing has been sent yet. \<open>ar\<close>
  says whether it uses its archives again.
\<close>

definition peer_waits :: "('k, 'l, 'i, 'a, 't) bench \<Rightarrow> bool \<Rightarrow> ('l, 'a, 't) bench_world \<Rightarrow> bool" where
  "peer_waits B ar w \<longleftrightarrow>
     (let S = bw_service w; p = bn_peer B
      in service_inv S \<and> (\<exists>cs. map_of (myClients S) p = Some cs \<and> cs_archives cs = ar) \<and>
         service_at_header p S \<and> (\<forall>fn. (fn, p) \<notin> set (myPendingCalls S)) \<and>
         bw_up w = 0 \<and> bw_down w = length (bn_sout B (mySocket (svTransports S p))))"

text \<open>
  Sockets that send nothing while they are opened; \<open>connecting\<close> says which of the two operations
  of an open a socket is in.
\<close>

definition opens_quietly :: "('k, 'l, 'i, 'a, 't) bench \<Rightarrow> ('k \<Rightarrow> bool) \<Rightarrow> bool" where
  "opens_quietly B connecting \<longleftrightarrow>
     (\<forall>h sv k. bn_out B (io_async_resolve (cf_io (bn_cfg B)) h sv k) = bn_out B k \<and>
        (\<not> connecting k \<longrightarrow> \<not> connecting (io_async_resolve (cf_io (bn_cfg B)) h sv k))) \<and>
     (\<forall>eps k. bn_out B (io_async_connect (cf_io (bn_cfg B)) eps k) = bn_out B k \<and>
        connecting (io_async_connect (cf_io (bn_cfg B)) eps k)) \<and>
     (\<forall>k. bn_out B (snd (io_set_no_delay (cf_io (bn_cfg B)) k)) = bn_out B k \<and>
        ec_ok (fst (io_set_no_delay (cf_io (bn_cfg B)) k)))"

text \<open>The event loop: the completions of the open, the second with the service accepting, then the bench.\<close>

definition opening_next :: "('k, 'l, 'i, 'a, 't) bench \<Rightarrow> ('k \<Rightarrow> bool) \<Rightarrow> error_code \<Rightarrow> endpoints \<Rightarrow>
    (('l, 'a, 't) bench_world \<Rightarrow> ('l, 'a, 't) bench_world) \<Rightarrow> ('k, calc_type, calc_value) client \<Rightarrow>
    ('l, 'a, 't) bench_world \<Rightarrow> ((calc_type, calc_value) client_event \<times> ('l, 'a, 't) bench_world) option" where
  "opening_next B connecting ok eps accept s w =
     (if tr_is_open (myTransport s) then bench_next B s w
      else if connecting (mySocket (myTransport s)) then Some (Connected 1 ok, accept w)
      else Some (Resolved 1 ok eps, w))"

lemma opened_serving:
  assumes "bench_ok B" and "opens_quietly B connecting" and "peer_waits B (cf_reusable (bn_cfg B)) w"
    and "bn_out B k = []" and "s = (opened (bn_cfg B) (fresh_client thread k))\<lparr>callbacks := cbs\<rparr>"
  shows "serving B f ty s w []" and "myArchives s = cf_reusable (bn_cfg B)"
proof -
  have s: "client_ready s" "can_receive s" "at_header s"
    using opened_ready(1-3) [OF fresh_not_yet_open, of "bn_cfg B" thread k]
    by (simp_all add: assms(5) client_ready_def can_receive_def at_header_def)
  show archives: "myArchives s = cf_reusable (bn_cfg B)"
    by (simp add: assms(5) opened_def options_set_def fresh_client_def new_client_def Let_def)
  have empty: "myClosures s = []" "myCallQueue s = empty_queue"
    by (simp_all add: assms(5) opened_def options_set_def fresh_client_def new_client_def Let_def)
  have "lossless (cf_io (bn_cfg B)) (bn_out B)"
    using assms(1) by (simp add: bench_ok_def)
  then have "bn_out B (mySocket (myTransport s)) = []"
    using assms(2,4) by (simp add: assms(5) opened_def options_set_def Let_def tr_read_def lossless_read
        opens_quietly_def)
  then show "serving B f ty s w []"
    using s empty archives assms(3)
    by (simp add: serving_def Let_def peer_waits_def client_inv_def queue_ok_def waiting_def empty_queue_def
        outstanding_def fifo_ok_def)
qed

section \<open>The test\<close>

text \<open>From the closed client of the fixture to the new one, whose connection the service has accepted.\<close>

lemma triple_opens:
  fixes B :: "('k, 'l, 'i, 'a, 't) bench" and E :: "('k, 'i, ('l, 'a, 't) bench_world) calc_env"
    and s :: "('k, calc_type, calc_value) client"
  assumes "bench_ok B" and "opens_quietly B connecting" and "te_cfg E = bn_cfg B"
    and "te_next E = opening_next B connecting ok eps accept" and "ec_ok ok"
    and "\<And>w. peer_waits B (cf_reusable (bn_cfg B)) (accept w)"
    and "\<And>w. bn_out B (te_sockets E w 0) = []" and "\<And>w. \<not> connecting (te_sockets E w 0)"
    and "triple (bench_state B f ty (cf_reusable (bn_cfg B)) [] (flags(''gotResult'' := True)) k) (in_sequence ms) Q"
  shows "triple (holds s flags k) (in_sequence
    (make_client E # expect_open False # assign_flag ''gotResult'' False #
     on_client async_open_closures (open_client_async passive_user (te_cfg E) 1) #
     expect_events E async_open_closures ''gotResult'' 4 # ms)) Q"
  unfolding triple_def
proof (intro allI impI)
  fix t :: "('k, ('l, 'a, 't) bench_world) calc_test"
  assume t: "holds s flags k t"
  let ?cfg = "bn_cfg B" and ?C = "async_open_closures :: ('k, ('l, 'a, 't) bench_world) calc_closures"
  let ?k1 = "io_async_resolve (cf_io ?cfg) (cf_host ?cfg) (cf_service ?cfg) (te_sockets E (myWorld t) 0)"
  let ?k2 = "io_async_connect (cf_io ?cfg) eps ?k1"
  let ?fresh = "\<lambda>k. fresh_client (te_thread E) k :: ('k, calc_type, calc_value) client"
  let ?s3 = "(opened ?cfg (?fresh ?k2))\<lparr>callbacks := [OnOpen 1 (Result_value True Error_none)]\<rparr>"
  let ?t1 = "t\<lparr>testFlags := flags(''gotResult'' := False), myClient := ?fresh ?k1\<rparr>"
  let ?t2 = "t\<lparr>testFlags := flags(''gotResult'' := False), myClient := ?fresh ?k2\<rparr>"
  let ?t3 = "t\<lparr>testFlags := flags(''gotResult'' := True), myClient := ?s3, myWorld := accept (myWorld t)\<rparr>"
  have socket: "\<not> connecting ?k1" "connecting ?k2" "bn_out B ?k2 = []"
    "\<And>k. ec_ok (fst (io_set_no_delay (cf_io ?cfg) k))"
    using assms(2,7,8) by (simp_all add: opens_quietly_def)
  have closed: "\<not> tr_is_open (myTransport (?fresh k'))" for k'
    by (simp add: tr_is_open_def)
  have "open_client_async passive_user ?cfg 1 (?fresh (te_sockets E (myWorld t) 0)) = Ret () (?fresh ?k1)"
    by (simp add: open_async_started [OF fresh_not_yet_open] fresh_states)
  then have start: "in_sequence (make_client E # expect_open False # assign_flag ''gotResult'' False #
      on_client ?C (open_client_async passive_user (te_cfg E) 1) # expect_events E ?C ''gotResult'' 4 # ms) t =
    in_sequence (expect_events E ?C ''gotResult'' 4 # ms) ?t1"
    using t closed
    by (simp add: then_do_def make_client_def expect_open_def assign_flag_def on_client_def settle_def EXPECT_def
        expect_def set_flag_def client_is_open_def holds_def assms(3) flip: fresh_client_def)
  have "run_one E ?C ?t1 = Some (Ret () ?t2)"
    using socket(1) closed by (simp add: run_one_def assms(3,4) opening_next_def on_client_def settle_same
        resolved_step [OF fresh_not_yet_open] assms(5) fresh_states)
  moreover have "run_one E ?C ?t2 = Some (Ret () ?t3)"
    using socket(2,4) closed opened_ready(5) [OF fresh_not_yet_open, of ?cfg "te_thread E" ?k2]
    by (simp add: run_one_def assms(3,4) opening_next_def on_client_def settle_one Let_def
        connected_step [OF fresh_not_yet_open] assms(5) notify_passive expect_def Result_bool_def Error_bool_def
        Result_value_def Error_none_def set_flag_def)
  ultimately have "process_io_events (run_one E ?C) (\<lambda>t. testFlags t ''gotResult'') 4 ?t1 = Some (Ret True ?t3)"
    by (rule process_two_events) simp_all
  then have "in_sequence (expect_events E ?C ''gotResult'' 4 # ms) ?t1 = in_sequence ms ?t3"
    by (simp add: expect_events_def then_do_def EXPECT_def expect_def)
  moreover have "bench_state B f ty (cf_reusable ?cfg) [] (flags(''gotResult'' := True)) k ?t3"
    using opened_serving [OF assms(1,2,6) socket(3) refl] t by (simp add: bench_state_def holds_def)
  ultimately show "\<exists>t'. in_sequence (make_client E # expect_open False # assign_flag ''gotResult'' False #
      on_client ?C (open_client_async passive_user (te_cfg E) 1) # expect_events E ?C ''gotResult'' 4 # ms) t =
      Some (Ret () t') \<and> Q t'"
    using assms(9) unfolding triple_def start by simp
qed

lemma triple_is_open:
  "triple (bench_state B f ty ar calls flags k) (expect_open True) (bench_state B f ty ar calls flags k)"
  by (auto simp: triple_def expect_open_def EXPECT_def expect_def bench_state_def serving_def Let_def
      client_ready_def client_is_open_def)

text \<open>An open client refuses to be opened: the closure is called at once.\<close>

lemma triple_open_again:
  fixes E :: "('k, 'i, ('l, 'a, 't) bench_world) calc_env"
  assumes "m \<noteq> 1"
  shows "triple (bench_state B f ty ar calls flags k)
    (on_client (async_open_closures :: ('k, ('l, 'a, 't) bench_world) calc_closures)
      (open_client_async passive_user (te_cfg E) m)) (\<lambda>t. testFailures t = k)"
proof -
  have "open_client_async passive_user (te_cfg E) m s =
      Ret () (s\<lparr>callbacks := callbacks s @ [OnOpen m (Result_value False already_connected)]\<rparr>)"
    if "client_ready s" "can_receive s" for s
    using that by (simp add: open_client_async_def check_thread_id_def client_open_async_def client_lens_def
        client_ready_def can_receive_def tr_is_open_def notify_passive)
  moreover have "myNetLibCode already_connected = EISCONN" "EISCONN \<noteq> 0"
    by (simp_all add: already_connected_def Error_of_code_def EISCONN_def)
  ultimately show ?thesis
    using assms by (auto simp: triple_def bench_state_def serving_def Let_def on_client_def settle_one expect_def
        set_flag_def Result_bool_def Error_bool_def Result_value_def)
qed

lemma async_sum_closure:
  "async_open_closures (OnResult n (received_result A (Some TI32) (add_answer [I8 100, I16 200, I32 300]))) t =
     set_flag ''gotResult'' True t"
  by (simp add: calc_sum_result_def INT32_MAX_def INT32_MIN_def value_received value_closure_ok)

text \<open>
  C37: \<open>test_async_open\<close> passes against a running calculator. The client of the fixture is closed
  and a new one is opened asynchronously: when the resolver and the connect have completed and the
  service has accepted the connection, the closure of the open is called with success and the
  client is open; a sum is computed through the new connection; and a second open is answered at
  once with \<open>EISCONN\<close>.
\<close>

theorem async_open_test_passes:
  fixes B :: "('k, 'l, 'i, 'a, 't) bench" and E :: "('k, 'i, ('l, 'a, 't) bench_world) calc_env"
  assumes "bench_ok B" and "opens_quietly B connecting" and "te_cfg E = bn_cfg B"
    and "te_next E = opening_next B connecting ok eps accept" and "ec_ok ok"
    and "\<And>w. peer_waits B (cf_reusable (bn_cfg B)) (accept w)"
    and "\<And>w. bn_out B (te_sockets E w 0) = []" and "\<And>w. \<not> connecting (te_sockets E w 0)"
    and "add_fits B (cf_reusable (bn_cfg B))" and "client_ready (myClient t)"
    and "closes_cleanly (cf_io (bn_cfg B)) (myTransport (myClient t))"
  shows "passes (test_async_open E) t"
proof -
  let ?C = "async_open_closures :: ('k, ('l, 'a, 't) bench_world) calc_closures"
  let ?k = "testFailures t" and ?F = "(testFlags t)(''gotResult'' := True)"
  let ?st = "bench_state B ''add'' TI32 (cf_reusable (bn_cfg B))"
  let ?x = "(1, [I8 100, I16 200, I32 300])"
  have bench: "on_bench B E"
    using assms(3,4) by (simp add: on_bench_def opening_next_def)
  have room: "length [] < cf_max_calls (bn_cfg B)"
    using assms(1) by (simp add: bench_ok_def)
  note answered = triple_add_answered [OF assms(1) bench assms(9), where k = ?k and C = ?C]
  have call: "triple (?st [] (?F(''gotResult'' := False)) ?k) (test_add E ?C 100 200 300 1)
      (?st [?x] (?F(''gotResult'' := False)) ?k)"
    using triple_add [OF assms(1) bench assms(9) room] by simp
  have answer: "triple (?st [?x] (?F(''gotResult'' := False)) ?k) (expect_events E ?C ''gotResult'' 2)
      (?st [] (?F(''gotResult'' := False, ''gotResult'' := True)) ?k)"
    by (rule answered [OF _ _ refl _ async_sum_closure]) simp_all
  have rest: "triple (?st [] ?F ?k) (in_sequence
      [expect_open True, assign_flag ''gotResult'' False, test_add E ?C 100 200 300 1,
       expect_events E ?C ''gotResult'' 2, assign_flag ''gotResult'' False,
       on_client ?C (open_client_async passive_user (te_cfg E) 2)]) (\<lambda>t'. testFailures t' = ?k)"
    by (intro triple_sequence(2) [OF triple_is_open] triple_sequence(2) [OF triple_assign]
        triple_sequence(2) [OF call] triple_sequence(2) [OF answer] triple_sequence(2) [OF triple_open_again]
        triple_sequence(1)) simp_all
  have close: "triple (holds (myClient t) (testFlags t) ?k) (close_the_client E ?C)
      (holds (closed_client E (myClient t)) (testFlags t) ?k)"
    using assms(3,11) by (intro triple_close [OF assms(10)]) simp
  show ?thesis
    unfolding test_async_open_def Let_def
    by (rule triple_passes [where P = "holds (myClient t) (testFlags t) ?k", OF _ holds_now refl],
        rule triple_sequence(2) [OF close],
        rule triple_opens [OF assms(1-8) rest])
qed

text \<open>The sample calculator, to which the new connection leads; a connect is marked in the socket.\<close>

definition open_bench ::
  "(sample_socket, sample_socket, byte list, sample_acceptor, calc_wait list) bench" where
  "open_bench = sample_bench\<lparr>bn_cfg := (bn_cfg sample_bench)
     \<lparr>cf_io := steady_io\<lparr>io_async_connect := (\<lambda>eps k. k\<lparr>reads_asked := 1\<rparr>)\<rparr>\<rparr>\<rparr>"

definition open_env ::
  "(sample_socket, byte list, (sample_socket, sample_acceptor, calc_wait list) bench_world) calc_env" where
  "open_env = sample_env
     \<lparr>te_cfg := bn_cfg open_bench,
      te_next := opening_next open_bench (\<lambda>k. reads_asked k = 1) ec_success [] (\<lambda>_. myWorld sample_test)\<rparr>"

lemma open_bench_simps:
  "bn_scfg open_bench = bn_scfg sample_bench" "bn_peer open_bench = 1" "bn_out open_bench = sent"
  "bn_sout open_bench = sent" "cf_reusable (bn_cfg open_bench)"
  "cf_archive (bn_cfg open_bench) = calc_archive" "cf_interface (bn_cfg open_bench) = ''CalculatorInterface''"
  by (simp_all add: open_bench_def sample_bench_fields) (simp add: sample_bench_def calc_cfg_def)

lemma open_bench_ok:
  "bench_ok open_bench" "opens_quietly open_bench (\<lambda>k. reads_asked k = 1)" "add_fits open_bench ar"
  "peer_waits open_bench True (myWorld sample_test)"
proof -
  show "bench_ok open_bench"
    using sample_bench_ok(1) by (simp add: bench_ok_def open_bench_def lossless_def)
  show "opens_quietly open_bench (\<lambda>k. reads_asked k = 1)"
    by (simp add: opens_quietly_def open_bench_simps del: One_nat_def)
      (simp add: open_bench_def steady_io_def sample_io_def ec_samples ec_ok_def)
  show "add_fits open_bench ar"
    using sample_fits(1) [of ar] by (simp add: add_fits_def call_ok_def open_bench_simps myFuncPrefix_def)
  show "peer_waits open_bench True (myWorld sample_test)"
    using calc_connected
    by (simp add: peer_waits_def Let_def sample_test_def connected_def open_bench_simps sample_bench_fields)
qed

theorem async_open_test_passes_witness: "passes (test_async_open open_env) sample_test"
proof (rule async_open_test_passes [where B = open_bench and connecting = "\<lambda>k. reads_asked k = 1"
      and ok = ec_success and eps = "[]" and accept = "\<lambda>_. myWorld sample_test"])
  show "closes_cleanly (cf_io (bn_cfg open_bench)) (myTransport (myClient sample_test))"
    by (simp add: closes_cleanly_def open_bench_def steady_io_def sample_io_def ec_samples ec_ok_def)
  show "opens_quietly open_bench (\<lambda>k. reads_asked k = 1)"
    by (rule open_bench_ok(2))
qed (simp_all add: open_bench_ok open_bench_simps sample_test_ready, simp_all add: open_env_def sample_env_def
    sample_sock_def open_bench_simps ec_samples ec_ok_def)

end
