(* ===== verification/Event_Tests.thy ===== *)
theory Event_Tests
  imports Test_Framework
begin

text \<open>
  The test cases of \<open>unittests/eventstest.cpp\<close>: a client asks an event source for an event and its
  listener receives it. The listener is a global object; it stands beside the world of the test.
\<close>

type_synonym ('k, 'i, 'e, 'w) event_env =
  "('k, 'i, event_type, event_value, 'e event_listener \<times> 'w) test_env"
type_synonym ('k, 'e, 'w) event_action =
  "('k, event_type, event_value, 'e event_listener \<times> 'w, unit) test_action"
type_synonym ('k, 'e, 'w) event_closures =
  "('k, event_type, event_value, 'e event_listener \<times> 'w) test_closures"

abbreviation the_listener :: "('k, 'ty, 'v, 'e event_listener \<times> 'w) test \<Rightarrow> 'e event_listener" where
  "the_listener t \<equiv> fst (myWorld t)"

definition upd_listener :: "('e event_listener \<Rightarrow> 'e event_listener) \<Rightarrow>
    ('k, 'ty, 'v, 'e event_listener \<times> 'w) test \<Rightarrow> ('k, 'ty, 'v, 'e event_listener \<times> 'w) test" where
  "upd_listener f t = t\<lparr>myWorld := apfst f (myWorld t)\<rparr>"

definition reset_listener :: "('e event_listener \<Rightarrow> 'e event_listener) \<Rightarrow> ('k, 'e, 'w) event_action" where
  "reset_listener f t = Some (Ret () (upd_listener f t))"

definition listen :: "('k, 'e, 'w) event_closures \<Rightarrow> nat \<Rightarrow> ('k, 'e, 'w) event_action" where
  "listen C l = on_client C (\<lambda>s. Ret () (add_listener l s))"

definition trigger :: "('k, 'i, 'e, 'w) event_env \<Rightarrow> ('k, 'e, 'w) event_closures \<Rightarrow> event_value \<Rightarrow>
    ('k, 'e, 'w) event_action" where
  "trigger E C e = on_client C (event_client_trigger (te_cfg E) e)"

text \<open>\<open>EXPECT_EQ(process_io_events(listener.gotEvent, n), true)\<close>.\<close>

definition expect_event :: "('k, 'i, 'e, 'w) event_env \<Rightarrow> ('k, 'e, 'w) event_closures \<Rightarrow> int \<Rightarrow>
    ('k, 'e, 'w) event_action" where
  "expect_event E C n =
     then_do (process_io_events (run_one E C) (\<lambda>t. gotEvent (the_listener t)) n) EXPECT"

definition check_listener :: "('e event_listener \<Rightarrow> (bool, unit) res) \<Rightarrow> ('k, 'e, 'w) event_action" where
  "check_listener f t =
     (case f (the_listener t) of
        Ret b _ \<Rightarrow> Some (Ret () (expect b t))
      | Exn e _ \<Rightarrow> Some (Exn e t))"

section \<open>Simple events\<close>

fun simple_closures :: "('k, simple_event, 'w) event_closures" where
  "simple_closures (OnEvent l (Some (VSimple ev))) t = upd_listener (simple_on_service_event ev) t"
| "simple_closures cb t = t"

definition received_is :: "simple_event \<Rightarrow> simple_event event_listener \<Rightarrow> (bool, unit) res" where
  "received_is ev l = Ret (receivedEvent l = ev) ()"

definition test_simple_events :: "('k, 'i, simple_event, 'w) event_env \<Rightarrow> ('k, simple_event, 'w) event_action" where
  "test_simple_events E =
     (let C = simple_closures
      in in_sequence
        [listen C 1,
         trigger E C (VSimple EVENT_ONE),
         expect_event E C 2,
         check_listener (received_is EVENT_ONE),
         reset_listener simple_reset,
         trigger E C (VSimple EVENT_ONE),
         expect_event E C 4,
         check_listener (received_is EVENT_ONE),
         reset_listener simple_reset,
         trigger E C (VSimple EVENT_TWO),
         expect_event E C 4,
         check_listener (received_is EVENT_TWO)])"

section \<open>Polymorphic events\<close>

fun poly_closures :: "('k, poly_event option, 'w) event_closures" where
  "poly_closures (OnEvent l None) t = upd_listener (poly_on_service_event None) t"
| "poly_closures (OnEvent l (Some (VPoly ev))) t = upd_listener (poly_on_service_event ev) t"
| "poly_closures cb t = t"

text \<open>
  The received event is cast, the pointer expected not to be null, and its data compared: a null
  event, or one of another class, is dereferenced all the same.
\<close>

definition received_as :: "(poly_event \<Rightarrow> 'd option) \<Rightarrow> 'd \<Rightarrow> poly_event option event_listener \<Rightarrow>
    (bool, unit) res" where
  "received_as get_as d l =
     (case receivedEvent l of
        None \<Rightarrow> Exn (Undefined ''null event'') ()
      | Some e \<Rightarrow>
          (case get_as e of
             None \<Rightarrow> Exn (Undefined ''null pointer'') ()
           | Some d' \<Rightarrow> Ret (d' = d) ()))"

text \<open>One block of the test: an event, its class and its data.\<close>

definition poly_block :: "('k, 'i, poly_event option, 'w) event_env \<Rightarrow> poly_event \<Rightarrow> (poly_event \<Rightarrow> 'd option) \<Rightarrow>
    'd \<Rightarrow> ('k, poly_event option, 'w) event_action" where
  "poly_block E ev get_as d =
     in_sequence
       [trigger E poly_closures (VPoly (Some ev)),
        expect_event E poly_closures 2,
        check_listener (received_as get_as d)]"

definition event_dict_123 :: event_dict where
  "event_dict_123 = [(''one'', 1), (''three'', 3), (''two'', 2)]"

text \<open>\<open>g\<close> is the number that the constructor of the third class leaves uninitialized.\<close>

definition test_poly_events :: "('k, 'i, poly_event option, 'w) event_env \<Rightarrow> cint \<Rightarrow>
    ('k, poly_event option, 'w) event_action" where
  "test_poly_events E g =
     in_sequence
       [listen poly_closures 1,
        poly_block E (RealEventClassOne ''test event class one'') get_as_one ''test event class one'',
        reset_listener poly_reset,
        poly_block E (RealEventClassTwo 123654) get_as_two 123654,
        reset_listener poly_reset,
        poly_block E (new_event_three g event_dict_123) get_as_three event_dict_123]"

section \<open>The fixture\<close>

datatype event_client = SimpleClient | PolyClient

definition event_set_up_case :: "('k, 'i, 'e, 'w) event_env \<Rightarrow> event_client \<Rightarrow> ('k, 'e, 'w) event_action" where
  "event_set_up_case E client =
     start_server E (Some (case client of SimpleClient \<Rightarrow> ''-s'' | PolyClient \<Rightarrow> ''-p''))"

definition event_tear_down_case :: "('k, 'i, 'e, 'w) event_env \<Rightarrow> ('k, 'e, 'w) event_action" where
  "event_tear_down_case E t = in_world (stop_test_service (te_posix E) (myServerProc t)) t"

end
