(* ===== verification/Event_Bench.thy ===== *)
theory Event_Bench
  imports Network_Session Test_Bench Event_Tests
begin

text \<open>
  The test process with an event source at the other end of its connection: the service reads what
  the client has written, its timer elapses if a call has set it, and the event goes out to all
  clients before the event loop of the test runs its next handler.
\<close>

section \<open>The source at the other end\<close>

record ('k, 'l, 'i, 'ty, 'v, 'a, 'u) source =
  so_cfg :: "('k, 'i, 'ty, 'v) client_cfg"
  so_scfg :: "('l, 'i, 'ty, 'v, 'a) service_cfg"
  so_dict :: "('l, 'ty, 'v, 'a, 'u) service_dict"
  so_tick :: "('l, 'a, 'u) service \<Rightarrow> (unit, ('l, 'a, 'u) service) res"
  so_function :: string
  so_echo :: "'v \<Rightarrow> 'v"
  so_type :: "'v \<Rightarrow> 'ty"
  so_peer :: nat
  so_out :: "'k \<Rightarrow> byte list"
  so_sout :: "'l \<Rightarrow> byte list"

record ('l, 'a, 'u) source_world =
  sw_service :: "('l, 'a, 'u) service"
  sw_up :: nat
  sw_down :: nat

definition source_next :: "('k, 'l, 'i, 'ty, 'v, 'a, 'u) source \<Rightarrow> ('k, 'ty, 'v) client \<Rightarrow>
    ('l, 'a, 'u) source_world \<Rightarrow> (('ty, 'v) client_event \<times> ('l, 'a, 'u) source_world) option" where
  "source_next B s w =
     (let out = so_out B (mySocket (myTransport s)); up = drop (sw_up w) out; n = length (myBuffer (myTransport s))
      in case service_pump (so_scfg B) (so_dict B) (so_peer B) up (sw_service w) of
           Exn e S \<Rightarrow> Some (ReceiveError server_gone, w\<lparr>sw_service := S\<rparr>)
         | Ret rest S1 \<Rightarrow>
             (case (if length rest < length up then so_tick B S1 else Ret () S1) of
                Exn e S \<Rightarrow> Some (ReceiveError server_gone, w\<lparr>sw_service := S\<rparr>)
              | Ret _ S \<Rightarrow>
                  let down = drop (sw_down w) (so_sout B (mySocket (svTransports S (so_peer B))))
                  in if 0 < n \<and> n \<le> length down
                     then Some (Received (take n down),
                       w\<lparr>sw_service := S, sw_up := length out - length rest, sw_down := sw_down w + n\<rparr>)
                     else None))"

definition source_ok :: "('k, 'l, 'i, 'ty, 'v, 'a, 'u) source \<Rightarrow> bool" where
  "source_ok B \<longleftrightarrow>
     sc_arch (so_scfg B) = cf_archive (so_cfg B) \<and> sc_endian (so_scfg B) = cf_endian (so_cfg B) \<and>
     sc_interface (so_scfg B) = cf_interface (so_cfg B) \<and> archive_ok (cf_archive (so_cfg B)) (so_type B) \<and>
     lossless (cf_io (so_cfg B)) (so_out B) \<and> lossless (sc_io (so_scfg B)) (so_sout B)"

abbreviation trigger_body :: "('k, 'l, 'i, 'ty, 'v, 'a, 'u) source \<Rightarrow> bool \<Rightarrow> 'v \<Rightarrow> byte list" where
  "trigger_body B ar v \<equiv> call_body (cf_archive (so_cfg B)) ar (full_name (so_cfg B) (so_function B)) [v]"

abbreviation echo_body :: "('k, 'l, 'i, 'ty, 'v, 'a, 'u) source \<Rightarrow> bool \<Rightarrow> 'v \<Rightarrow> byte list" where
  "echo_body B ar v \<equiv> event_body (cf_archive (so_cfg B)) ar (myBroadcastFuncName (so_cfg B)) (so_echo B v)"

text \<open>
  The one-way function takes the event and sets the timer, whose handler broadcasts the echo; the
  messages have legal sizes.
\<close>

definition echoes :: "('k, 'l, 'i, 'ty, 'v, 'a, 'u) source \<Rightarrow> 'v \<Rightarrow> bool" where
  "echoes B v \<longleftrightarrow>
     (\<exists>e. so_dict B (full_name (so_cfg B) (so_function B)) = Some e \<and> de_one_way e \<and> de_args e = [so_type B v] \<and>
        (\<forall>S. \<exists>u. de_func e [v] None S = Ret () (S\<lparr>svUser := u\<rparr>) \<and>
           (\<forall>S1. svUser S1 = u \<longrightarrow> so_tick B S1 = broadcast (so_scfg B) (so_echo B v) S1))) \<and>
     (\<exists>poly. cf_event (so_cfg B) = Some (so_type B (so_echo B v), poly)) \<and>
     (\<forall>ar. body_ok (trigger_body B ar v) \<and> body_ok (echo_body B ar v))"

section \<open>Listening\<close>

text \<open>Client and service at rest, and after the client has asked for an event.\<close>

definition connected_source :: "('k, 'l, 'i, 'ty, 'v, 'a, 'u) source \<Rightarrow> nat list \<Rightarrow> ('k, 'ty, 'v) client \<Rightarrow>
    ('l, 'a, 'u) source_world \<Rightarrow> byte list \<Rightarrow> bool" where
  "connected_source B ls s w up \<longleftrightarrow>
     (let S = sw_service w; p = so_peer B; out = so_out B (mySocket (myTransport s))
      in client_ready s \<and> can_receive s \<and> at_header s \<and> myEventListeners s = ls \<and> service_inv S \<and>
         (\<exists>cs. map_of (myClients S) p = Some cs \<and> cs_archives cs = myArchives s) \<and>
         service_at_header p S \<and> sw_up w \<le> length out \<and> drop (sw_up w) out = up \<and>
         sw_down w = length (so_sout B (mySocket (svTransports S p))))"

lemma source_triggered:
  assumes "source_ok B" and "connected_source B ls s w []" and "echoes B v"
  shows "\<exists>s'. send_call_one_way (so_cfg B) (so_function B) [v] s = Ret () s' \<and> callbacks s' = callbacks s \<and>
    myArchives s' = myArchives s \<and>
    connected_source B ls s' w (frame (cf_endian (so_cfg B)) (trigger_body B (myArchives s) v))"
proof -
  let ?cfg = "so_cfg B" and ?fn = "full_name (so_cfg B) (so_function B)"
  let ?m = "serialize_call (cf_archive ?cfg) (myArchives s) ?fn [v]" and ?b = "trigger_body B (myArchives s) v"
  note con = assms(2) [unfolded connected_source_def Let_def]
  have arch: "archive_ok (cf_archive ?cfg) (so_type B)" and io: "lossless (cf_io ?cfg) (so_out B)"
    using assms(1) by (simp_all add: source_ok_def)
  have "body_ok ?b"
    using assms(3) by (simp add: echoes_def)
  from body_frames(3) [OF arch this] have msg: "message_with_header (cf_endian ?cfg) ?m = Inr (frame (cf_endian ?cfg) ?b)" .
  have writes: "write_succeeds ?cfg ?m s"
    using msg lossless_write(1) [OF io] by (simp add: write_succeeds_def)
  have "send_call_one_way ?cfg (so_function B) [v] s = Ret () (after_write ?cfg ?m s)"
    using con prepare_ready [of s ?cfg "so_function B" "[v]"] client_write_ok [OF _ writes]
    by (simp add: send_call_one_way_def client_ready_def)
  moreover have "so_out B (mySocket (myTransport (after_write ?cfg ?m s))) =
      so_out B (mySocket (myTransport s)) @ frame (cf_endian ?cfg) ?b"
    using msg lossless_write(2) [OF io] by (simp add: after_write_def)
  ultimately show ?thesis
    using con by (intro exI [of _ "after_write ?cfg ?m s"])
      (simp add: connected_source_def Let_def can_receive_def at_header_def)
qed

text \<open>The service reads the call, and its timer elapses.\<close>

lemma source_publishes:
  assumes "source_ok B" and "echoes B v"
    and "connected_source B ls s w (frame (cf_endian (so_cfg B)) (trigger_body B (myArchives s) v))"
  obtains S1 S2 cs where "service_pump (so_scfg B) (so_dict B) (so_peer B)
      (drop (sw_up w) (so_out B (mySocket (myTransport s)))) (sw_service w) = Ret [] S1"
    and "so_tick B S1 = Ret () S2" and "service_inv S2" and "service_at_header (so_peer B) S2"
    and "map_of (myClients S2) (so_peer B) = Some cs" and "cs_archives cs = myArchives s"
    and "so_sout B (mySocket (svTransports S2 (so_peer B))) = so_sout B (mySocket (svTransports (sw_service w) (so_peer B))) @
      frame (cf_endian (so_cfg B)) (echo_body B (myArchives s) v)"
proof -
  let ?cfg = "so_cfg B" and ?scfg = "so_scfg B" and ?p = "so_peer B" and ?S = "sw_service w"
  let ?fn = "full_name ?cfg (so_function B)" and ?ar = "myArchives s"
  let ?b = "trigger_body B ?ar v" and ?ev = "so_echo B v" and ?eb = "echo_body B (myArchives s) v"
  note con = assms(3) [unfolded connected_source_def Let_def] and ok = assms(1) [unfolded source_ok_def]
  obtain cs where cs: "map_of (myClients ?S) ?p = Some cs" "cs_archives cs = ?ar"
    using con by blast
  have bodies: "body_ok ?b" "\<And>ar. body_ok (echo_body B ar v)"
    using assms(2) by (simp_all add: echoes_def)
  obtain e where e: "so_dict B ?fn = Some e" "de_one_way e" "de_args e = [so_type B v]"
      "\<And>S. \<exists>u. de_func e [v] None S = Ret () (S\<lparr>svUser := u\<rparr>) \<and>
         (\<forall>S1. svUser S1 = u \<longrightarrow> so_tick B S1 = broadcast ?scfg ?ev S1)"
    using assms(2) unfolding echoes_def by blast
  let ?R = "peer_received ?scfg ?p ?b ?S"
  obtain u where u: "de_func e [v] None ?R = Ret () (?R\<lparr>svUser := u\<rparr>)"
      "\<And>S1. svUser S1 = u \<Longrightarrow> so_tick B S1 = broadcast ?scfg ?ev S1"
    using e(4) by blast
  have arch: "archive_ok (sc_arch ?scfg) (so_type B)"
    using ok by simp
  have handled: "service_message_handler ?scfg (so_dict B) ?p ?b ?R = Ret () (?R\<lparr>svUser := u\<rparr>)"
    using service_handler_calls [OF arch, of ?R ?p "cs\<lparr>cs_messenger := msg_state MESSAGE ?b\<rparr>" "so_dict B" ?fn e "[v]"]
      cs e(1-3) u(1) ok by (simp add: call_body_def)
  define S1 where "S1 = store_messenger ?p (msg_state HEADER ?b)
      (?R\<lparr>svUser := u, svTransports := (svTransports ?R)(?p := tr_read (sc_io ?scfg) HEADER_SIZE (svTransports ?R ?p))\<rparr>)"
  have inv: "service_inv ?S" and header: "service_at_header ?p ?S"
    using con by blast+
  have pump: "service_pump ?scfg (so_dict B) ?p (frame (cf_endian ?cfg) ?b) ?S = Ret [] S1"
    using service_pump_frame [OF inv cs(1) header bodies(1) handled] ok cs(1) by (simp add: S1_def in_keys_map_of)
  have inv1: "service_inv S1"
    using service_inv_store [OF service_inv_transport [of "?R\<lparr>svUser := u\<rparr>"
        "tr_read (sc_io ?scfg) HEADER_SIZE (svTransports ?R ?p)" ?p]] inv
    by (simp add: S1_def peer_received_inv)
  have cs1: "map_of (myClients S1) ?p = Some (cs\<lparr>cs_messenger := msg_state HEADER ?b\<rparr>)"
    using cs(1) by (simp add: S1_def)
  have header1: "service_at_header ?p S1"
    using cs1 by (simp add: service_at_header_def msg_state_def) (simp add: S1_def)
  have sout1: "so_sout B (mySocket (svTransports S1 ?p)) = so_sout B (mySocket (svTransports ?S ?p))"
    using ok lossless_read [of "sc_io ?scfg" "so_sout B"] by (simp add: S1_def tr_read_def peer_received_def)
  have msg: "message_with_header (sc_endian ?scfg) (event_message ?scfg cs' ?ev) =
      Inr (frame (cf_endian ?cfg) (echo_body B (cs_archives cs') v))" for cs'
    using bodies(2) [of "cs_archives cs'"] ok archive_ok_nonempty [OF arch]
    by (simp add: event_body_def serialize_defs message_with_header_reserved body_ok_def bcastFuncName_def
        myBroadcastFuncName_def)
  have io: "lossless (sc_io ?scfg) (so_sout B)"
    using ok by blast
  have "\<forall>(q, cs') \<in> set (myClients S1). peer_writes ?scfg q (event_message ?scfg cs' ?ev) S1"
    using inv1 lossless_write(1) [OF io] by (force simp: peer_writes_def msg service_inv_def client_open_at_def in_keys_def)
  note sent = broadcast_writes [OF inv1 this]
  define S2 where "S2 = everybody_written ?scfg ?ev (myClients S1) S1"
  have "svUser S1 = u"
    by (simp add: S1_def)
  then have tick: "so_tick B S1 = Ret () S2"
    using u(2) sent(1) by (simp add: S2_def)
  have at: "svTransports S2 ?p = svTransports (peer_written ?scfg ?p (event_message ?scfg
      (cs\<lparr>cs_messenger := msg_state HEADER ?b\<rparr>) ?ev) S1) ?p"
    using sent(2) [of ?p] cs1 by (simp add: S2_def)
  show thesis
  proof (rule that)
    show "service_pump ?scfg (so_dict B) ?p (drop (sw_up w) (so_out B (mySocket (myTransport s)))) ?S = Ret [] S1"
      using con pump by simp
    show "so_tick B S1 = Ret () S2" by (rule tick)
    show "service_inv S2"
      using inv1 by (simp add: S2_def everybody_written_inv)
    show "service_at_header ?p S2"
      using header1 at by (simp add: service_at_header_def S2_def peer_written_def msg)
    show "map_of (myClients S2) ?p = Some (cs\<lparr>cs_messenger := msg_state HEADER ?b\<rparr>)"
      using cs1 by (simp add: S2_def)
    show "so_sout B (mySocket (svTransports S2 ?p)) = so_sout B (mySocket (svTransports ?S ?p)) @ frame (cf_endian ?cfg) ?eb"
      using at sout1 lossless_write(2) [OF io] by (simp add: peer_written_def msg [of cs, unfolded cs(2)] cs(2))
  qed (simp add: cs(2))
qed

section \<open>An event arrives\<close>

lemma event_told:
  assumes "archive_ok (cf_archive cfg) tyof" and "cf_event cfg = Some (tyof ev, poly)" and "myEventListeners s = [l]"
  shows "message_handler passive_user cfg (event_body (cf_archive cfg) (myArchives s) (myBroadcastFuncName cfg) ev) s =
    Ret () (s\<lparr>callbacks := callbacks s @ [OnEvent l (Some ev)]\<rparr>)"
  using event_items [OF assms(1), of "myArchives s" "myBroadcastFuncName cfg" ev] assms(2,3)
  by (auto simp: event_body_def message_handler_def dispatch_event_def notify_listeners_passive
      simp del: notify_listeners.simps)

text \<open>Two handlers of the event loop bring the event to the listener.\<close>

lemma source_answers:
  assumes "source_ok B" and "echoes B v"
    and "connected_source B [l] s w (frame (cf_endian (so_cfg B)) (trigger_body B (myArchives s) v))"
  obtains h w1 s1 b w2 s2 where "source_next B s w = Some (Received h, w1)"
    and "client_receive passive_user (so_cfg B) h s = Ret () s1" and "callbacks s1 = callbacks s"
    and "source_next B s1 w1 = Some (Received b, w2)"
    and "client_receive passive_user (so_cfg B) b s1 = Ret () s2"
    and "callbacks s2 = callbacks s @ [OnEvent l (Some (so_echo B v))]"
    and "connected_source B [l] s2 w2 []"
proof -
  let ?cfg = "so_cfg B" and ?p = "so_peer B" and ?S = "sw_service w" and ?en = "cf_endian (so_cfg B)"
  let ?out = "so_out B (mySocket (myTransport s))" and ?b = "echo_body B (myArchives s) v"
  note con = assms(3) [unfolded connected_source_def Let_def]
  have io: "lossless (cf_io ?cfg) (so_out B)" and arch: "archive_ok (cf_archive ?cfg) (so_type B)"
    using assms(1) by (simp_all add: source_ok_def)
  have bok: "body_ok ?b"
    using assms(2) by (simp add: echoes_def)
  obtain poly where event: "cf_event ?cfg = Some (so_type B (so_echo B v), poly)"
    using assms(2) by (auto simp: echoes_def)
  obtain S1 S2 cs where S: "service_pump (so_scfg B) (so_dict B) ?p (drop (sw_up w) ?out) ?S = Ret [] S1"
      "so_tick B S1 = Ret () S2" "service_inv S2" "service_at_header ?p S2" "map_of (myClients S2) ?p = Some cs"
      "cs_archives cs = myArchives s"
      "so_sout B (mySocket (svTransports S2 ?p)) = so_sout B (mySocket (svTransports ?S ?p)) @ frame ?en ?b"
    by (rule source_publishes [OF assms])
  let ?h = "store_u32 ?en (word_of_nat (length ?b))" and ?s1 = "header_received ?cfg ?b s"
  let ?w1 = "w\<lparr>sw_service := S2, sw_up := length ?out, sw_down := sw_down w + HEADER_SIZE\<rparr>"
  let ?w2 = "?w1\<lparr>sw_down := sw_down w + HEADER_SIZE + length ?b\<rparr>"
  have head: "at_header s" "can_receive s" and up: "drop (sw_up w) ?out = frame ?en (trigger_body B (myArchives s) v)"
      and down: "sw_down w = length (so_sout B (mySocket (svTransports ?S ?p)))"
    using con by blast+
  have "0 < length (drop (sw_up w) ?out)"
    unfolding up by (simp add: frame_def)
  then have step1: "source_next B s w = Some (Received ?h, ?w1)"
    using S(1,2,7) down head(1) by (simp add: source_next_def Let_def at_header_def frame_def HEADER_SIZE_def)
  have rec1: "client_receive passive_user ?cfg ?h s = Ret () ?s1"
    by (rule client_receive_header [OF head(2,1) bok])
  have step2: "source_next B ?s1 ?w1 = Some (Received ?b, ?w2)"
    using S(7) down bok lossless_read [OF io]
    by (simp add: source_next_def Let_def frame_def HEADER_SIZE_def tr_read_def body_ok_def)
  let ?r = "body_received ?cfg ?b s"
  have "message_handler passive_user ?cfg ?b ?r = Ret () (?r\<lparr>callbacks := callbacks s @ [OnEvent l (Some (so_echo B v))]\<rparr>)"
    using event_told [OF arch event, of ?r l] con by (simp add: body_received_def)
  then obtain s2 where s2: "receive_message passive_user ?cfg ?b s = Ret () s2"
      "s2 = ?r\<lparr>callbacks := callbacks s @ [OnEvent l (Some (so_echo B v))],
        myTransport := tr_read (cf_io ?cfg) HEADER_SIZE (myTransport ?r), myMessenger := msg_state HEADER ?b\<rparr>"
    by (simp add: receive_message_def)
  have rec2: "client_receive passive_user ?cfg ?b ?s1 = Ret () s2"
    using client_receive_frame [OF head(2) bok, of passive_user ?cfg] s2(1) by simp
  have fields: "client_ready s2" "can_receive s2" "myEventListeners s2 = [l]" "myArchives s2 = myArchives s"
      "so_out B (mySocket (myTransport s2)) = ?out" "callbacks s2 = callbacks s @ [OnEvent l (Some (so_echo B v))]"
    using con lossless_read [OF io]
    by (simp_all add: s2(2) client_ready_def can_receive_def tr_is_open_def tr_read_def body_received_def)
  have rest: "connected_source B [l] s2 ?w2 []"
    using S(3-7) down fields receive_message_at_header [OF s2(1)]
    by (simp add: connected_source_def Let_def frame_def HEADER_SIZE_def)
  show thesis
    by (rule that [OF step1 rec1 _ step2 rec2 fields(6) rest]) simp
qed

section \<open>Tests of events\<close>

type_synonym ('k, 'e, 'w) event_test = "('k, event_type, event_value, 'e event_listener \<times> 'w) test"

definition on_source :: "('k, 'l, 'i, event_type, event_value, 'a, 'u) source \<Rightarrow>
    ('k, 'i, 'e, ('l, 'a, 'u) source_world) event_env \<Rightarrow> bool" where
  "on_source B E \<longleftrightarrow> te_cfg E = so_cfg B \<and> so_function B = ''trigger_single_broadcast'' \<and>
     te_next E = (\<lambda>s (l, w). map_option (\<lambda>(ev, w1). (ev, l, w1)) (source_next B s w))"

text \<open>The state of a test with its listener and failures: at rest, and after an event was asked for.\<close>

definition tuned :: "('k, 'l, 'i, event_type, event_value, 'a, 'u) source \<Rightarrow> nat list \<Rightarrow> 'e event_listener \<Rightarrow> nat \<Rightarrow>
    ('k, 'e, ('l, 'a, 'u) source_world) event_test \<Rightarrow> bool" where
  "tuned B ls l k t \<longleftrightarrow> connected_source B ls (myClient t) (snd (myWorld t)) [] \<and> the_listener t = l \<and> testFailures t = k"

definition asked :: "('k, 'l, 'i, event_type, event_value, 'a, 'u) source \<Rightarrow> event_value \<Rightarrow> nat list \<Rightarrow> 'e event_listener \<Rightarrow>
    nat \<Rightarrow> ('k, 'e, ('l, 'a, 'u) source_world) event_test \<Rightarrow> bool" where
  "asked B v ls l k t \<longleftrightarrow> connected_source B ls (myClient t) (snd (myWorld t))
     (frame (cf_endian (so_cfg B)) (trigger_body B (myArchives (myClient t)) v)) \<and> the_listener t = l \<and> testFailures t = k"

lemma tuned_failures: "tuned B ls l k t \<Longrightarrow> testFailures t = k"
  by (simp add: tuned_def)

lemma triple_listen: "triple (tuned B [] l k) (listen C 1) (tuned B [1] l k)"
  by (auto simp: triple_def tuned_def listen_def on_client_def add_listener_def settle_same connected_source_def Let_def
      client_ready_def can_receive_def at_header_def)

lemma triple_reset: "triple (tuned B ls l k) (reset_listener f) (tuned B ls (f l) k)"
  by (auto simp: triple_def tuned_def reset_listener_def upd_listener_def apfst_def map_prod_def split: prod.split)

lemma triple_check: "f l = Ret True () \<Longrightarrow> triple (tuned B ls l k) (check_listener f) (tuned B ls l k)"
  by (auto simp: triple_def tuned_def check_listener_def expect_def)

lemma triple_ask:
  assumes "source_ok B" and "on_source B E" and "echoes B v"
  shows "triple (tuned B ls l k) (trigger E C v) (asked B v ls l k)"
  unfolding triple_def
proof (intro allI impI)
  fix t
  assume t: "tuned B ls l k t"
  then obtain s' where "send_call_one_way (so_cfg B) (so_function B) [v] (myClient t) = Ret () s'"
      "callbacks s' = callbacks (myClient t)" "myArchives s' = myArchives (myClient t)"
      "connected_source B ls s' (snd (myWorld t)) (frame (cf_endian (so_cfg B)) (trigger_body B (myArchives (myClient t)) v))"
    using source_triggered [OF assms(1) _ assms(3)] unfolding tuned_def by blast
  then show "\<exists>t'. trigger E C v t = Some (Ret () t') \<and> asked B v ls l k t'"
    using t assms(2) by (simp add: trigger_def on_client_def on_source_def event_client_trigger_def settle_same
        tuned_def asked_def)
qed

lemma triple_told:
  fixes B :: "('k, 'l, 'i, event_type, event_value, 'a, 'u) source"
    and C :: "('k, 'e, ('l, 'a, 'u) source_world) event_closures"
  assumes "source_ok B" and "on_source B E" and "echoes B v" and "2 \<le> m" and "\<not> gotEvent l" and "gotEvent (f l)"
    and closure: "\<And>t. C (OnEvent 1 (Some (so_echo B v))) t = upd_listener f t"
  shows "triple (asked B v [1] l k) (expect_event E C m) (tuned B [1] (f l) k)"
  unfolding triple_def
proof (intro allI impI)
  fix t :: "('k, 'e, ('l, 'a, 'u) source_world) event_test"
  assume t: "asked B v [1] l k t"
  have con: "connected_source B [1] (myClient t) (snd (myWorld t))
      (frame (cf_endian (so_cfg B)) (trigger_body B (myArchives (myClient t)) v))"
    using t by (simp add: asked_def)
  obtain h w1 s1 b w2 s2 where steps: "source_next B (myClient t) (snd (myWorld t)) = Some (Received h, w1)"
      "client_receive passive_user (so_cfg B) h (myClient t) = Ret () s1" "callbacks s1 = callbacks (myClient t)"
      "source_next B s1 w1 = Some (Received b, w2)" "client_receive passive_user (so_cfg B) b s1 = Ret () s2"
      "callbacks s2 = callbacks (myClient t) @ [OnEvent 1 (Some (so_echo B v))]" "connected_source B [1] s2 w2 []"
    by (rule source_answers [OF assms(1,3) con])
  let ?t1 = "t\<lparr>myWorld := (l, w1), myClient := s1\<rparr>"
  let ?t2 = "t\<lparr>myWorld := (f l, w2), myClient := s2\<rparr>"
  have E: "te_cfg E = so_cfg B" "te_next E s (l', w) = map_option (\<lambda>(ev, w1). (ev, l', w1)) (source_next B s w)" for s l' w
    using assms(2) by (simp_all add: on_source_def)
  have world: "myWorld t = (l, snd (myWorld t))"
    using t by (simp add: asked_def prod_eq_iff)
  have "run_one E C t = Some (Ret () ?t1)"
    using steps(1-3) by (subst run_one_def, subst world) (simp add: E on_client_def client_step_def settle_same)
  moreover have "settle C s2 (?t1\<lparr>myWorld := (l, w2)\<rparr>) = ?t2"
    using steps(3,6) closure by (simp add: settle_one upd_listener_def)
  then have "run_one E C ?t1 = Some (Ret () ?t2)"
    using steps(4,5) by (simp add: run_one_def E on_client_def client_step_def)
  ultimately have "process_io_events (run_one E C) (\<lambda>t. gotEvent (the_listener t)) m t = Some (Ret True ?t2)"
    by (rule process_two_events) (use t assms(4-6) in \<open>simp_all add: asked_def\<close>)
  then show "\<exists>t'. expect_event E C m t = Some (Ret () t') \<and> tuned B [1] (f l) k t'"
    using t steps(7) by (simp add: expect_event_def then_do_def EXPECT_def expect_def tuned_def asked_def)
qed

end
