(* ===== verification/Sample_Events.thy ===== *)
theory Sample_Events
  imports Sample_Bench Event_Bench
begin

text \<open>
  An archive for the events of the event sources, for the theorems that say hypotheses can be met:
  an event starts with a byte for its class, its map is a list of pairs.
\<close>

primrec put_simple :: "simple_event \<Rightarrow> byte" where
  "put_simple NO_EVENT = 0"
| "put_simple EVENT_ONE = 1"
| "put_simple EVENT_TWO = 2"
| "put_simple EVENT_THREE = 3"

definition take_simple :: "byte \<Rightarrow> simple_event" where
  "take_simple b = (if b = 0 then NO_EVENT else if b = 1 then EVENT_ONE else if b = 2 then EVENT_TWO else EVENT_THREE)"

lemma take_put_simple: "take_simple (put_simple e) = e"
  by (cases e) (simp_all add: take_simple_def)

definition put_entry :: "string \<times> cint \<Rightarrow> byte list" where
  "put_entry x = put_string (fst x) @ u32_bytes (snd x)"

definition take_entry :: "byte list \<Rightarrow> ((string \<times> cint) \<times> byte list) option" where
  "take_entry bs = Option.bind (take_string bs) (\<lambda>(s, r). map_option (apfst (Pair s)) (take_u32 r))"

lemma take_put_entry: "take_entry (put_entry x @ r) = Some (x, r)"
  by (simp add: take_entry_def put_entry_def take_put_string take_put_u32)

fun put_poly :: "poly_event option \<Rightarrow> byte list" where
  "put_poly None = [4]"
| "put_poly (Some EventBase) = [0]"
| "put_poly (Some (RealEventClassOne s)) = 1 # put_string s"
| "put_poly (Some (RealEventClassTwo n)) = 2 # u32_bytes n"
| "put_poly (Some (RealEventClassThree n m)) = 3 # u32_bytes n @ put_list put_entry m"

definition take_poly :: "byte list \<Rightarrow> (poly_event option \<times> byte list) option" where
  "take_poly bs =
     (case bs of
        [] \<Rightarrow> None
      | b # r \<Rightarrow>
          if b = 0 then Some (Some EventBase, r)
          else if b = 1 then map_option (apfst (\<lambda>s. Some (RealEventClassOne s))) (take_string r)
          else if b = 2 then map_option (apfst (\<lambda>n. Some (RealEventClassTwo n))) (take_u32 r)
          else if b = 3 then Option.bind (take_u32 r) (\<lambda>(n, r1).
            map_option (apfst (\<lambda>m. Some (RealEventClassThree n m))) (take_all take_entry r1))
          else Some (None, r))"

lemma take_put_poly: "take_poly (put_poly e @ r) = Some (e, r)"
  by (cases e rule: put_poly.cases)
     (simp_all add: take_poly_def take_put_string take_put_u32 take_all_put take_put_entry)

primrec put_event :: "event_value \<Rightarrow> byte list" where
  "put_event (VSimple e) = [put_simple e]"
| "put_event (VPoly e) = put_poly e"

primrec take_event :: "event_type \<Rightarrow> byte list \<Rightarrow> (event_value \<times> byte list) option" where
  "take_event TSimple bs = (case bs of [] \<Rightarrow> None | b # r \<Rightarrow> Some (VSimple (take_simple b), r))"
| "take_event TPoly bs = map_option (apfst VPoly) (take_poly bs)"

fun event_type_of :: "event_value \<Rightarrow> event_type" where
  "event_type_of (VSimple e) = TSimple"
| "event_type_of (VPoly e) = TPoly"

lemma take_put_event: "take_event (event_type_of v) (put_event v @ r) = Some (v, r)"
  by (cases v) (simp_all add: take_put_simple take_put_poly)

primrec put_event_item :: "event_value item \<Rightarrow> byte list" where
  "put_event_item (IString s) = put_string s"
| "put_event_item (IInt n) = u32_bytes n"
| "put_event_item (IValue v) = put_event v"

definition event_archive :: "(byte list, event_type, event_value) archive" where
  "event_archive =
     \<lparr>ar_write = (\<lambda>_ xs. concat (map put_event_item xs)), ar_open = (\<lambda>_ bs. Some bs),
      get_string = take_string, get_int = take_u32, get_value = take_event,
      value_init = (\<lambda>_. VSimple NO_EVENT)\<rparr>"

lemma put_event_nonempty [simp]: "put_event v \<noteq> []"
proof -
  have "put_poly e \<noteq> []" for e
    by (cases e rule: put_poly.cases) simp_all
  then show ?thesis
    by (cases v) simp_all
qed

lemma reads_event: "reads event_archive event_type_of (concat (map put_event_item xs)) xs"
proof (induction xs)
  case (Cons x xs)
  then show ?case
    by (cases x) (auto simp: event_archive_def take_put_string take_put_u32 take_put_event)
qed simp

lemma event_archive_ok: "archive_ok event_archive event_type_of"
proof -
  have "concat (map put_event_item xs) \<noteq> []" if "xs \<noteq> []" for xs
  proof -
    have "put_event_item x \<noteq> []" for x
      by (cases x) (simp_all add: u32_bytes_def)
    then show ?thesis using that by auto
  qed
  moreover have "ar_write event_archive b xs = concat (map put_event_item xs)"
    "ar_open event_archive b bs = Some bs" for b xs bs
    by (simp_all add: event_archive_def)
  ultimately show ?thesis
    using reads_event by (simp add: archive_ok_def)
qed

section \<open>Sources and their clients\<close>

definition event_cfg :: "event_type \<times> bool \<Rightarrow> (sample_socket, byte list, event_type, event_value) client_cfg" where
  "event_cfg ev =
     \<lparr>cf_io = steady_io, cf_archive = event_archive, cf_reusable = True, cf_endian = LittleEndian,
      cf_interface = ''EventSource'', cf_event = Some ev, cf_max_calls = 3,
      cf_host = ''127.0.0.1'', cf_service = ''56789''\<rparr>"

definition event_service_cfg ::
  "(sample_socket, byte list, event_type, event_value, sample_acceptor) service_cfg" where
  "event_service_cfg =
     \<lparr>sc_io = steady_io, sc_accept = sample_accept_io, sc_arch = event_archive,
      sc_reusable = True, sc_endian = LittleEndian, sc_interface = ''EventSource'',
      sc_what = (\<lambda>e. [])\<rparr>"

definition event_client_state :: "(sample_socket, event_type, event_value) client" where
  "event_client_state =
     \<lparr>myTransport = sample_peer False, myArchives = True, myMessenger = new_messenger,
      myCallQueue = empty_queue, myClosures = [], myEventListeners = [], myThreadId = 1,
      runningThread = 1, callbacks = []\<rparr>"

text \<open>A service with two clients, the second of which only listens.\<close>

definition event_state :: "'u \<Rightarrow> (sample_socket, sample_acceptor, 'u) service" where
  "event_state u =
     \<lparr>svTransports = (\<lambda>_. sample_peer False),
      myClients = [(1, \<lparr>cs_messenger = new_messenger, cs_archives = True\<rparr>),
                   (2, \<lparr>cs_messenger = new_messenger, cs_archives = True\<rparr>)],
      myPendingCalls = [],
      myAcceptor = \<lparr>ac_socket = \<lparr>listening = True, port_taken = False, accepting = 1\<rparr>,
        ac_listener = True, ac_alive = True\<rparr>,
      svThreadId = 1, svRunningThread = 1, svUser = u\<rparr>"

definition event_timers :: "nat timer_lib" where
  "event_timers = \<lparr>tm_new = (\<lambda>_. 0), tm_expiry = (\<lambda>_. 0), tm_expires_at = (\<lambda>_ _. 0),
     tm_expires_from_now = (\<lambda>_ _. 0), tm_async_wait = Suc, tm_cancel = (\<lambda>_. 0)\<rparr>"

definition event_env_of :: "('k, 'l, 'i, event_type, event_value, 'a, 'u) source \<Rightarrow> 'k \<Rightarrow>
    ('k, 'i, 'e, ('l, 'a, 'u) source_world) event_env" where
  "event_env_of B k =
     \<lparr>te_cfg = so_cfg B, te_thread = 1, te_sockets = (\<lambda>_ _. k), te_program = \<lparr>myName = [], myPath = []\<rparr>,
      te_posix = \<lparr>px_fork = (\<lambda>w. (1, w)), px_execv = (\<lambda>_ _ w. w), px_kill = (\<lambda>_ _ w. (0, w)),
        px_waitpid = (\<lambda>_ w. ((1, Exited 0), w)), px_strerror = (\<lambda>w. []), px_sleep = (\<lambda>_ w. w)\<rparr>,
      te_seconds = (\<lambda>w. 0), te_next = (\<lambda>s (l, w). map_option (\<lambda>(ev, w1). (ev, l, w1)) (source_next B s w))\<rparr>"

definition event_test_of :: "'e \<Rightarrow> 'u \<Rightarrow>
    (sample_socket, 'e, (sample_socket, sample_acceptor, 'u) source_world) event_test" where
  "event_test_of e u =
     \<lparr>myClient = event_client_state, myServerProc = new_process,
      myWorld = (\<lparr>receivedEvent = e, gotEvent = False\<rparr>, \<lparr>sw_service = event_state u, sw_up = 0, sw_down = 0\<rparr>),
      testFlags = (\<lambda>_. False), testFailures = 0\<rparr>"

lemma event_connected:
  "so_peer B = 1 \<Longrightarrow> so_out B = sent \<Longrightarrow> so_sout B = sent \<Longrightarrow>
     connected_source B [] (myClient (event_test_of e u)) (snd (myWorld (event_test_of e u))) []"
  "\<not> gotEvent (the_listener (event_test_of e u))"
  by (auto simp: connected_source_def Let_def event_test_of_def event_client_state_def event_state_def sample_peer_def
      client_ready_def can_receive_def at_header_def tr_is_open_def new_messenger_def HEADER_SIZE_def service_inv_def
      client_open_at_def service_at_header_def)

lemma event_bodies:
  "length (call_body event_archive ar fn [v]) = 2 * length fn + 1 + length (put_event v)"
  "length (event_body event_archive ar fn v) = 2 * length fn + 1 + length (put_event v)"
  by (simp_all add: call_body_def event_body_def serialize_defs event_archive_def)

end
