(* ===== verification/Event_Tests_Spec.thy ===== *)
theory Event_Tests_Spec
  imports Sample_Events
begin

text \<open>
  The tests of \<open>eventstest.cpp\<close> pass: whatever the archives and sockets, as long as they do what
  they promise, and whatever other clients the event source has.
\<close>

section \<open>The two event sources\<close>

text \<open>What the constructors of the services register.\<close>

definition source_dict :: "('l, 'i, event_type, event_value, 'a) service_cfg \<Rightarrow> event_type \<Rightarrow>
    (event_value, ('l, 'a, 'u) service) service_function \<Rightarrow> ('l, event_type, event_value, 'a, 'u) service_dict" where
  "source_dict cfg ty f = [make_fully_qualified_name cfg ''trigger_single_broadcast'' \<mapsto>
     \<lparr>de_func = f, de_args = [ty], de_result = None, de_one_way = True\<rparr>]"

lemma sources_register:
  assumes "svRunningThread S = svThreadId S"
  shows "simple_register cfg T S = Some (Ret (source_dict cfg TSimple (simple_trigger T)) S)"
  and "svRunningThread S' = svThreadId S' \<Longrightarrow>
    poly_register cfg T S' = Some (Ret (source_dict cfg TPoly (poly_trigger T)) S')"
  using assms by (simp_all add: simple_register_def poly_register_def service_check_thread_def source_dict_def
      add_function_def result_type_traits_def)

definition simple_source :: "('k, 'i, event_type, event_value) client_cfg \<Rightarrow>
    ('l, 'i, event_type, event_value, 'a) service_cfg \<Rightarrow> 't timer_lib \<Rightarrow> error_code \<Rightarrow> nat \<Rightarrow> ('k \<Rightarrow> byte list) \<Rightarrow>
    ('l \<Rightarrow> byte list) \<Rightarrow> ('k, 'l, 'i, event_type, event_value, 'a, 't simple_data) source" where
  "simple_source cfg scfg T ec p out sout =
     \<lparr>so_cfg = cfg, so_scfg = scfg, so_dict = source_dict scfg TSimple (simple_trigger T),
      so_tick = simple_tickTimer scfg ec, so_function = ''trigger_single_broadcast'', so_echo = (\<lambda>v. v),
      so_type = event_type_of, so_peer = p, so_out = out, so_sout = sout\<rparr>"

fun poly_echo :: "cint \<Rightarrow> event_value \<Rightarrow> event_value" where
  "poly_echo g (VPoly (Some (RealEventClassThree d m))) = VPoly (Some (new_event_three g m))"
| "poly_echo g v = v"

definition poly_source :: "('k, 'i, event_type, event_value) client_cfg \<Rightarrow>
    ('l, 'i, event_type, event_value, 'a) service_cfg \<Rightarrow> 't timer_lib \<Rightarrow> cint \<Rightarrow> error_code \<Rightarrow> nat \<Rightarrow>
    ('k \<Rightarrow> byte list) \<Rightarrow> ('l \<Rightarrow> byte list) \<Rightarrow> ('k, 'l, 'i, event_type, event_value, 'a, 't poly_data) source" where
  "poly_source cfg scfg T g ec p out sout =
     \<lparr>so_cfg = cfg, so_scfg = scfg, so_dict = source_dict scfg TPoly (poly_trigger T),
      so_tick = poly_tickTimer scfg g ec, so_function = ''trigger_single_broadcast'', so_echo = poly_echo g,
      so_type = event_type_of, so_peer = p, so_out = out, so_sout = sout\<rparr>"

definition event_fits_source :: "('k, 'l, 'i, 'ty, 'v, 'a, 'u) source \<Rightarrow> 'v \<Rightarrow> bool" where
  "event_fits_source B v \<longleftrightarrow> (\<forall>ar. body_ok (trigger_body B ar v) \<and> body_ok (echo_body B ar v))"

lemma dict_name: "cf_interface cfg = sc_interface scfg \<Longrightarrow>
    source_dict scfg ty f (full_name cfg ''trigger_single_broadcast'') =
      Some \<lparr>de_func = f, de_args = [ty], de_result = None, de_one_way = True\<rparr>"
  by (simp add: source_dict_def make_fully_qualified_name_def myFuncPrefix_def)

lemma simple_echoes:
  assumes "cf_interface cfg = sc_interface scfg" and "cf_event cfg = Some (TSimple, poly)" and "\<not> operation_aborted ec"
    and "et \<noteq> NO_EVENT" and "event_fits_source (simple_source cfg scfg T ec p out sout) (VSimple et)"
  shows "echoes (simple_source cfg scfg T ec p out sout) (VSimple et)"
  using assms
  by (simp add: echoes_def event_fits_source_def simple_source_def dict_name simple_trigger_def simple_tickTimer_def Let_def)
     (auto simp: exI)

text \<open>The poly source echoes every event of a class it knows.\<close>

lemma poly_echoes:
  assumes "cf_interface cfg = sc_interface scfg" and "cf_event cfg = Some (TPoly, poly)" and "\<not> operation_aborted ec"
    and "e \<noteq> EventBase" and "event_fits_source (poly_source cfg scfg T g ec p out sout) (VPoly (Some e))"
  shows "echoes (poly_source cfg scfg T g ec p out sout) (VPoly (Some e))"
  using assms
  by (cases e)
     (auto simp: echoes_def event_fits_source_def poly_source_def dict_name poly_trigger_def poly_tickTimer_def Let_def)

text \<open>The sample archive and sockets serve both.\<close>

lemma sample_source:
  "source_ok (simple_source (event_cfg ev) event_service_cfg T ec p sent sent)"
  "source_ok (poly_source (event_cfg ev) event_service_cfg T g ec p sent sent)"
proof -
  have "lossless steady_io sent"
    by (simp add: lossless_def steady_io_def sample_io_def ec_samples ec_ok_def)
  then show "source_ok (simple_source (event_cfg ev) event_service_cfg T ec p sent sent)"
    "source_ok (poly_source (event_cfg ev) event_service_cfg T g ec p sent sent)"
    using event_archive_ok
    by (simp_all add: source_ok_def simple_source_def poly_source_def event_cfg_def event_service_cfg_def)
qed

lemma event_env_on:
  "on_source (simple_source cfg scfg T ec p out sout) (event_env_of (simple_source cfg scfg T ec p out sout) k)"
  "on_source (poly_source cfg scfg T g ec p out sout) (event_env_of (poly_source cfg scfg T g ec p out sout) k)"
  by (simp_all add: on_source_def event_env_of_def) (simp_all add: simple_source_def poly_source_def)

section \<open>The tests\<close>

lemma simple_closure: "simple_closures (OnEvent l (Some (VSimple et))) t = upd_listener (simple_on_service_event et) t"
  by simp

lemma poly_closure: "poly_closures (OnEvent l (Some (VPoly (Some e)))) t = upd_listener (poly_on_service_event (Some e)) t"
  by simp

text \<open>
  \<open>test_simple_events\<close> passes against a running simple event source: each event that the
  client asks for comes back to its listener, which was reset before, and no other.
\<close>

lemma simple_event_test_passes:
  fixes E :: "('k, 'i, simple_event, ('l, 'a, 't simple_data) source_world) event_env"
  assumes "B = simple_source cfg scfg T ec p out sout" and "source_ok B" and "on_source B E"
    and "cf_event cfg = Some (TSimple, False)" and "\<not> operation_aborted ec"
    and "event_fits_source B (VSimple EVENT_ONE)" and "event_fits_source B (VSimple EVENT_TWO)"
    and "connected_source B [] (myClient t) (snd (myWorld t)) []" and "\<not> gotEvent (the_listener t)"
  shows "passes (test_simple_events E) t"
proof -
  let ?k = "testFailures t" and ?C = "simple_closures :: ('k, simple_event, ('l, 'a, 't simple_data) source_world) event_closures"
  have face: "cf_interface cfg = sc_interface scfg"
    using assms(1,2) by (simp add: source_ok_def simple_source_def)
  have echoes: "echoes B (VSimple EVENT_ONE)" "echoes B (VSimple EVENT_TWO)"
    using assms(6,7) unfolding assms(1) by (auto intro!: simple_echoes [OF face assms(4,5)])
  have echo: "so_echo B v = v" for v
    using assms(1) by (simp add: simple_source_def)
  note ask = triple_ask [OF assms(2,3), where k = ?k and C = ?C]
  have told: "triple (asked B (VSimple et) [1] l ?k) (expect_event E ?C m) (tuned B [1] (simple_on_service_event et l) ?k)"
    if "echoes B (VSimple et)" "\<not> gotEvent l" "2 \<le> m" for et l m
    by (rule triple_told [OF assms(2,3) that(1,3,2)]) (simp add: simple_on_service_event_def, simp add: echo)
  have got: "triple (tuned B [1] (simple_on_service_event et l) ?k) (check_listener (received_is et))
      (tuned B [1] (simple_on_service_event et l) ?k)" for et l
    by (rule triple_check) (simp add: received_is_def simple_on_service_event_def)
  have reset: "\<not> gotEvent (simple_reset l)" for l
    by (simp add: simple_reset_def)
  have start: "tuned B [] (the_listener t) ?k t"
    using assms(8) by (simp add: tuned_def)
  show ?thesis
    unfolding test_simple_events_def Let_def
    by (rule triple_passes [where P = "tuned B [] (the_listener t) ?k", OF _ start refl],
        rule triple_sequence(2) [OF triple_listen],
        rule triple_sequence(2) [OF ask [OF echoes(1)]], rule triple_sequence(2) [OF told [OF echoes(1) assms(9)]], simp,
        rule triple_sequence(2) [OF got], rule triple_sequence(2) [OF triple_reset],
        rule triple_sequence(2) [OF ask [OF echoes(1)]], rule triple_sequence(2) [OF told [OF echoes(1) reset]], simp,
        rule triple_sequence(2) [OF got], rule triple_sequence(2) [OF triple_reset],
        rule triple_sequence(2) [OF ask [OF echoes(2)]], rule triple_sequence(2) [OF told [OF echoes(2) reset]], simp,
        rule triple_sequence(2) [OF got], rule triple_sequence(1), erule tuned_failures)
qed

text \<open>One block of the test of polymorphic events.\<close>

lemma triple_poly_block:
  fixes E :: "('k, 'i, poly_event option, ('l, 'a, 'u) source_world) event_env"
  assumes "source_ok B" and "on_source B E" and "echoes B (VPoly (Some e))" and "so_echo B (VPoly (Some e)) = VPoly (Some e')"
    and "get_as e' = Some d" and "\<not> gotEvent l"
  shows "triple (tuned B [1] l k) (poly_block E e get_as d) (tuned B [1] (poly_on_service_event (Some e') l) k)"
proof -
  have told: "triple (asked B (VPoly (Some e)) [1] l k) (expect_event E poly_closures 2)
      (tuned B [1] (poly_on_service_event (Some e') l) k)"
    by (rule triple_told [OF assms(1-3) _ assms(6)]) (simp, simp add: poly_on_service_event_def, simp add: assms(4))
  have got: "triple (tuned B [1] (poly_on_service_event (Some e') l) k) (check_listener (received_as get_as d))
      (tuned B [1] (poly_on_service_event (Some e') l) k)"
    by (rule triple_check) (simp add: received_as_def poly_on_service_event_def assms(5))
  show ?thesis
    unfolding poly_block_def
    by (rule triple_sequence(2) [OF triple_ask [OF assms(1-3)]], rule triple_sequence(2) [OF told],
        rule triple_sequence(2) [OF got], rule triple_sequence(1))
qed

text \<open>
  C39: \<open>test_poly_events\<close> passes against a running polymorphic event source: an event of each class
  comes back as an object of that class with its data, whatever the third one carries of its base
  class.
\<close>

theorem poly_event_test_passes:
  fixes E :: "('k, 'i, poly_event option, ('l, 'a, 't poly_data) source_world) event_env"
  assumes "B = poly_source cfg scfg T g ec p out sout" and "source_ok B" and "on_source B E"
    and "cf_event cfg = Some (TPoly, True)" and "\<not> operation_aborted ec"
    and "event_fits_source B (VPoly (Some (RealEventClassOne ''test event class one'')))"
    and "event_fits_source B (VPoly (Some (RealEventClassTwo 123654)))"
    and "event_fits_source B (VPoly (Some (RealEventClassThree g' event_dict_123)))"
    and "connected_source B [] (myClient t) (snd (myWorld t)) []" and "\<not> gotEvent (the_listener t)"
  shows "passes (test_poly_events E g') t"
proof -
  let ?k = "testFailures t"
  have face: "cf_interface cfg = sc_interface scfg"
    using assms(1,2) by (simp add: source_ok_def poly_source_def)
  note echoes = poly_echoes [OF face assms(4,5), of _ T g p out sout, folded assms(1)]
  have echo: "so_echo B (VPoly (Some (RealEventClassOne d))) = VPoly (Some (RealEventClassOne d))"
    "so_echo B (VPoly (Some (RealEventClassTwo n))) = VPoly (Some (RealEventClassTwo n))"
    "so_echo B (VPoly (Some (RealEventClassThree n m))) = VPoly (Some (RealEventClassThree g m))" for d n m
    using assms(1) by (simp_all add: poly_source_def new_event_three_def)
  have reset: "\<not> gotEvent (poly_reset l)" for l
    by (simp add: poly_reset_def)
  have start: "tuned B [] (the_listener t) ?k t"
    using assms(9) by (simp add: tuned_def)
  show ?thesis
    unfolding test_poly_events_def new_event_three_def
    by (rule triple_passes [where P = "tuned B [] (the_listener t) ?k", OF _ start refl],
        rule triple_sequence(2) [OF triple_listen],
        rule triple_sequence(2) [OF triple_poly_block [OF assms(2,3) echoes [OF _ assms(6)] echo(1) _ assms(10)]],
        simp, simp, rule triple_sequence(2) [OF triple_reset],
        rule triple_sequence(2) [OF triple_poly_block [OF assms(2,3) echoes [OF _ assms(7)] echo(2) _ reset]],
        simp, simp, rule triple_sequence(2) [OF triple_reset],
        rule triple_sequence(2) [OF triple_poly_block [OF assms(2,3) echoes [OF _ assms(8)] echo(3) _ reset]],
        simp, simp, rule triple_sequence(1), erule tuned_failures)
qed

theorem poly_event_test_passes_witness:
  "passes (test_poly_events (event_env_of (poly_source (event_cfg (TPoly, True)) event_service_cfg event_timers
     77 ec_success 1 sent sent) sample_sock) 5) (event_test_of None \<lparr>poly_timer = 0, poly_enabled = None\<rparr>)"
proof -
  let ?B = "poly_source (event_cfg (TPoly, True)) event_service_cfg event_timers 77 ec_success 1 sent sent ::
    (sample_socket, sample_socket, byte list, event_type, event_value, sample_acceptor, nat poly_data) source"
  have fits: "event_fits_source ?B (VPoly (Some (RealEventClassOne ''test event class one'')))"
    "event_fits_source ?B (VPoly (Some (RealEventClassTwo 123654)))"
    "event_fits_source ?B (VPoly (Some (RealEventClassThree 5 event_dict_123)))"
    by (simp_all add: event_fits_source_def poly_source_def event_cfg_def myFuncPrefix_def myBroadcastFuncName_def
        body_ok_length event_bodies new_event_three_def event_dict_123_def put_entry_def)
  show ?thesis
    by (rule poly_event_test_passes [OF refl sample_source(2) event_env_on(2) _ _ fits event_connected])
       (simp_all add: event_cfg_def poly_source_def ec_samples operation_aborted_def errno_defs)
qed

end
