(* ===== verification/Log_Token.thy ===== *)
theory Log_Token
  imports Prelude
begin

text \<open>
  How the log of the tests and examples (\<open>log\<close> of \<open>src/utils/debug.h\<close>) finds the name of the
  function that logs: the name is cut out of the text the compiler gives for the function, by
  replacing matches of regular expressions until no bracket is left. Those loops are a partial
  function. The lemmas say for which texts they end and what is left then.
\<close>

section \<open>Cutting text at a character\<close>

fun split_first :: "char \<Rightarrow> string \<Rightarrow> (string \<times> string) option" where
  "split_first c [] = None"
| "split_first c (x # xs) =
     (if x = c then Some ([], xs) else map_option (apfst (Cons x)) (split_first c xs))"

definition split_last :: "char \<Rightarrow> string \<Rightarrow> (string \<times> string) option" where
  "split_last c xs = map_option (\<lambda>(a, b). (rev b, rev a)) (split_first c (rev xs))"

lemma split_first_None: "split_first c xs = None \<longleftrightarrow> c \<notin> set xs"
  by (induction xs) auto

lemma split_first_Some: "split_first c xs = Some (a, b) \<longleftrightarrow> xs = a @ c # b \<and> c \<notin> set a"
proof (induction xs arbitrary: a)
  case (Cons x xs)
  show ?case by (cases a) (auto simp: Cons.IH)
qed simp

lemma split_last_None: "split_last c xs = None \<longleftrightarrow> c \<notin> set xs"
  by (simp add: split_last_def split_first_None)

lemma split_last_Some: "split_last c xs = Some (a, b) \<longleftrightarrow> xs = a @ c # b \<and> c \<notin> set b"
proof -
  have "split_last c xs = Some (a, b) \<longleftrightarrow> split_first c (rev xs) = Some (rev b, rev a)"
    by (auto simp: split_last_def)
  also have "\<dots> \<longleftrightarrow> rev xs = rev (a @ c # b) \<and> c \<notin> set b"
    by (simp add: split_first_Some)
  finally show ?thesis by (simp only: rev_is_rev_conv)
qed

section \<open>The regular expressions\<close>

text \<open>The dot of an ECMAScript expression matches no line break.\<close>

definition is_newline :: "char \<Rightarrow> bool" where
  "is_newline c \<longleftrightarrow> c \<in> {CHR 0x0A, CHR 0x0D}"

definition line_of :: "string \<Rightarrow> string" where
  "line_of = takeWhile (\<lambda>c. \<not> is_newline c)"

definition lines_after :: "string \<Rightarrow> string" where
  "lines_after = dropWhile (\<lambda>c. \<not> is_newline c)"

definition single_line :: "string \<Rightarrow> bool" where
  "single_line t \<longleftrightarrow> list_all (\<lambda>c. \<not> is_newline c) t"

lemma line_of_single [simp]: "single_line t \<Longrightarrow> line_of t = t"
  by (simp add: single_line_def line_of_def takeWhile_eq_all_conv list_all_iff)

lemma lines_after_single [simp]: "single_line t \<Longrightarrow> lines_after t = []"
  by (simp add: single_line_def lines_after_def list_all_iff)

lemma line_lines [simp]: "line_of t @ lines_after t = t"
  by (simp add: line_of_def lines_after_def)

lemma length_lines_after: "length (lines_after t) \<le> length t"
  by (simp add: lines_after_def length_dropWhile_le)

lemma single_line_append [simp]: "single_line (a @ b) \<longleftrightarrow> single_line a \<and> single_line b"
  by (simp add: single_line_def)

lemma single_line_Cons [simp]: "single_line (c # t) \<longleftrightarrow> \<not> is_newline c \<and> single_line t"
  by (simp add: single_line_def)

lemma single_line_Nil [simp]: "single_line []"
  by (simp add: single_line_def)

text \<open>
  Every match of \<open>([^[]*) \[with .*\](.*)\<close>, which is replaced by its two groups. It starts
  where the search does, or after a bracket that leads to no match, so that the text before
  the blank is kept in either case; \<open>.*\<close> takes the last closing bracket of the line.
\<close>

fun find_with :: "string \<Rightarrow> (string \<times> string) option" where
  "find_with [] = None"
| "find_with (c # t) =
     (if take 7 (c # t) = '' [with '' \<and> CHR '']'' \<in> set (line_of (drop 7 (c # t)))
      then Some ([], drop 7 (c # t))
      else map_option (apfst (Cons c)) (find_with t))"

lemma find_with_Some: "find_with t = Some (a, b) \<Longrightarrow> t = a @ '' [with '' @ b \<and> CHR '']'' \<in> set (line_of b)"
proof (induction t arbitrary: a)
  case (Cons c t)
  show ?case
  proof (cases "take 7 (c # t) = '' [with '' \<and> CHR '']'' \<in> set (line_of (drop 7 (c # t)))")
    case True
    with Cons.prems have ab: "a = []" "b = drop 7 (c # t)" by simp_all
    have "c # t = take 7 (c # t) @ drop 7 (c # t)" by (simp only: append_take_drop_id)
    with True ab show ?thesis by simp
  next
    case False
    with Cons show ?thesis by (auto simp del: take_Suc_Cons drop_Suc_Cons split: if_splits)
  qed
qed simp

lemma find_with_length: "find_with t = Some (a, b) \<Longrightarrow> length (lines_after b) < length t"
  using length_lines_after [of b] by (auto dest!: find_with_Some)

function drop_template_args :: "string \<Rightarrow> string" where
  "drop_template_args t =
     (case find_with t of
        None \<Rightarrow> t
      | Some (before, rest) \<Rightarrow>
          (case split_last CHR '']'' (line_of rest) of
             None \<Rightarrow> t
           | Some (_, after) \<Rightarrow> before @ after @ drop_template_args (lines_after rest)))"
  by pat_completeness auto
termination
  by (relation "measure length") (auto simp: find_with_length)

declare drop_template_args.simps [simp del]

text \<open>
  Every match of \<open>([^(]*)\([^)]*\)(.*)\<close>: the text from the first opening bracket to the
  first closing one after it is dropped, the rest of that line is not searched again. The
  expression for \<open><\<close> and \<open>>\<close> is the same but for the characters.
\<close>

function remove_enclosed :: "char \<Rightarrow> char \<Rightarrow> string \<Rightarrow> string" where
  "remove_enclosed op cl t =
     (case split_first op t of
        None \<Rightarrow> t
      | Some (before, inside) \<Rightarrow>
          (case split_first cl inside of
             None \<Rightarrow> t
           | Some (_, after) \<Rightarrow>
               before @ line_of after @ remove_enclosed op cl (lines_after after)))"
  by pat_completeness auto
termination
  by (relation "measure (\<lambda>(_, _, t). length t)")
    (auto simp: split_first_Some less_Suc_eq_le intro!: le_SucI trans_le_add2 length_lines_after)

declare remove_enclosed.simps [simp del]

text \<open>The loops \<open>do { \<dots> } while (tok.find_first_of(op) != npos)\<close>.\<close>

partial_function (option) remove_all_enclosed :: "char \<Rightarrow> char \<Rightarrow> string \<Rightarrow> string option" where
  "remove_all_enclosed op cl t =
     (let t' = remove_enclosed op cl t in
      if op \<in> set t' then remove_all_enclosed op cl t' else Some t')"

declare remove_all_enclosed.simps [code]

definition after_last_space :: "string \<Rightarrow> string" where
  "after_last_space t = (case split_last CHR '' '' t of None \<Rightarrow> t | Some (_, after) \<Rightarrow> after)"

definition short_token :: "string \<Rightarrow> string option" where
  "short_token logToken =
     Option.bind (remove_all_enclosed CHR ''('' CHR '')'' (drop_template_args logToken)) (\<lambda>tok.
     Option.bind (remove_all_enclosed CHR ''<'' CHR ''>'' tok) (\<lambda>tok.
     Some (after_last_space tok)))"

section \<open>When the loops end\<close>

text \<open>A last opening bracket that no closing one follows.\<close>

definition unclosed :: "char \<Rightarrow> char \<Rightarrow> string \<Rightarrow> bool" where
  "unclosed op cl t = (case split_last op t of None \<Rightarrow> False | Some (_, after) \<Rightarrow> cl \<notin> set after)"

lemma unclosed_iff: "unclosed op cl t \<longleftrightarrow> (\<exists>u v. t = u @ op # v \<and> op \<notin> set v \<and> cl \<notin> set v)"
proof -
  have "unclosed op cl t \<longleftrightarrow> (\<exists>u v. split_last op t = Some (u, v) \<and> cl \<notin> set v)"
    by (cases "split_last op t") (auto simp: unclosed_def)
  then show ?thesis by (auto simp: split_last_Some)
qed

lemma unclosed_mem: "unclosed op cl t \<Longrightarrow> op \<in> set t"
  by (auto simp: unclosed_iff)

lemma unclosed_append:
  "unclosed op cl (xs @ ys) \<longleftrightarrow>
     unclosed op cl ys \<or> (op \<notin> set ys \<and> cl \<notin> set ys \<and> unclosed op cl xs)"
proof (cases "split_last op ys")
  case None
  then have no: "op \<notin> set ys" by (simp add: split_last_None)
  show ?thesis
  proof (cases "split_last op xs")
    case None
    with no have "split_last op (xs @ ys) = None" by (simp add: split_last_None)
    with None no show ?thesis by (simp add: unclosed_def split_last_None [THEN iffD2])
  next
    case (Some p)
    obtain a b where p: "p = (a, b)" by force
    with Some no have "split_last op (xs @ ys) = Some (a, b @ ys)" by (simp add: split_last_Some)
    with Some p no show ?thesis by (auto simp: unclosed_def split_last_None [THEN iffD2])
  qed
next
  case (Some p)
  obtain a b where p: "p = (a, b)" by force
  with Some have "ys = a @ op # b" and "split_last op (xs @ ys) = Some (xs @ a, b)"
    by (simp_all add: split_last_Some)
  with Some p show ?thesis by (simp add: unclosed_def)
qed

lemma unclosed_intro: "cl \<notin> set v \<Longrightarrow> unclosed op cl (u @ op # v)"
proof (cases "op \<in> set v")
  case True
  then obtain a b where "v = a @ op # b" "op \<notin> set b" using split_list_last by metis
  moreover assume "cl \<notin> set v"
  ultimately have "u @ op # v = (u @ op # a) @ op # b \<and> op \<notin> set b \<and> cl \<notin> set b" by simp
  then show ?thesis unfolding unclosed_iff by blast
qed (auto simp: unclosed_iff)

lemma remove_enclosed_none: "op \<notin> set t \<Longrightarrow> remove_enclosed op cl t = t"
  by (simp add: remove_enclosed.simps split_first_None [THEN iffD2])

lemma remove_enclosed_open:
  assumes "t = before @ op # inside" and "op \<notin> set before" and "cl \<notin> set inside"
  shows "remove_enclosed op cl t = t"
proof -
  have "split_first op t = Some (before, inside)" and "split_first cl inside = None"
    using assms by (simp_all add: split_first_Some split_first_None)
  then show ?thesis by (simp add: remove_enclosed.simps [of op cl t])
qed

lemma remove_enclosed_first:
  assumes "t = before @ op # inside @ cl # after" and "op \<notin> set before" and "cl \<notin> set inside"
  shows "remove_enclosed op cl t = before @ line_of after @ remove_enclosed op cl (lines_after after)"
proof -
  have "split_first op t = Some (before, inside @ cl # after)"
    and "split_first cl (inside @ cl # after) = Some (inside, after)"
    using assms by (simp_all add: split_first_Some)
  then show ?thesis by (simp add: remove_enclosed.simps [of op cl t])
qed

lemma enclosed_cases:
  fixes op cl :: char and t :: string
  obtains (none) "op \<notin> set t"
    | (opened) before inside where "t = before @ op # inside" "op \<notin> set before" "cl \<notin> set inside"
    | (enclosed) before inside after where "t = before @ op # inside @ cl # after"
        "op \<notin> set before" "cl \<notin> set inside"
proof (cases "split_first op t")
  case None
  then show ?thesis by (simp add: split_first_None none)
next
  case (Some p)
  obtain before rest where "t = before @ op # rest" "op \<notin> set before"
    using Some by (cases p) (simp add: split_first_Some)
  moreover have "split_first cl rest = None \<or> (\<exists>inside after. split_first cl rest = Some (inside, after))"
    by (cases "split_first cl rest") auto
  ultimately show ?thesis
    by (auto simp: split_first_None split_first_Some intro: opened enclosed)
qed

text \<open>Such a bracket stays, whatever the text looks like.\<close>

lemma unclosed_remove_enclosed:
  assumes "op \<noteq> cl" and "unclosed op cl t"
  shows "unclosed op cl (remove_enclosed op cl t)"
  using assms(2)
proof (induction "length t" arbitrary: t rule: less_induct)
  case less
  show ?case
  proof (cases rule: enclosed_cases [where op = op and cl = cl and t = t])
    case none
    with less.prems show ?thesis by (simp add: unclosed_mem)
  next
    case opened
    with less.prems show ?thesis by (simp add: remove_enclosed_open)
  next
    case (enclosed before inside after)
    have "unclosed op cl ((before @ op # inside) @ ([cl] @ after))"
      using less.prems enclosed(1) by simp
    then have "unclosed op cl ([cl] @ after)"
      by (simp only: unclosed_append [of op cl "before @ op # inside"]) auto
    then have "unclosed op cl after"
      using assms(1) by (simp only: unclosed_append [of op cl "[cl]"]) (auto dest: unclosed_mem)
    then have after: "unclosed op cl (line_of after @ lines_after after)" by simp
    then consider "unclosed op cl (lines_after after)"
      | "op \<notin> set (lines_after after)" "cl \<notin> set (lines_after after)" "unclosed op cl (line_of after)"
      by (auto simp only: unclosed_append)
    then show ?thesis
    proof cases
      case 1
      have "length (lines_after after) < length t"
        using length_lines_after [of after] enclosed(1) by simp
      from less.hyps [OF this 1] show ?thesis
        by (simp add: remove_enclosed_first [OF enclosed] unclosed_append)
    next
      case 2
      with after show ?thesis
        by (simp add: remove_enclosed_first [OF enclosed] remove_enclosed_none unclosed_append [of op cl before])
    qed
  qed
qed

lemma remove_all_enclosed_unclosed:
  assumes "op \<noteq> cl" and "unclosed op cl t"
  shows "remove_all_enclosed op cl t = None"
proof (rule ccontr)
  assume "remove_all_enclosed op cl t \<noteq> None"
  then obtain t' where "remove_all_enclosed op cl t = Some t'" by blast
  then have "\<not> (op \<noteq> cl \<and> unclosed op cl t)"
  proof (rule remove_all_enclosed.raw_induct
      [where P = "\<lambda>op cl t t'. \<not> (op \<noteq> cl \<and> unclosed op cl t)", rotated], goal_cases)
    case (1 loop op cl t t')
    show ?case
    proof (cases "op \<in> set (remove_enclosed op cl t)")
      case True
      with 1(2) have "loop op cl (remove_enclosed op cl t) = Some t'" by simp
      from 1(1) [OF this] show ?thesis using unclosed_remove_enclosed by blast
    next
      case False
      then show ?thesis using unclosed_remove_enclosed unclosed_mem by blast
    qed
  qed
  with assms show False by simp
qed

lemma remove_enclosed_single_line:
  assumes "t = before @ op # inside @ cl # after" and "op \<notin> set before" and "cl \<notin> set inside"
    and "single_line t"
  shows "remove_enclosed op cl t = before @ after"
  using assms(4) unfolding remove_enclosed_first [OF assms(1-3)]
  by (simp add: assms(1) remove_enclosed_none)

lemma remove_all_enclosed_single_line:
  assumes "single_line t" and "\<not> unclosed op cl t"
  obtains t' where "remove_all_enclosed op cl t = Some t'" and "op \<notin> set t'" and "set t' \<subseteq> set t"
  using assms
proof (induction "length t" arbitrary: t thesis rule: less_induct)
  case less
  show ?case
  proof (cases rule: enclosed_cases [where op = op and cl = cl and t = t])
    case none
    then show ?thesis
      by (intro less.prems(1) [of t])
        (simp_all add: remove_all_enclosed.simps [of op cl t] remove_enclosed_none)
  next
    case (opened before inside)
    then have "unclosed op cl t" by (simp add: unclosed_intro)
    with less.prems(3) show ?thesis by simp
  next
    case (enclosed before inside after)
    let ?u = "before @ after"
    have u: "remove_enclosed op cl t = ?u"
      using remove_enclosed_single_line [OF enclosed less.prems(2)] .
    have "length ?u < length t" and "single_line ?u"
      using enclosed(1) less.prems(2) by auto
    moreover have "\<not> unclosed op cl ?u"
      using less.prems(3) enclosed(2) unclosed_append [of op cl "before @ op # inside @ [cl]" after]
      by (auto simp: enclosed(1) unclosed_append dest: unclosed_mem)
    ultimately obtain t' where "remove_all_enclosed op cl ?u = Some t'" "op \<notin> set t'" "set t' \<subseteq> set ?u"
      using less.hyps by blast
    moreover from calculation have "op \<notin> set ?u \<Longrightarrow> t' = ?u"
      by (simp add: remove_all_enclosed.simps [of op cl ?u] remove_enclosed_none)
    ultimately have "remove_all_enclosed op cl t = Some t'" and "set t' \<subseteq> set t"
      by (auto simp: remove_all_enclosed.simps [of op cl t] u Let_def) (auto simp: enclosed(1))
    with \<open>op \<notin> set t'\<close> show ?thesis by (intro less.prems(1))
  qed
qed

lemma find_with_None: "CHR ''['' \<notin> set t \<Longrightarrow> find_with t = None"
proof (induction t)
  case (Cons c t)
  have "take 7 (c # t) \<noteq> '' [with ''"
  proof
    assume "take 7 (c # t) = '' [with ''"
    then have "CHR ''['' \<in> set (take 7 (c # t))" by simp
    with Cons.prems show False by (meson in_set_takeD)
  qed
  with Cons show ?case by auto
qed simp

lemma drop_template_args_none: "CHR ''['' \<notin> set t \<Longrightarrow> drop_template_args t = t"
  by (simp add: drop_template_args.simps find_with_None)

lemma single_line_drop_template_args: "single_line t \<Longrightarrow> single_line (drop_template_args t)"
proof (induction t rule: drop_template_args.induct)
  case (1 t)
  show ?case
  proof (cases "find_with t")
    case None
    with 1(2) show ?thesis by (simp add: drop_template_args.simps [of t])
  next
    case (Some p)
    obtain a b where p: "p = (a, b)" by force
    then have t: "t = a @ '' [with '' @ b" and "CHR '']'' \<in> set (line_of b)"
      using Some find_with_Some by simp_all
    then obtain u v where v: "split_last CHR '']'' (line_of b) = Some (u, v)"
      by (cases "split_last CHR '']'' (line_of b)") (auto simp: split_last_None)
    have "line_of b = b" using t 1(2) by simp
    with v have "single_line v" using t 1(2) by (auto simp: split_last_Some)
    moreover have "lines_after b = []" using t 1(2) by simp
    then have "drop_template_args t = a @ v"
      by (simp add: drop_template_args.simps [of t] drop_template_args.simps [of "[]"] Some p v)
    ultimately show ?thesis using t 1(2) by simp
  qed
qed

lemma remove_all_enclosed_none: "op \<notin> set t \<Longrightarrow> remove_all_enclosed op cl t = Some t"
  by (simp add: remove_all_enclosed.simps remove_enclosed_none)

lemma remove_all_enclosed_once:
  assumes "t = before @ op # inside @ cl # after" and "op \<notin> set before" and "cl \<notin> set inside"
    and "single_line t" and "op \<notin> set after"
  shows "remove_all_enclosed op cl t = Some (before @ after)"
  using assms(2,5)
  by (simp add: remove_all_enclosed.simps [of op cl t] remove_enclosed_single_line [OF assms(1-4)])

lemma single_line_subset: "single_line t \<Longrightarrow> set u \<subseteq> set t \<Longrightarrow> single_line u"
  by (auto simp: single_line_def list_all_iff)

lemma after_last_space_props: "set (after_last_space t) \<subseteq> set t" "CHR '' '' \<notin> set (after_last_space t)"
  by (auto simp: after_last_space_def split_last_None split_last_Some split: option.split)

lemma after_last_space_append: "CHR '' '' \<notin> set b \<Longrightarrow> after_last_space (a @ CHR '' '' # b) = b"
  by (simp add: after_last_space_def split_last_Some [THEN iffD2])

text \<open>A text makes the loops run for ever if one of them meets a bracket that stays open.\<close>

definition token_hangs :: "string \<Rightarrow> bool" where
  "token_hangs logToken =
     (let tok = drop_template_args logToken in
      unclosed CHR ''('' CHR '')'' tok \<or>
      (case remove_all_enclosed CHR ''('' CHR '')'' tok of
         None \<Rightarrow> False
       | Some tok \<Rightarrow> unclosed CHR ''<'' CHR ''>'' tok))"

definition plain_name :: "string \<Rightarrow> bool" where
  "plain_name n \<longleftrightarrow> CHR ''('' \<notin> set n \<and> CHR ''<'' \<notin> set n \<and> CHR '' '' \<notin> set n"

lemma short_token_hangs:
  assumes "token_hangs tok"
  shows "short_token tok = None"
proof -
  let ?t = "drop_template_args tok"
  consider "unclosed CHR ''('' CHR '')'' ?t"
    | t where "remove_all_enclosed CHR ''('' CHR '')'' ?t = Some t" "unclosed CHR ''<'' CHR ''>'' t"
    using assms by (auto simp: token_hangs_def Let_def split: option.splits)
  then show ?thesis
    by cases (simp_all add: short_token_def remove_all_enclosed_unclosed)
qed

lemma short_token_ends:
  assumes "single_line tok" and "\<not> token_hangs tok"
  obtains name where "short_token tok = Some name" and "plain_name name"
proof -
  have "single_line (drop_template_args tok)" and "\<not> unclosed CHR ''('' CHR '')'' (drop_template_args tok)"
    using assms by (auto simp: token_hangs_def Let_def single_line_drop_template_args)
  then obtain t where t: "remove_all_enclosed CHR ''('' CHR '')'' (drop_template_args tok) = Some t"
    "CHR ''('' \<notin> set t" "set t \<subseteq> set (drop_template_args tok)"
    by (rule remove_all_enclosed_single_line)
  then have "single_line t" and "\<not> unclosed CHR ''<'' CHR ''>'' t"
    using assms single_line_subset [OF single_line_drop_template_args]
    by (auto simp: token_hangs_def Let_def)
  then obtain u where u: "remove_all_enclosed CHR ''<'' CHR ''>'' t = Some u"
    "CHR ''<'' \<notin> set u" "set u \<subseteq> set t"
    by (rule remove_all_enclosed_single_line)
  have "short_token tok = Some (after_last_space u)" by (simp add: short_token_def t(1) u(1))
  moreover have "plain_name (after_last_space u)"
    using t(2) u(2,3) after_last_space_props [of u] by (auto simp: plain_name_def)
  ultimately show ?thesis by (rule that)
qed

text \<open>
  The text of a function without template arguments: the name is cut out. That of a constant
  member function leaves the word behind the parameters.
\<close>

lemma short_token_function:
  assumes "token = type @ '' '' @ name @ ''('' @ params @ '')''" and "single_line token"
    and "CHR ''['' \<notin> set token" and "CHR ''<'' \<notin> set type" and "CHR ''('' \<notin> set type"
    and "plain_name name" and "CHR '')'' \<notin> set params"
  shows "short_token token = Some name"
proof -
  have "remove_all_enclosed CHR ''('' CHR '')'' token = Some ((type @ '' '' @ name) @ [])"
    using assms by (intro remove_all_enclosed_once [where inside = params]) (auto simp: plain_name_def)
  then show ?thesis
    using assms(3-6)
    by (simp add: short_token_def drop_template_args_none remove_all_enclosed_none plain_name_def
      after_last_space_append)
qed

lemma short_token_const_function:
  assumes "token = type @ '' '' @ name @ ''('' @ params @ '') const''" and "single_line token"
    and "CHR ''['' \<notin> set token" and "CHR ''<'' \<notin> set type" and "CHR ''('' \<notin> set type"
    and "plain_name name" and "CHR '')'' \<notin> set params"
  shows "short_token token = Some ''const''"
proof -
  have "remove_all_enclosed CHR ''('' CHR '')'' token = Some ((type @ '' '' @ name) @ '' const'')"
    using assms by (intro remove_all_enclosed_once [where inside = params]) (auto simp: plain_name_def)
  then show ?thesis
    using assms(3-6) after_last_space_append [of "''const''" "type @ '' '' @ name"]
    by (simp add: short_token_def drop_template_args_none remove_all_enclosed_none plain_name_def)
qed

end
