(* ===== verification/Debug_Log.thy ===== *)
theory Debug_Log
  imports Log_Token Test_Programs
begin

text \<open>
  The two logs a program can have, the empty one of \<open>cercall/log.h\<close> and the one of the tests
  and examples in \<open>utils/debug.h\<close>, and the functions of the library that use whichever is
  there, \<open>cercall::log\<close> and \<open>log_assert\<close>. \<open>None\<close> is a call that never returns. The locale
  \<open>logger\<close> is what \<open>log_assert\<close> relies on; both logs are instances of it.
\<close>

section \<open>Formats\<close>

text \<open>
  \<open>fprintf\<close> with the conversions the source uses. \<open>None\<close> is a conversion without an argument
  of its type, or one that is not among these. Arguments that are left over are ignored.
\<close>

datatype log_arg = LogStr string | LogInt int

fun nat_digits :: "nat \<Rightarrow> string" where
  "nat_digits n =
     (if n < 10 then [char_of (48 + n)] else nat_digits (n div 10) @ [char_of (48 + n mod 10)])"

declare nat_digits.simps [simp del]

definition int_digits :: "int \<Rightarrow> string" where
  "int_digits i = (if i < 0 then CHR ''-'' # nat_digits (nat (- i)) else nat_digits (nat i))"

fun convert_arg :: "char \<Rightarrow> log_arg \<Rightarrow> string option" where
  "convert_arg c (LogStr t) = (if c = CHR ''s'' then Some t else None)"
| "convert_arg c (LogInt i) = (if c = CHR ''d'' then Some (int_digits i) else None)"

fun fprintf :: "string \<Rightarrow> log_arg list \<Rightarrow> string option" where
  "fprintf [] args = Some []"
| "fprintf (c # f) args =
     (if c \<noteq> CHR ''%'' then map_option (Cons c) (fprintf f args)
      else (case f of
          [] \<Rightarrow> None
        | d # f' \<Rightarrow>
            (case args of
               [] \<Rightarrow> None
             | a # args' \<Rightarrow>
                 Option.bind (convert_arg d a) (\<lambda>t. map_option (append t) (fprintf f' args')))))"

section \<open>The log of the tests\<close>

text \<open>The levels of \<open>debug.h\<close> have other values than the default ones, in the same order.\<close>

primrec user_level_value :: "log_level \<Rightarrow> nat" where
  "user_level_value log_off = 0"
| "user_level_value log_fatal = 1"
| "user_level_value log_error = 2"
| "user_level_value log_debug = 3"
| "user_level_value log_trace = 5"

lemma user_level_order: "user_level_value a \<le> user_level_value b \<longleftrightarrow> a \<le> b"
  by (cases a; cases b) (simp_all add: less_eq_log_level_def)

primrec levelToStr :: "log_level \<Rightarrow> string" where
  "levelToStr log_off = ''?''"
| "levelToStr log_fatal = ''F''"
| "levelToStr log_error = ''E''"
| "levelToStr log_debug = ''D''"
| "levelToStr log_trace = ''T''"

text \<open>What the log works on: the instance of \<open>Program\<close>, made at the first use, and the output.\<close>

record log_state =
  log_program :: "program option"
  log_output :: string

definition emit :: "string \<Rightarrow> log_state \<Rightarrow> log_state" where
  "emit t s = s\<lparr>log_output := log_output s @ t\<rparr>"

text \<open>
  \<open>enabled\<close> is \<open>ENABLED_LOG_LEVEL\<close>, \<open>debug\<close> unless the command line of the compiler says
  otherwise; \<open>link\<close> is the link to the program, as for \<open>new_program\<close>.
\<close>

definition user_log :: "log_level \<Rightarrow> string option \<Rightarrow> log_level \<Rightarrow> log_level \<Rightarrow> string \<Rightarrow> string \<Rightarrow>
    log_arg list \<Rightarrow> log_state \<Rightarrow> (unit, log_state) res option" where
  "user_log enabled link staticLevel ll logToken format args s =
     (if user_level_value staticLevel \<le> user_level_value enabled then
        (case program_instance link (log_program s) of
           Inl e \<Rightarrow> Some (Exn e s)
         | Inr (p, inst) \<Rightarrow>
             let s = emit (myName p @ '' ['' @ levelToStr ll @ ''] '') (s\<lparr>log_program := inst\<rparr>) in
             Option.bind
               (if logToken \<noteq> [] then map_option (\<lambda>tok. emit tok s) (short_token logToken) else Some s)
               (\<lambda>s.
                 if format \<noteq> [] then
                   (let s = emit '': '' s in
                    case fprintf format args of
                      None \<Rightarrow> Some (Exn (Undefined ''fprintf'') s)
                    | Some t \<Rightarrow> Some (Ret () (emit [CHR 0x0A] (emit t s))))
                 else Some (Ret () (emit [CHR 0x0A] s))))
      else Some (Ret () s))"

section \<open>The default log\<close>

definition default_log :: "log_level \<Rightarrow> log_level \<Rightarrow> string \<Rightarrow> string \<Rightarrow> log_arg list \<Rightarrow> 's \<Rightarrow>
    (unit, 's) res option" where
  "default_log staticLevel ll logToken format args s = Some (Ret () s)"

section \<open>The functions of the library\<close>

text \<open>\<open>user\<close> is the function \<open>log\<close> that the namespace \<open>cercall_user_log\<close> has.\<close>

type_synonym 's log_fun =
  "log_level \<Rightarrow> log_level \<Rightarrow> string \<Rightarrow> string \<Rightarrow> log_arg list \<Rightarrow> 's \<Rightarrow> (unit, 's) res option"

definition cercall_log :: "'s log_fun \<Rightarrow> log_level \<Rightarrow> string \<Rightarrow> string \<Rightarrow> log_arg list \<Rightarrow> 's \<Rightarrow>
    (unit, 's) res option" where
  "cercall_log user ll logToken format args s = user ll ll logToken format args s"

definition assert_failed :: "string \<Rightarrow> 's \<Rightarrow> (unit, 's) res" where
  "assert_failed condStr s = Exn (AssertFailed condStr) s"

text \<open>\<open>ndebug\<close> says whether the program is compiled without assertions.\<close>

definition log_assert :: "'s log_fun \<Rightarrow> bool \<Rightarrow> bool \<Rightarrow> string \<Rightarrow> int \<Rightarrow> string \<Rightarrow> 's \<Rightarrow>
    (unit, 's) res option" where
  "log_assert user ndebug cond file line condStr s =
     (if \<not> ndebug \<and> \<not> cond then
        map_option (\<lambda>r. bind_res r (\<lambda>_ s. assert_failed condStr s))
          (user log_fatal log_fatal [] ''assertion '%s' failed at %s:%d''
             [LogStr condStr, LogStr file, LogInt line] s)
      else Some (Ret () s))"

definition o_assert_macro :: "'s log_fun \<Rightarrow> bool \<Rightarrow> bool \<Rightarrow> string \<Rightarrow> int \<Rightarrow> string \<Rightarrow> 's \<Rightarrow>
    (unit, 's) res option" where
  "o_assert_macro user ndebug cond file line condStr s =
     (if cond then Some (Ret () s) else log_assert user ndebug cond file line condStr s)"

section \<open>Assertions\<close>

text \<open>
  What \<open>log_assert\<close> needs of a log: that it returns when it is given the text of an assertion.
  The assertion then ends as \<open>o_assert\<close> of the model does, which leaves the log out.
\<close>

locale logger =
  fixes user :: "'s log_fun" and good :: "'s \<Rightarrow> bool"
  assumes assertion_printed: "\<And>s c f n. good s \<Longrightarrow>
    \<exists>t. user log_fatal log_fatal [] ''assertion '%s' failed at %s:%d''
      [LogStr c, LogStr f, LogInt n] s = Some (Ret () t)"
begin

lemma log_assert_ends:
  assumes "good s"
  shows "\<exists>t. log_assert user False cond file line condStr s =
    Some (if cond then Ret () s else Exn (AssertFailed condStr) t)"
  using assertion_printed [OF assms, of condStr "file" line]
  by (auto simp: log_assert_def assert_failed_def)

lemma assertion_ends:
  assumes "good s"
  shows "\<exists>t. o_assert_macro user False cond file line condStr s =
    Some (bind_res (o_assert cond condStr t) Ret) \<and> (cond \<longrightarrow> t = s)"
  using log_assert_ends [OF assms, of cond "file" line condStr]
  by (cases cond) (auto simp: o_assert_macro_def)

end

interpretation default_logger: logger default_log "\<lambda>_. True"
  by unfold_locales (simp add: default_log_def)

lemma fprintf_assertion:
  "fprintf ''assertion '%s' failed at %s:%d'' [LogStr c, LogStr f, LogInt n] =
     Some (''assertion '' @ CHR 0x27 # c @ CHR 0x27 # '' failed at '' @ f @ '':'' @ int_digits n)"
  by simp

lemma log_program_emit [simp]: "log_program (emit t s) = log_program s"
  by (simp add: emit_def)

lemma emit_emit [simp]: "emit u (emit t s) = emit (t @ u) s"
  by (simp add: emit_def)

definition has_program :: "string option \<Rightarrow> log_state \<Rightarrow> bool" where
  "has_program link s =
     (case program_instance link (log_program s) of Inl _ \<Rightarrow> False | Inr _ \<Rightarrow> True)"

lemma user_log_assertion:
  assumes "program_instance link (log_program s) = Inr (p, inst)" and "log_fatal \<le> enabled"
  shows "user_log enabled link log_fatal log_fatal [] ''assertion '%s' failed at %s:%d''
      [LogStr c, LogStr f, LogInt n] s =
    Some (Ret () (emit (myName p @ '' [F] : assertion '' @ CHR 0x27 # c @ CHR 0x27 #
      '' failed at '' @ f @ '':'' @ int_digits n @ [CHR 0x0A]) (s\<lparr>log_program := inst\<rparr>)))"
proof -
  have "user_level_value log_fatal \<le> user_level_value enabled"
    using assms(2) by (simp only: user_level_order)
  then show ?thesis using assms(1) by (simp add: user_log_def fprintf_assertion del: fprintf.simps)
qed

lemma user_log_off: "\<not> staticLevel \<le> enabled \<Longrightarrow> user_log enabled link staticLevel ll tok fmt args s = Some (Ret () s)"
  by (simp add: user_log_def user_level_order)

interpretation user_logger: logger "user_log enabled link" "has_program link" for enabled link
proof unfold_locales
  fix s c f n
  assume "has_program link s"
  then obtain p inst where "program_instance link (log_program s) = Inr (p, inst)"
    by (auto simp: has_program_def split: sum.splits)
  then show "\<exists>t. user_log enabled link log_fatal log_fatal [] ''assertion '%s' failed at %s:%d''
      [LogStr c, LogStr f, LogInt n] s = Some (Ret () t)"
    by (cases "log_fatal \<le> enabled") (simp_all add: user_log_assertion user_log_off)
qed

section \<open>A line of the log\<close>

text \<open>
  C40: A log line of an enabled level, for a function text on one line, hangs the program for ever
  exactly if one of the two loops meets an opening bracket with no closing one behind it, as in
  \<open>operator<\<close>. Otherwise the line is printed: program, level, a name in which no round or
  pointed opening bracket and no blank is left, and the formatted text.
\<close>

theorem user_log_ends:
  assumes "single_line token" and "ll \<le> enabled"
    and "program_instance link (log_program s) = Inr (p, inst)" and "fprintf format args = Some t"
  shows "if token_hangs token then cercall_log (user_log enabled link) ll token format args s = None
     else \<exists>name. plain_name name \<and>
       cercall_log (user_log enabled link) ll token format args s =
         Some (Ret () (emit (myName p @ '' ['' @ levelToStr ll @ ''] '' @ name @
           (if format = [] then [] else '': '' @ t) @ [CHR 0x0A]) (s\<lparr>log_program := inst\<rparr>)))"
proof (cases "token_hangs token")
  case True
  then have "short_token token = None" and "token \<noteq> []"
    by (auto simp: short_token_hangs token_hangs_def drop_template_args_none unclosed_def
      split_last_def remove_all_enclosed_none)
  with True assms show ?thesis by (simp add: cercall_log_def user_log_def user_level_order)
next
  case False
  with assms(1) obtain name where name: "short_token token = Some name" "plain_name name"
    by (rule short_token_ends)
  have "short_token [] = Some []"
    by (simp add: short_token_def drop_template_args_none remove_all_enclosed_none
      after_last_space_def split_last_def)
  with name False assms show ?thesis
    by (cases "token = []") (auto simp: cercall_log_def user_log_def user_level_order)
qed

text \<open>
  \<open>ClientTcpTransport::open\<close> logs a wrong state with the name of the function where the format
  belongs. The message and the state become arguments that no conversion asks for.
\<close>

lemma open_state_not_logged:
  assumes "log_error \<le> enabled" and "program_instance link (log_program s) = Inr (p, inst)"
  shows "cercall_log (user_log enabled link) log_error ''ClientTcpTransport'' ''open''
      [LogStr ''can't open transport in %s state'', LogStr stateStr] s =
    Some (Ret () (emit (myName p @ '' [E] ClientTcpTransport: open'' @ [CHR 0x0A])
      (s\<lparr>log_program := inst\<rparr>)))"
proof -
  have "short_token ''ClientTcpTransport'' = Some ''ClientTcpTransport''" by code_simp
  moreover have "user_level_value log_error \<le> user_level_value enabled"
    using assms(1) by (simp only: user_level_order)
  ultimately show ?thesis using assms(2) by (simp add: cercall_log_def user_log_def)
qed

definition log_start :: log_state where
  "log_start = \<lparr>log_program = None, log_output = []\<rparr>"

text \<open>The text that GCC gives for a member function of the service template.\<close>

definition service_token :: string where
  "service_token = ''void cercall::Service<S, T>::on_disconnected(cercall::Transport&) '' @
     ''[with S = Calc<int (&)[2]>; T = {cercall::Archive}]''"

lemma short_service_token: "short_token service_token = Some ''cercall::Service::on_disconnected''"
  by code_simp

definition less_token :: string where
  "less_token = ''bool Name::operator<(const Name&) const''"

theorem user_log_ends_witness:
  "cercall_log (user_log log_debug (Some ''/opt/calc'')) log_debug less_token ''sum'' [] log_start = None \<and>
   (\<exists>name. plain_name name \<and>
     cercall_log (user_log log_debug (Some ''/opt/calc'')) log_error service_token ''sum %d'' [LogInt 7] log_start =
       Some (Ret () (emit (''calc [E] '' @ name @ '': sum 7'' @ [CHR 0x0A])
         (log_start\<lparr>log_program := Some \<lparr>myName = ''calc'', myPath = ''/opt/calc''\<rparr>\<rparr>))))"
proof -
  let ?p = "\<lparr>myName = ''calc'', myPath = ''/opt/calc''\<rparr>"
  have p: "program_instance (Some ''/opt/calc'') (log_program log_start) = Inr (?p, Some ?p)"
    by code_simp
  have less: "single_line less_token" "token_hangs less_token" and
    service: "single_line service_token" "\<not> token_hangs service_token" and
    format: "fprintf ''sum'' [] = Some ''sum''" "fprintf ''sum %d'' [LogInt 7] = Some ''sum 7''" and
    levels: "log_debug \<le> log_debug" "log_error \<le> log_debug"
    by code_simp+
  show ?thesis
    using user_log_ends [OF less(1) levels(1) p format(1)] less(2)
      user_log_ends [OF service(1) levels(2) p format(2)] service(2)
    by simp
qed

end
