(* ===== verification/Spec2Isabelle.thy ===== *)
theory Spec2Isabelle
  imports Network_Spec Client_Once Calculator_Spec Boost_Adapter Clock_Spec Clock_App Process_Windows Call_Tests_Spec
    Open_Tests_Spec Event_Tests_Spec Debug_Log
begin

text \<open>
  Cercall, a C++ library for remote calls between a client and a service over a stream
  connection. The development translates the library's classes into definitions that compute,
  and proves what each of them does, on every branch, and what they do together.

  The parts of the program and the theories that model them:

    \<^item> \<^verbatim>\<open>Errors\<close>: \<open>Error\<close>, \<open>Result\<close>, error numbers, logging levels (\<open>error.h\<close>, \<open>cercall.h\<close>,
      \<open>asio/errorcode.h\<close>, \<open>log.h\<close>). Exceptions, failed assertions and undefined behaviour are
      values of \<open>exn\<close>; an operation returns \<open>Ret\<close> or \<open>Exn\<close> together with the state it left.
    \<^item> \<^verbatim>\<open>Wire\<close>, \<^verbatim>\<open>Messenger\<close>: the header of four bytes and the reader that cuts the stream into
      messages (\<open>details/messenger.h\<close>).
    \<^item> \<^verbatim>\<open>Serialization\<close>, \<^verbatim>\<open>Boost_Adapter\<close>: the two serialization adapters (\<open>cereal/\<close>, \<open>boost/\<close>).
    \<^item> \<^verbatim>\<open>Stream_Transport\<close>, \<^verbatim>\<open>Client_Transport\<close>: \<open>Transport\<close>, \<open>BasicStreamTransport\<close> and
      \<open>ClientTcpTransport\<close> (\<open>transport.h\<close>, \<open>asio/\<close>). A transport is a part of its owner's state,
      reached through a pair of functions, since its completions call the owner back.
    \<^item> \<^verbatim>\<open>Call_Queue\<close>, \<^verbatim>\<open>Client\<close>: \<open>CallQueue\<close> and every member of \<open>Client\<close> (\<open>client.h\<close>).
      \<open>Client_Invariant\<close> holds its step relation and invariants, \<open>Client_Spec\<close> the refinement of
      an abstract queue per function, \<open>Client_Errors\<close>, \<open>Client_Faults\<close> the error paths,
      \<open>Client_Once\<close> that over every sequence of events no closure is called more often than
      it was given to the client,
      \<open>Client_Stream\<close> the reception of messages from arbitrary pieces of the stream,
      \<open>Async_Open\<close> the asynchronous open and what other operations do while it is under way.
    \<^item> \<^verbatim>\<open>Function_Dict\<close>, \<^verbatim>\<open>Acceptor\<close>, \<^verbatim>\<open>Service\<close>: the function dictionary, the acceptor and every
      member of \<open>Service\<close> (\<open>details/functiondict.h\<close>, \<open>details/typeutil.h\<close>, \<open>acceptor.h\<close>,
      \<open>asio/basicstreamacceptor.h\<close>, \<open>asio/tcpacceptor.h\<close>, \<open>service.h\<close>). \<open>Service_Invariant\<close>
      holds the step relation and the invariant, \<open>Service_Spec\<close> calls and results,
      \<open>Service_Faults\<close> and \<open>Service_Endpoint\<close> error paths, accepting and stopping.
    \<^item> \<^verbatim>\<open>Rpc\<close>, \<^verbatim>\<open>Client_Progress\<close>: one connection with both ends, the theorem of this file, the
      progress of a client through its waiting calls and the round trips of all messages.
    \<^item> \<^verbatim>\<open>Network\<close>, \<^verbatim>\<open>Network_Session\<close>, \<^verbatim>\<open>Network_Spec\<close>: a service and its clients as one system, in
      which calls, answers, broadcasts and arriving bytes interleave in any order; the invariant
      places each call in progress on its way up, at the service or on its way down.
    \<^item> \<^verbatim>\<open>Calculator\<close>, \<^verbatim>\<open>Calculator_Spec\<close>: the calculator of the unit tests, a program on the
      library (\<open>unittests/calculatorinterface.h\<close>, \<open>calculatorservice.h\<close>, \<open>calculatorclient.h\<close>).
    \<^item> \<^verbatim>\<open>Clock\<close>, \<^verbatim>\<open>Clock_Spec\<close>, \<^verbatim>\<open>Clock_App\<close>: the clock example (\<open>examples/cerclock/\<close>): the service
      with its tick and its alarms, the invariant of the alarms and their timers, the client
      program and the closures of the Python module.
    \<^item> \<^verbatim>\<open>Event_Source\<close>: the event sources of the event tests and their polymorphic events
      (\<open>unittests/polyeventsourceinterface.h\<close>, \<open>eventstestserver.cpp\<close>, \<open>eventstest.cpp\<close>).
    \<^item> \<^verbatim>\<open>Test_Programs\<close>: the test servers, the fixture of the tests and the child processes they
      start (\<open>unittests/calltestserver.cpp\<close>, \<open>testutil.h\<close>, \<open>process.cpp\<close>, \<open>utils/program.cpp\<close>), and
      \<^verbatim>\<open>Process_Windows\<close>: the Windows part of \<open>process.cpp\<close>, in both builds.
    \<^item> \<^verbatim>\<open>Log_Token\<close>, \<^verbatim>\<open>Debug_Log\<close>: the log of the tests and examples (\<open>utils/debug.h\<close>), the empty one
      of the library, and the functions that use whichever is there (\<open>log.h\<close>). The components
      above leave out the calls of the log.
    \<^item> \<^verbatim>\<open>Test_Framework\<close>, \<^verbatim>\<open>Call_Tests\<close>, \<^verbatim>\<open>Error_Tests\<close>, \<^verbatim>\<open>Event_Tests\<close>: the test cases
      (\<open>unittests/calltest.cpp\<close>, \<open>errorstest.cpp\<close>, \<open>eventstest.cpp\<close>), each a sequence of actions on
      the client, the server process and the event loop, whose expectations are counted when they
      fail. \<^verbatim>\<open>Test_Bench\<close> puts the calculator at the other end of the connection of such a test and
      shows that both refine a queue of calls, \<^verbatim>\<open>Event_Bench\<close> does so with an event source;
      \<^verbatim>\<open>Call_Tests_Spec\<close>, \<^verbatim>\<open>Error_Tests_Spec\<close>, \<^verbatim>\<open>Open_Tests_Spec\<close> and \<^verbatim>\<open>Event_Tests_Spec\<close> prove that tests pass, for all
      archives, sockets and states of the service, by triples of a state before an action, the
      action, and a state after it.
    \<^item> \<^verbatim>\<open>Sample_Environment\<close>, \<^verbatim>\<open>Sample_Service\<close>, \<^verbatim>\<open>Sample_Calculator\<close>, \<^verbatim>\<open>Sample_Network\<close>,
      \<^verbatim>\<open>Sample_Bench\<close>, \<^verbatim>\<open>Sample_Events\<close>: concrete sockets and archives, for the theorems that show that hypotheses can be met.

  Parameters stand for the code that is not in the repository: the socket, resolver, acceptor
  and timer operations of Asio (functions on an abstract socket that return an error code), the
  archives of Cereal and Boost (\<open>archive_ok\<close>: what was written is read back; a reused archive
  is taken to treat each message on its own), the system clock, the system calls for child
  processes, and the code of users - result closures, event listeners, service functions -
  which may call the library again to any depth (\<open>user\<close> for the client, the dictionary for the
  service). In the system of \<^verbatim>\<open>Network\<close> the closures of the clients do nothing, since programs can
  call at any time there, and each function answers at once or keeps its closure; its sockets are
  taken to lose nothing (\<open>lossless\<close>). Assertions are modelled as in a build in which they are
  checked. Threads appear as the number of the thread that runs, which the library compares;
  there is no concurrency to model, as it refuses calls from other threads.

  Loops: the reader of \<open>Messenger\<close> ends by a measure, since each turn takes at least a byte, and
  so does the splitting of arguments. The loop of \<open>Service::stop\<close>, the two loops of the test
  fixture that wait for something and the loop of a slave of \<open>test_many_clients\<close> need not end, and are
  partial functions, as are the two loops that shorten the function text of a log line, whose
  condition for ending is a theorem; that \<open>stop\<close> returns is a theorem under its condition, and that the waits of a
  test return is part of the theorems that it passes. No other definition has fuel. Runs of the system end by a
  lexicographic rank: unanswered calls, bytes on their way up, kept closures, bytes on their way
  down. Message sizes are kept at 32 bits, the integers of the calculator and the clock at their
  widths.

  The groups of properties: what a call does from end to end; what holds of a service and its
  clients in every order of events; how the client implements a queue of calls per function;
  invariants of all reachable clients, services and clocks; framing; the asynchronous open; calls and results of the
  service; broadcast; starting, accepting and stopping; the example programs; that the tests of the
  repository pass; the log of the tests; and the error paths
  whose outcome the theorems name - among them closures that are never called, and uses of
  destroyed objects, which the model reaches as \<open>Undefined\<close>.

  Not modelled: the macros and templates that only name types, the setup headers of the archives
  and the declarations of the Python bindings, which have no behaviour of their own. The log is
  modelled by itself: that a component prints a line, and that printing it may never end, is left
  out where the component calls it.
\<close>

section \<open>Client and service together\<close>

text \<open>
  C1: A remote call returns. A client with no outstanding call of the function sends the call;
  the bytes it writes, fed to the service, make the service's function run on the arguments
  and, when it answers at once, write its result; these bytes, fed back to the client in any
  pieces, call the closure exactly once, with the value that was returned (or the error, with
  the value-initialised result), and leave both sides ready for the next call.
\<close>

theorem remote_call_returns:
  assumes "connected cfg s scfg p cs S" and "archive_ok (sc_arch scfg) tyof"
    and "fn = full_name cfg f" and "fn \<noteq> myBroadcastFuncName cfg"
    and "outstanding fn s = []" and "(fn, p) \<notin> set (myPendingCalls S)"
    and "clo_fun c = Some n" and "result_has_type tyof (clo_type c) r"
    and "D fn = Some e" and "\<not> de_one_way e" and "map tyof vs = de_args e"
    and "\<And>c s. de_func e vs (Some c) s = run_service_closure scfg c r s"
    and "cb = call_body (sc_arch scfg) (cs_archives cs) fn vs"
    and "rb = result_body (sc_arch scfg) (cs_archives cs) fn r"
    and "carries (cf_io cfg) (cf_endian cfg) cb (mySocket (myTransport s)) k"
    and "carries (sc_io scfg) (sc_endian scfg) rb
           (io_async_read (sc_io scfg) (length cb) (mySocket (svTransports S p))) k'"
    and "concat pieces = frame (sc_endian scfg) rb"
  shows "\<exists>s1 S1 s2.
     send_call passive_user cfg f c vs s = Ret () s1 \<and> mySocket (myTransport s1) = k \<and>
     service_pump scfg D p (frame (cf_endian cfg) cb) S = Ret [] S1 \<and>
     mySocket (svTransports S1 p) = io_async_read (sc_io scfg) HEADER_SIZE k' \<and>
     myPendingCalls S1 = myPendingCalls S \<and> service_at_header p S1 \<and>
     client_feed passive_user cfg pieces s1 = Ret [] s2 \<and>
     callbacks s2 = callbacks s @ [OnResult n (received_result (sc_arch scfg) (clo_type c) r)] \<and>
     outstanding fn s2 = []"
  using assms by (rule remote_call)

theorem remote_call_returns_witness:
  "\<exists>s1 S1 s2 bs.
     send_call passive_user sample_cfg ''add'' (sample_closure 7) [1, 2, 3] sample_client = Ret () s1 \<and>
     service_pump sample_service_cfg [''CalculatorInterface::add'' \<mapsto> sample_entry] 1
       (frame LittleEndian sample_body) (sample_service False) = Ret [] S1 \<and>
     client_feed passive_user sample_cfg [frame LittleEndian bs] s1 = Ret [] s2 \<and>
     callbacks s2 = [OnResult 7 \<lparr>res_value = Some 6, myError = Error_of_message 0 ''''\<rparr>]"
proof -
  let ?fn = "''CalculatorInterface::add''" and ?cs = "\<lparr>cs_messenger = new_messenger, cs_archives = True\<rparr>"
  let ?r = "Result_value 6 Error_none :: cint result"
  let ?rb = "result_body sample_archive True ?fn ?r"
  have cb: "call_body sample_archive True ?fn [1, 2, 3] = sample_body"
    by (simp add: call_body_def sample_body_def)
  have rb: "length ?rb = 58"
    by (simp add: result_body_def serialize_call_result_def serialize_items_def sample_message_length
        save_result_def save_error_def Result_value_def Error_none_def u32_bytes_def)
  have ok: "body_ok sample_body" "body_ok ?rb"
    using sample_body_length rb by (auto simp: body_ok_def HEADER_SIZE_def)
  have rr: "received_result sample_archive (Some ()) ?r = \<lparr>res_value = Some 6, myError = Error_of_message 0 ''''\<rparr>"
    by (simp add: received_result_def Result_value_def Error_none_def)
  have io: "io_write sample_io m k = (ec_success, k\<lparr>sent := sent k @ m\<rparr>)" if "\<not> broken k" for m k
    using that by (simp add: sample_io_def)
  have not_broken: "\<not> broken (io_async_read sample_io n (mySocket (svTransports (sample_service False) 1)))"
    "\<not> broken (mySocket (myTransport sample_client))" for n
    by (simp_all add: sample_io_def sample_service_simps sample_client_eq sample_sock_def)
  have client: "client_ready sample_client" "can_receive sample_client" "at_header sample_client"
      "fifo_ok sample_client" "outstanding ?fn sample_client = []"
    by (simp_all add: client_ready_def can_receive_def at_header_def fifo_ok_def tr_is_open_def
        outstanding_def sample_client_eq new_messenger_def HEADER_SIZE_def empty_queue_def)
  have service: "map_of (myClients (sample_service False)) 1 = Some ?cs"
      "service_at_header 1 (sample_service False)" "myPendingCalls (sample_service False) = []"
    by (simp_all add: service_at_header_def sample_service_simps new_messenger_def HEADER_SIZE_def)
  have names: "?fn = full_name sample_cfg ''add''" "?fn \<noteq> myBroadcastFuncName sample_cfg"
    by (simp_all add: myFuncPrefix_def myBroadcastFuncName_def sample_cfg_def)
  have entry: "\<not> de_one_way sample_entry" "map (\<lambda>_. ()) [1, 2, 3 :: cint] = de_args sample_entry"
      "\<And>c s. de_func sample_entry [1, 2, 3] (Some c) s = run_service_closure sample_service_cfg c ?r s"
    by (simp_all add: sample_entry_def)
  have arch: "myArchives sample_client = cs_archives ?cs" "clo_fun (sample_closure 7) = Some 7"
      "result_has_type (\<lambda>_. ()) (clo_type (sample_closure 7)) ?r"
    by (simp_all add: sample_client_eq sample_closure_def result_has_type_def Result_value_def)
  have con: "connected sample_cfg sample_client sample_service_cfg 1 ?cs (sample_service False)"
    using client service arch sample_service_inv by (simp add: connected_def)
      (simp add: sample_cfg_def)
  have sample_archive_ok': "archive_ok (sc_arch sample_service_cfg) (\<lambda>_. ())"
    using sample_archive_ok by simp
  have ok0: "ec_ok ec_success"
    by (simp add: ec_samples ec_ok_def)
  have "\<exists>s1 S1 s2.
     send_call passive_user sample_cfg ''add'' (sample_closure 7) [1, 2, 3] sample_client = Ret () s1 \<and>
     mySocket (myTransport s1) = snd (io_write sample_io (frame (cf_endian sample_cfg) sample_body)
       (mySocket (myTransport sample_client))) \<and>
     service_pump sample_service_cfg [?fn \<mapsto> sample_entry] 1 (frame (cf_endian sample_cfg) sample_body)
       (sample_service False) = Ret [] S1 \<and>
     mySocket (svTransports S1 1) = io_async_read (sc_io sample_service_cfg) HEADER_SIZE
       (snd (io_write sample_io (frame (cf_endian sample_cfg) ?rb)
         (io_async_read sample_io (length sample_body) (mySocket (svTransports (sample_service False) 1))))) \<and>
     myPendingCalls S1 = myPendingCalls (sample_service False) \<and> service_at_header 1 S1 \<and>
     client_feed passive_user sample_cfg [frame LittleEndian ?rb] s1 = Ret [] s2 \<and>
     callbacks s2 = callbacks sample_client @
       [OnResult 7 (received_result (sc_arch sample_service_cfg) (clo_type (sample_closure 7)) ?r)] \<and>
     outstanding ?fn s2 = []"
    by (rule remote_call_returns [OF con sample_archive_ok' names client(5) _ arch(2,3) _ entry])
       (use ok cb io not_broken ok0 service(3) in \<open>simp_all add: carries_def\<close>)
  then show ?thesis
    by (auto simp: sample_client_eq sample_closure_def rr)
qed

end
